theory Spec2Isabelle
  imports Complex_Main "HOL-Library.Word" "HOL-Library.Char_ord" "HOL-Library.List_Lexorder"
    "HOL-Library.Product_Lexorder" "HOL-Library.Log_Nat" "HOL-Library.Multiset"
begin

unbundle bit_operations_syntax

section \<open>Python values and strings\<close>

text \<open>
  The aggregator's payload is JSON, read by \<open>response.json()\<close> into Python dicts, lists,
  strings and numbers. A dict is a partial map from keys to values; \<open>d.get(k)\<close> is the
  lookup, with \<open>None\<close> of the map for a missing key. Numbers are exact rationals: the
  code only compares them with zero and with each other.
\<close>

datatype jval =
    JNull
  | JBool bool
  | JNum rat
  | JStr string
  | JArr "jval list"
  | JObj "(string \<times> jval) list"

type_synonym pydict = "string \<rightharpoonup> jval"

datatype py_error =
    KeyError string
  | AttributeError
  | ValidationError string
  | ValueError string
  | IntegrityError string
  | SplitMismatchError string rat rat
  | HTTPError

text \<open>\<open>str.lower()\<close> on ASCII text: the keyword lists below are ASCII.\<close>

definition lower_char :: "char \<Rightarrow> char" where
  "lower_char c =
     (case map_of (zip ''ABCDEFGHIJKLMNOPQRSTUVWXYZ'' ''abcdefghijklmnopqrstuvwxyz'') c of
        Some d \<Rightarrow> d
      | None \<Rightarrow> c)"

definition lower :: "string \<Rightarrow> string" where
  "lower s = map lower_char s"

fun starts_with :: "string \<Rightarrow> string \<Rightarrow> bool" where
  "starts_with [] s = True"
| "starts_with (k # ks) [] = False"
| "starts_with (k # ks) (c # cs) = (k = c \<and> starts_with ks cs)"

text \<open>\<open>kw in s\<close> on strings: \<open>kw\<close> occurs in \<open>s\<close> as a contiguous substring.\<close>

fun str_contains :: "string \<Rightarrow> string \<Rightarrow> bool" where
  "str_contains kw [] = starts_with kw []"
| "str_contains kw (c # cs) = (starts_with kw (c # cs) \<or> str_contains kw cs)"

text \<open>\<open>any(keyword in name for keyword in keywords)\<close>.\<close>

fun any_keyword :: "string list \<Rightarrow> string \<Rightarrow> bool" where
  "any_keyword [] name = False"
| "any_keyword (kw # kws) name = (str_contains kw name \<or> any_keyword kws name)"

subsection \<open>The builtin \<open>float\<close>\<close>

text \<open>
  \<open>float(v)\<close> returns a number or raises \<open>ValueError\<close>/\<open>TypeError\<close>; the callers catch both,
  so the model returns \<open>None\<close> for either. A string is read in plain decimal notation
  (sign, digits, an optional fraction), which is how the aggregator writes balances and
  amounts, and the number is the exact value of the decimal. Not part of this model, and
  read as \<open>None\<close>: the other strings Python's \<open>float\<close> accepts (surrounding whitespace,
  underscores between digits, exponent notation, \<open>inf\<close> and \<open>nan\<close>); nor is the rounding
  of the value to a binary float, which changes no sign but takes a value below the
  smallest float to zero.
\<close>

definition digit_val :: "char \<Rightarrow> nat option" where
  "digit_val c = map_of (zip ''0123456789'' [0, 1, 2, 3, 4, 5, 6, 7, 8, 9]) c"

fun digits_val :: "string \<Rightarrow> nat \<Rightarrow> nat option" where
  "digits_val [] acc = Some acc"
| "digits_val (c # cs) acc =
     (case digit_val c of None \<Rightarrow> None | Some d \<Rightarrow> digits_val cs (10 * acc + d))"

definition unsigned_decimal :: "string \<Rightarrow> rat option" where
  "unsigned_decimal s =
     (let ip = takeWhile (\<lambda>c. c \<noteq> CHR ''.'') s;
          rest = dropWhile (\<lambda>c. c \<noteq> CHR ''.'') s;
          fp = (case rest of [] \<Rightarrow> [] | _ # f \<Rightarrow> f)
      in if ip = [] \<and> fp = [] then None
         else (case digits_val (ip @ fp) 0 of
                 None \<Rightarrow> None
               | Some n \<Rightarrow> Some (of_nat n / of_nat (10 ^ length fp))))"

definition parse_float :: "string \<Rightarrow> rat option" where
  "parse_float s =
     (case s of
        [] \<Rightarrow> None
      | c # cs \<Rightarrow>
          if c = CHR ''-'' then map_option uminus (unsigned_decimal cs)
          else if c = CHR ''+'' then unsigned_decimal cs
          else unsigned_decimal s)"

fun py_float :: "jval \<Rightarrow> rat option" where
  "py_float (JNum r) = Some r"
| "py_float (JBool b) = Some (if b then 1 else 0)"
| "py_float (JStr s) = parse_float s"
| "py_float JNull = None"
| "py_float (JArr xs) = None"
| "py_float (JObj kvs) = None"

section \<open>AccountClassifier: \<open>classify_account\<close> (app/sync/simplefin.py)\<close>

datatype account_type = bank | credit_card | investment | loan

definition investment_keywords :: "string list" where
  "investment_keywords =
     [''brokerage'', ''investment'', ''401k'', ''403b'', ''roth'', ''ira'', ''retirement'',
      ''portfolio'', ''trading'', ''stock plan'', ''etrade'', ''robinhood'', ''schwab'',
      ''fidelity'', ''vanguard'', ''merrill'', ''td ameritrade'', ''fund'', ''mutual'',
      ''equity'', ''securities'']"

definition credit_keywords :: "string list" where
  "credit_keywords = [''card'', ''credit'', ''visa'', ''mastercard'', ''amex'', ''discover'']"

definition bank_keywords :: "string list" where
  "bank_keywords =
     [''checking'', ''savings'', ''spending'', ''deposit'', ''dda'', ''mma'', ''money market'']"

text \<open>
  \<open>isinstance(holdings, collections.abc.Collection) and len(holdings) > 0\<close>: lists, dicts
  and strings are collections; numbers, booleans and \<open>None\<close> are not.
\<close>

fun nonempty_collection :: "jval option \<Rightarrow> bool" where
  "nonempty_collection (Some (JArr xs)) = (xs \<noteq> [])"
| "nonempty_collection (Some (JObj kvs)) = (kvs \<noteq> [])"
| "nonempty_collection (Some (JStr s)) = (s \<noteq> [])"
| "nonempty_collection _ = False"

text \<open>
  The two \<open>try\<close> blocks: a value that is \<open>None\<close> (or missing) and a value \<open>float\<close> rejects
  both leave the variable \<open>None\<close>.
\<close>

definition float_or_none :: "jval option \<Rightarrow> rat option" where
  "float_or_none v = (case v of None \<Rightarrow> None | Some JNull \<Rightarrow> None | Some x \<Rightarrow> py_float x)"

text \<open>The balance heuristics, after the name keywords found nothing.\<close>

definition classify_by_balance :: "rat option \<Rightarrow> rat option \<Rightarrow> account_type option" where
  "classify_by_balance balance avail =
     (case balance of
        None \<Rightarrow> None
      | Some b \<Rightarrow>
          if avail = None \<and> b \<le> 0 then Some credit_card
          else if b \<ge> 0 \<and> (case avail of None \<Rightarrow> True | Some a \<Rightarrow> a \<ge> 0) then Some bank
          else None)"

text \<open>
  \<open>acct.get("name", "").lower()\<close> raises \<open>AttributeError\<close> when the name is present and
  not a string. The available balance is read under the key \<open>available_balance\<close>.
\<close>

definition classify_account :: "pydict \<Rightarrow> py_error + account_type option" where
  "classify_account acct =
     (if nonempty_collection (acct ''holdings'') then Inr (Some investment)
      else
        (case (case acct ''name'' of None \<Rightarrow> Some [] | Some (JStr s) \<Rightarrow> Some s | Some _ \<Rightarrow> None) of
           None \<Rightarrow> Inl AttributeError
         | Some raw_name \<Rightarrow>
             (let name = lower raw_name in
              if any_keyword investment_keywords name then Inr (Some investment)
              else if any_keyword credit_keywords name then Inr (Some credit_card)
              else if any_keyword bank_keywords name then Inr (Some bank)
              else Inr (classify_by_balance
                          (float_or_none (acct ''balance''))
                          (float_or_none (acct ''available_balance''))))))"

section \<open>ContentHasher: \<open>compute_transaction_hash\<close> (app/utils/hash.py)\<close>

subsection \<open>\<open>hashlib.sha256(...).hexdigest()\<close>\<close>

text \<open>
  SHA-256 as FIPS 180-4 defines it, over the bytes of the message: padding to a multiple
  of 64 bytes, big-endian 32-bit words, the 64-round compression of every block, and the
  eight state words printed as lowercase hexadecimal.
\<close>

type_synonym w32 = "32 word"

definition rotr :: "nat \<Rightarrow> w32 \<Rightarrow> w32" where
  "rotr n x = word_rotr n x"

definition big_sigma0 :: "w32 \<Rightarrow> w32" where
  "big_sigma0 x = rotr 2 x XOR rotr 13 x XOR rotr 22 x"

definition big_sigma1 :: "w32 \<Rightarrow> w32" where
  "big_sigma1 x = rotr 6 x XOR rotr 11 x XOR rotr 25 x"

definition small_sigma0 :: "w32 \<Rightarrow> w32" where
  "small_sigma0 x = rotr 7 x XOR rotr 18 x XOR drop_bit 3 x"

definition small_sigma1 :: "w32 \<Rightarrow> w32" where
  "small_sigma1 x = rotr 17 x XOR rotr 19 x XOR drop_bit 10 x"

definition ch :: "w32 \<Rightarrow> w32 \<Rightarrow> w32 \<Rightarrow> w32" where
  "ch x y z = (x AND y) XOR (NOT x AND z)"

definition maj :: "w32 \<Rightarrow> w32 \<Rightarrow> w32 \<Rightarrow> w32" where
  "maj x y z = (x AND y) XOR (x AND z) XOR (y AND z)"

definition sha_k :: "w32 list" where
  "sha_k =
     [0x428A2F98, 0x71374491, 0xB5C0FBCF, 0xE9B5DBA5, 0x3956C25B, 0x59F111F1,
      0x923F82A4, 0xAB1C5ED5, 0xD807AA98, 0x12835B01, 0x243185BE, 0x550C7DC3,
      0x72BE5D74, 0x80DEB1FE, 0x9BDC06A7, 0xC19BF174, 0xE49B69C1, 0xEFBE4786,
      0x0FC19DC6, 0x240CA1CC, 0x2DE92C6F, 0x4A7484AA, 0x5CB0A9DC, 0x76F988DA,
      0x983E5152, 0xA831C66D, 0xB00327C8, 0xBF597FC7, 0xC6E00BF3, 0xD5A79147,
      0x06CA6351, 0x14292967, 0x27B70A85, 0x2E1B2138, 0x4D2C6DFC, 0x53380D13,
      0x650A7354, 0x766A0ABB, 0x81C2C92E, 0x92722C85, 0xA2BFE8A1, 0xA81A664B,
      0xC24B8B70, 0xC76C51A3, 0xD192E819, 0xD6990624, 0xF40E3585, 0x106AA070,
      0x19A4C116, 0x1E376C08, 0x2748774C, 0x34B0BCB5, 0x391C0CB3, 0x4ED8AA4A,
      0x5B9CCA4F, 0x682E6FF3, 0x748F82EE, 0x78A5636F, 0x84C87814, 0x8CC70208,
      0x90BEFFFA, 0xA4506CEB, 0xBEF9A3F7, 0xC67178F2]"

type_synonym sha_state = "w32 \<times> w32 \<times> w32 \<times> w32 \<times> w32 \<times> w32 \<times> w32 \<times> w32"

definition sha_init :: sha_state where
  "sha_init =
     (0x6A09E667, 0xBB67AE85, 0x3C6EF372, 0xA54FF53A, 0x510E527F, 0x9B05688C,
      0x1F83D9AB, 0x5BE0CD19)"

fun be_bytes :: "nat \<Rightarrow> nat \<Rightarrow> w32 list" where
  "be_bytes 0 x = []"
| "be_bytes (Suc n) x = be_bytes n (x div 256) @ [of_nat (x mod 256)]"

definition sha_pad :: "string \<Rightarrow> w32 list" where
  "sha_pad s =
     (let l = length s;
          k = (119 - l mod 64) mod 64
      in map (\<lambda>c. of_nat (of_char c)) s @ [128] @ replicate k 0 @ be_bytes 8 (8 * l))"

fun be_words :: "w32 list \<Rightarrow> w32 list" where
  "be_words (a # b # c # d # rest) =
     (push_bit 24 a OR push_bit 16 b OR push_bit 8 c OR d) # be_words rest"
| "be_words _ = []"

fun chunks16 :: "w32 list \<Rightarrow> w32 list list" where
  "chunks16 [] = []"
| "chunks16 (x # xs) = take 16 (x # xs) # chunks16 (drop 16 (x # xs))"

fun schedule :: "nat \<Rightarrow> w32 list \<Rightarrow> w32 list" where
  "schedule 0 w = w"
| "schedule (Suc n) w =
     (let t = length w
      in schedule n
           (w @ [small_sigma1 (w ! (t - 2)) + w ! (t - 7) + small_sigma0 (w ! (t - 15)) + w ! (t - 16)]))"

fun sha_round :: "sha_state \<Rightarrow> w32 \<times> w32 \<Rightarrow> sha_state" where
  "sha_round (a, b, c, d, e, f, g, h) (k, w) =
     (let t1 = h + big_sigma1 e + ch e f g + k + w;
          t2 = big_sigma0 a + maj a b c
      in (t1 + t2, a, b, c, d + t1, e, f, g))"

fun sha_add :: "sha_state \<Rightarrow> sha_state \<Rightarrow> sha_state" where
  "sha_add (a, b, c, d, e, f, g, h) (a', b', c', d', e', f', g', h') =
     (a + a', b + b', c + c', d + d', e + e', f + f', g + g', h + h')"

definition sha_block :: "sha_state \<Rightarrow> w32 list \<Rightarrow> sha_state" where
  "sha_block st blk = sha_add st (foldl sha_round st (zip sha_k (schedule 48 blk)))"

definition hex_digit :: "nat \<Rightarrow> char" where
  "hex_digit n = ''0123456789abcdef'' ! (n mod 16)"

definition hex8 :: "w32 \<Rightarrow> string" where
  "hex8 x = map (\<lambda>i. hex_digit (unat (drop_bit (4 * i) x AND 15))) [7, 6, 5, 4, 3, 2, 1, 0]"

fun hex_state :: "sha_state \<Rightarrow> string" where
  "hex_state (a, b, c, d, e, f, g, h) =
     hex8 a @ hex8 b @ hex8 c @ hex8 d @ hex8 e @ hex8 f @ hex8 g @ hex8 h"

definition sha256_hexdigest :: "string \<Rightarrow> string" where
  "sha256_hexdigest s = hex_state (foldl sha_block sha_init (chunks16 (be_words (sha_pad s))))"

subsection \<open>Decimals, datetimes and the signature string\<close>

text \<open>
  A finite \<open>Decimal\<close> is a sign, a coefficient and an exponent, as \<open>Decimal.as_tuple()\<close>
  shows it: \<open>Decimal("12.50")\<close> is \<open>1250\<close> with exponent \<open>-2\<close> and \<open>Decimal("12.5")\<close> is \<open>125\<close>
  with exponent \<open>-1\<close>, different objects with different \<open>str\<close> and the same numeric value;
  \<open>Decimal("-0.00")\<close> is the negative sign with coefficient \<open>0\<close> and exponent \<open>-2\<close>, a zero
  with a sign.
\<close>

record decimal =
  dec_sign :: bool
  dec_coeff :: nat
  dec_exp :: int

definition dec_abs :: "decimal \<Rightarrow> rat" where
  "dec_abs d =
     (if 0 \<le> dec_exp d then of_nat (dec_coeff d) * of_nat (10 ^ nat (dec_exp d))
      else of_nat (dec_coeff d) / of_nat (10 ^ nat (- dec_exp d)))"

definition dec_value :: "decimal \<Rightarrow> rat" where
  "dec_value d = (if dec_sign d then - dec_abs d else dec_abs d)"

text \<open>
  A Python \<open>float\<close> is an IEEE 754 binary64 number: a sign with a magnitude, or a signed
  infinity (a finite \<open>Decimal\<close> gives no NaN). \<open>round_finite q\<close> is the binary64 number
  nearest to \<open>q \<ge> 0\<close>, ties to the even significand, with 53 bits from \<open>pow2 (-1022)\<close> on and
  multiples of \<open>pow2 (-1074)\<close> below; a result of \<open>pow2 1024\<close> or more is an overflow.
  \<open>float(d)\<close> of a \<open>Decimal\<close> keeps the sign and rounds the magnitude, to infinity on
  overflow; it does not raise.
\<close>

definition pow2 :: "int \<Rightarrow> rat" where
  "pow2 k = (if 0 \<le> k then 2 ^ nat k else 1 / 2 ^ nat (- k))"

definition ilog2 :: "rat \<Rightarrow> int" where
  "ilog2 q = (let k = bitlen (fst (quotient_of q)) - bitlen (snd (quotient_of q))
              in if pow2 k \<le> q then k else k - 1)"

definition round_half_even :: "rat \<Rightarrow> int" where
  "round_half_even x =
     (let f = \<lfloor>x\<rfloor>; r = x - of_int f
      in if r < 1 / 2 then f else if 1 / 2 < r then f + 1 else if even f then f else f + 1)"

definition round_finite :: "rat \<Rightarrow> rat" where
  "round_finite q =
     (if q = 0 then 0
      else (let e = max (ilog2 q) (- 1022); ulp = pow2 (e - 52)
            in of_int (round_half_even (q / ulp)) * ulp))"

datatype pyfloat = Finite bool rat | Infinity bool

definition float_of_decimal :: "decimal \<Rightarrow> pyfloat" where
  "float_of_decimal d =
     (let m = round_finite (dec_abs d)
      in if pow2 1024 \<le> m then Infinity (dec_sign d) else Finite (dec_sign d) m)"

text \<open>
  A timezone-aware \<open>datetime\<close> is its number of seconds since the epoch; \<open>timedelta(days=n)\<close>
  is \<open>n * 86400\<close> seconds.

  Two functions of Python's library are parameters of the model: \<open>float_repr x\<close> is the text
  that formatting the float \<open>x\<close> in an f-string gives (\<open>12.5\<close>, \<open>0.0\<close>, \<open>-0.0\<close>, \<open>inf\<close>), and
  \<open>isoformat t\<close> is \<open>datetime.isoformat()\<close>. Every theorem below holds for all such
  functions.
\<close>

type_synonym time = int

definition timedelta_days :: "int \<Rightarrow> int" where
  "timedelta_days n = n * 86400"

record pylib =
  float_repr :: "pyfloat \<Rightarrow> string"
  isoformat :: "time \<Rightarrow> string"

text \<open>
  \<open>sig = f"{account_id}:{posted_str}:{float(amount)}:{description or ''}"\<close>, hashed as its
  UTF-8 bytes (a \<open>string\<close> here is already a list of bytes).
\<close>

definition transaction_sig ::
  "pylib \<Rightarrow> string \<Rightarrow> time option \<Rightarrow> decimal \<Rightarrow> string option \<Rightarrow> string" where
  "transaction_sig lib account_id posted amount description =
     (let posted_str = (case posted of Some p \<Rightarrow> isoformat lib p | None \<Rightarrow> ''none'')
      in account_id @ '':'' @ posted_str @ '':'' @ float_repr lib (float_of_decimal amount) @ '':'' @
         (case description of Some d \<Rightarrow> d | None \<Rightarrow> []))"

definition compute_transaction_hash ::
  "pylib \<Rightarrow> string \<Rightarrow> time option \<Rightarrow> decimal \<Rightarrow> string option \<Rightarrow> string" where
  "compute_transaction_hash lib account_id posted amount description =
     sha256_hexdigest (transaction_sig lib account_id posted amount description)"


section \<open>The persistence layer (app/models.py)\<close>

text \<open>
  One record per mapped class, with the columns the functions below read or write, and
  one list of rows per table, in row order. A query with \<open>.all()\<close> returns the rows in
  table order, \<open>.first()\<close> the first of them. Primary keys are unique: an insert of a
  second row with a stored key fails with \<open>IntegrityError\<close>. The foreign keys onto
  accounts and transactions are declared \<open>ON DELETE CASCADE\<close>: deleting an account deletes
  the balances, holdings and transactions that still reference it, and deleting a
  transaction deletes its splits. Amounts are the numeric values of the stored decimals.
\<close>

record account_row =
  a_id :: string
  a_name :: string
  a_alt_name :: "string option"
  a_currency :: string
  a_org_id :: "string option"
  a_is_hidden :: "bool option"
  a_account_type :: "account_type option"
  a_created_at :: "time option"

record transaction_row =
  t_id :: string
  t_account_id :: string
  t_amount :: rat
  t_posted :: time
  t_transacted_at :: "time option"
  t_payee_id :: "nat option"
  t_is_pending :: "bool option"
  t_description :: "string option"
  t_memo :: "string option"
  t_content_hash :: "string option"

record split_row =
  s_id :: nat
  s_transaction_id :: string
  s_category_id :: nat
  s_amount :: rat

record holding_row =
  h_id :: string
  h_account_id :: string

record balance_row =
  b_id :: nat
  b_account_id :: string
  b_balance :: rat
  b_balance_date :: time

record payee_row =
  p_id :: nat
  p_name :: string
  p_category_id :: nat

record category_row =
  c_id :: nat
  c_name :: string

record db =
  accounts :: "account_row list"
  transactions :: "transaction_row list"
  splits :: "split_row list"
  holdings :: "holding_row list"
  balances :: "balance_row list"
  payees :: "payee_row list"
  categories :: "category_row list"
  next_split_id :: nat
  next_payee_id :: nat

text \<open>
  A function that works on the session returns what it returned or raised, and the
  database as the call left it: where it raised before its first write, or before the
  commit of what it had written, the database is the one it was given.
\<close>

type_synonym 'a outcome = "(py_error + 'a) \<times> db"

text \<open>\<open>db.get(Account, id)\<close>, \<open>db.get(Transaction, id)\<close>.\<close>

definition get_account :: "db \<Rightarrow> string \<Rightarrow> account_row option" where
  "get_account d aid = find (\<lambda>a. a_id a = aid) (accounts d)"

definition get_transaction :: "db \<Rightarrow> string \<Rightarrow> transaction_row option" where
  "get_transaction d tid = find (\<lambda>t. t_id t = tid) (transactions d)"

section \<open>Loan categorization (app/sync/simplefin.py)\<close>

text \<open>\<open>_find_category_by_name\<close>: the id of the first name of the list that a category has.\<close>

fun find_category_by_name :: "db \<Rightarrow> string list \<Rightarrow> nat option" where
  "find_category_by_name d [] = None"
| "find_category_by_name d (name # names) =
     (case find (\<lambda>c. c_name c = name) (categories d) of
        Some c \<Rightarrow> Some (c_id c)
      | None \<Rightarrow> find_category_by_name d names)"

text \<open>\<open>if category_id:\<close> holds for an id that is found and is not 0.\<close>

definition truthy_id :: "nat option \<Rightarrow> bool" where
  "truthy_id c = (case c of None \<Rightarrow> False | Some n \<Rightarrow> n \<noteq> 0)"

definition suggest_category_for_loan_transaction ::
  "db \<Rightarrow> string \<Rightarrow> string \<Rightarrow> nat option" where
  "suggest_category_for_loan_transaction d description account_type_str =
     (if description = [] then None
      else
        (let desc_lower = lower description;
             tax = find_category_by_name d [''Property Tax'', ''Taxes''];
             ins = find_category_by_name d [''Home Insurance'', ''Insurance''];
             pmi = find_category_by_name d [''Insurance''];
             transfer = find_category_by_name d [''Transfer'']
         in if any_keyword [''property tax'', ''tax disbursement'', ''county tax'', ''real estate tax'']
                 desc_lower \<and> truthy_id tax
            then tax
            else if any_keyword [''insurance'', ''homeowner'', ''hazard'', ''home insurance''] desc_lower
                 \<and> truthy_id ins
            then ins
            else if any_keyword [''pmi'', ''mortgage insurance''] desc_lower \<and> truthy_id pmi
            then pmi
            else if (account_type_str = ''loan'' \<or> account_type_str = ''mortgage'') \<and> truthy_id transfer
            then transfer
            else None))"

text \<open>
  \<open>str(account_type)\<close> of a member of \<open>class AccountType(str, enum.Enum)\<close> is the class and
  member name; the empty string stands for \<open>None\<close>.
\<close>

definition account_type_str :: "account_type option \<Rightarrow> string" where
  "account_type_str t =
     (case t of
        None \<Rightarrow> []
      | Some bank \<Rightarrow> ''AccountType.bank''
      | Some credit_card \<Rightarrow> ''AccountType.credit_card''
      | Some investment \<Rightarrow> ''AccountType.investment''
      | Some loan \<Rightarrow> ''AccountType.loan'')"

section \<open>Transactions (app/crud/transaction.py)\<close>

text \<open>
  The input of \<open>create_transaction\<close>: a \<open>TransactionCreate\<close> or the dict of a remote
  record. \<open>posted\<close> and \<open>transacted_at\<close> are given as epoch seconds or datetimes, which
  \<open>_convert_epoch\<close> turns into datetimes: the same number in this model.
\<close>

record split_in =
  si_category_id :: nat
  si_amount :: decimal

record txn_in =
  i_id :: string
  i_account_id :: string
  i_amount :: decimal
  i_posted :: "time option"
  i_transacted_at :: "time option"
  i_payee :: "string option"
  i_payee_id :: "nat option"
  i_is_pending :: "bool option"
  i_description :: "string option"
  i_memo :: "string option"
  i_content_hash :: "string option"
  i_splits :: "split_in list option"

text \<open>
  \<open>_validate_splits(transaction)\<close>, on the amount and the split amounts of the transaction
  object it is given: no check when the object has no splits.
\<close>

definition validate_splits :: "string \<Rightarrow> rat \<Rightarrow> rat list \<Rightarrow> py_error option" where
  "validate_splits tid amount split_amounts =
     (if split_amounts \<noteq> [] \<and> sum_list split_amounts \<noteq> amount
      then Some (SplitMismatchError tid amount (sum_list split_amounts))
      else None)"

text \<open>
  The payee of a new transaction: a non-empty \<open>payee\<close> name is normalized, looked up by
  name and created when unknown, with the suggested category or 0; its id replaces any
  \<open>payee_id\<close> of the input. \<open>normalize_check_payee\<close> (app/utils/payee_normalizer.py) is a
  pure function of the payee name and the description; it is the parameter \<open>norm\<close>, and
  nothing below depends on which function it is.
\<close>

definition resolve_payee ::
  "(string \<Rightarrow> string \<Rightarrow> string) \<Rightarrow> db \<Rightarrow> txn_in \<Rightarrow> nat option \<Rightarrow> nat option \<times> db" where
  "resolve_payee normalize_payee d inp suggested_payee_category_id =
     (case i_payee inp of
        None \<Rightarrow> (i_payee_id inp, d)
      | Some raw \<Rightarrow>
          if raw = [] then (i_payee_id inp, d)
          else
            (let payee_name = normalize_payee raw (case i_description inp of Some x \<Rightarrow> x | None \<Rightarrow> [])
             in case find (\<lambda>p. p_name p = payee_name) (payees d) of
                  Some p \<Rightarrow> (Some (p_id p), d)
                | None \<Rightarrow>
                    (let category_id =
                           (case suggested_payee_category_id of Some c \<Rightarrow> c | None \<Rightarrow> 0);
                         payee = \<lparr>p_id = next_payee_id d, p_name = payee_name,
                                  p_category_id = category_id\<rparr>
                     in (Some (p_id payee),
                         d\<lparr>payees := payees d @ [payee], next_payee_id := Suc (next_payee_id d)\<rparr>))))"

text \<open>The split rows of a new transaction: the given ones, or one default split.\<close>

fun number_splits :: "nat \<Rightarrow> string \<Rightarrow> split_in list \<Rightarrow> split_row list" where
  "number_splits n tid [] = []"
| "number_splits n tid (x # xs) =
     \<lparr>s_id = n, s_transaction_id = tid, s_category_id = si_category_id x,
      s_amount = dec_value (si_amount x)\<rparr> # number_splits (Suc n) tid xs"

definition new_splits :: "nat \<Rightarrow> transaction_row \<Rightarrow> split_in list option \<Rightarrow> split_row list" where
  "new_splits n txn splits_data =
     (case splits_data of
        Some (x # xs) \<Rightarrow> number_splits n (t_id txn) (x # xs)
      | _ \<Rightarrow> [\<lparr>s_id = n, s_transaction_id = t_id txn, s_category_id = 0, s_amount = t_amount txn\<rparr>])"

text \<open>
  \<open>create_transaction\<close>. The transaction object is built from the data after
  \<open>data.pop("splits")\<close>, so it has no splits when \<open>_validate_splits\<close> looks at it; the
  splits are attached after the flush. The flush fails when \<open>posted\<close> is missing (the
  column is not nullable) or the id is already stored. An \<open>is_pending\<close> that is missing or
  \<open>None\<close> is stored as the column's default, \<open>False\<close>.

  Left to the database, and not part of the model: the rounding of an amount of more
  than two decimal places to the column's \<open>Numeric(12, 2)\<close> (amounts are stored as given),
  and the check of the foreign keys of a new row (an unknown account or category is
  accepted, as SQLite accepts it).
\<close>

definition create_transaction ::
  "(string \<Rightarrow> string \<Rightarrow> string) \<Rightarrow> db \<Rightarrow> txn_in \<Rightarrow> nat option \<Rightarrow> transaction_row outcome" where
  "create_transaction normalize_payee d inp suggested_payee_category_id =
     (let (payee_id, d1) = resolve_payee normalize_payee d inp suggested_payee_category_id;
          splits_data = i_splits inp
      in case validate_splits (i_id inp) (dec_value (i_amount inp)) [] of
           Some e \<Rightarrow> (Inl e, d)
         | None \<Rightarrow>
             (case i_posted inp of
                None \<Rightarrow> (Inl (IntegrityError ''transactions.posted''), d)
              | Some posted \<Rightarrow>
                  if get_transaction d1 (i_id inp) \<noteq> None
                  then (Inl (IntegrityError ''transactions.id''), d)
                  else
                    (let txn = \<lparr>t_id = i_id inp, t_account_id = i_account_id inp,
                                t_amount = dec_value (i_amount inp), t_posted = posted,
                                t_transacted_at = i_transacted_at inp, t_payee_id = payee_id,
                                t_is_pending =
                                  Some (case i_is_pending inp of Some b \<Rightarrow> b | None \<Rightarrow> False),
                                t_description = i_description inp, t_memo = i_memo inp,
                                t_content_hash = i_content_hash inp\<rparr>;
                         rows = new_splits (next_split_id d1) txn splits_data
                     in (Inr txn,
                         d1\<lparr>transactions := transactions d1 @ [txn],
                            splits := splits d1 @ rows,
                            next_split_id := next_split_id d1 + length rows\<rparr>))))"

section \<open>IngestionWriter: \<open>process_transactions\<close> (app/sync/simplefin.py)\<close>

text \<open>
  \<open>posted\<close> of the hash is \<open>None\<close> when the record's timestamp is missing or 0. The amount of
  the hash is \<open>Decimal(str(amount))\<close>, the record's amount. The account type is read once,
  before the loop; \<open>account_type in ["loan", "mortgage"]\<close> holds for \<open>AccountType.loan\<close> only.
  Timestamps are taken to be within the years 1 to 9999 of \<open>datetime\<close>; for a timestamp
  outside them \<open>datetime.fromtimestamp\<close> raises, which the model leaves out.
\<close>

definition hash_posted :: "txn_in \<Rightarrow> time option" where
  "hash_posted txn = (case i_posted txn of None \<Rightarrow> None | Some p \<Rightarrow> if p = 0 then None else Some p)"

definition record_hash :: "pylib \<Rightarrow> string \<Rightarrow> txn_in \<Rightarrow> string" where
  "record_hash lib account_id txn =
     compute_transaction_hash lib account_id (hash_posted txn) (i_amount txn) (i_description txn)"

definition existing_by_hash :: "db \<Rightarrow> string \<Rightarrow> string \<Rightarrow> transaction_row option" where
  "existing_by_hash d account_id h =
     find (\<lambda>t. t_account_id t = account_id \<and> t_content_hash t = Some h) (transactions d)"

text \<open>
  The category suggested for the payee of a new transaction:
  \<open>_suggest_category_for_loan_transaction(db, description, str(account_type))\<close> on a loan
  account, none on any other.
\<close>

definition loop_suggestion :: "db \<Rightarrow> account_type option \<Rightarrow> txn_in \<Rightarrow> nat option" where
  "loop_suggestion d aty r =
     (if aty = Some loan
      then suggest_category_for_loan_transaction d
             (case i_description r of Some x \<Rightarrow> x | None \<Rightarrow> [])
             (account_type_str aty)
      else None)"

fun process_transactions_loop ::
  "pylib \<Rightarrow> (string \<Rightarrow> string \<Rightarrow> string) \<Rightarrow> string \<Rightarrow> account_type option \<Rightarrow>
   txn_in list \<Rightarrow> nat \<Rightarrow> db \<Rightarrow> nat outcome" where
  "process_transactions_loop lib normalize_payee account_id account_type [] cnt d = (Inr cnt, d)"
| "process_transactions_loop lib normalize_payee account_id account_type (txn # rest) cnt d =
     (if get_transaction d (i_id txn) \<noteq> None
      then process_transactions_loop lib normalize_payee account_id account_type rest cnt d
      else
        (let txn_hash = record_hash lib account_id txn
         in if existing_by_hash d account_id txn_hash \<noteq> None
            then process_transactions_loop lib normalize_payee account_id account_type rest cnt d
            else
              (let suggested_category_id = loop_suggestion d account_type txn
               in case create_transaction normalize_payee d
                         (txn\<lparr>i_account_id := account_id, i_content_hash := Some txn_hash\<rparr>)
                         suggested_category_id of
                    (Inl e, d') \<Rightarrow> (Inl e, d')
                  | (Inr created, d') \<Rightarrow>
                      process_transactions_loop lib normalize_payee account_id account_type rest (Suc cnt) d')))"

definition process_transactions ::
  "pylib \<Rightarrow> (string \<Rightarrow> string \<Rightarrow> string) \<Rightarrow> db \<Rightarrow> txn_in list \<Rightarrow> string \<Rightarrow> nat outcome" where
  "process_transactions lib normalize_payee d txns account_id =
     (let account = get_account d account_id;
          account_type = (case account of Some a \<Rightarrow> a_account_type a | None \<Rightarrow> None)
      in process_transactions_loop lib normalize_payee account_id account_type txns 0 d)"


section \<open>AccountMerger: \<open>merge_accounts\<close> (app/crud/account.py)\<close>

record merge_stats =
  transactions_reassigned :: nat
  transactions_removed :: nat
  transactions_matched :: nat
  holdings_reassigned :: nat
  source_account_deleted :: bool

text \<open>
  The natural key \<open>(txn.posted, float(txn.amount), txn.description or "")\<close>. \<open>float\<close> is
  one-to-one on the stored amounts (at most 12 digits), so the key holds the amount.
\<close>

definition txn_key :: "transaction_row \<Rightarrow> time \<times> rat \<times> string" where
  "txn_key t = (t_posted t, t_amount t, (case t_description t of Some x \<Rightarrow> x | None \<Rightarrow> []))"

text \<open>\<open>target_txn_map[key] = txn\<close> for every target transaction, in order: the last one wins.\<close>

definition build_txn_map ::
  "transaction_row list \<Rightarrow> (time \<times> rat \<times> string) \<rightharpoonup> transaction_row" where
  "build_txn_map txns = foldl (\<lambda>m t. m(txn_key t \<mapsto> t)) Map.empty txns"

text \<open>
  The session is made with \<open>autoflush=False\<close> (app/db.py): what the loop adds, deletes and
  assigns is written at the commit. Only the bulk delete of a target's splits is
  executed where it stands. The state of the loop is the database as the bulk deletes
  left it, the pending writes and the counters.
\<close>

record merge_session =
  se_db :: db
  se_new_splits :: "(string \<times> nat \<times> rat) list"
  se_payee :: "(string \<times> nat) list"
  se_deleted :: "string list"
  se_moved :: "string list"
  se_stats :: merge_stats

text \<open>\<open>if source_txn.payee_id:\<close> holds for an id that is set and is not 0.\<close>

definition copy_categorization :: "transaction_row \<Rightarrow> transaction_row \<Rightarrow> merge_session \<Rightarrow> merge_session" where
  "copy_categorization source_txn target_txn se =
     (let d = se_db se;
          d1 = d\<lparr>splits := filter (\<lambda>s. s_transaction_id s \<noteq> t_id target_txn) (splits d)\<rparr>;
          copies = map (\<lambda>s. (t_id target_txn, s_category_id s, s_amount s))
                     (filter (\<lambda>s. s_transaction_id s = t_id source_txn) (splits d1));
          st = se_stats se
      in se\<lparr>se_db := d1,
            se_new_splits := se_new_splits se @ copies,
            se_payee := (if truthy_id (t_payee_id source_txn)
                         then se_payee se @ [(t_id target_txn, the (t_payee_id source_txn))]
                         else se_payee se),
            se_stats := st\<lparr>transactions_matched := Suc (transactions_matched st)\<rparr>\<rparr>)"

definition merge_step ::
  "bool \<Rightarrow> time \<Rightarrow> ((time \<times> rat \<times> string) \<rightharpoonup> transaction_row) \<Rightarrow>
   merge_session \<Rightarrow> transaction_row \<Rightarrow> merge_session" where
  "merge_step preserve_categorization cutoff_date target_txn_map se source_txn =
     (if t_posted source_txn \<ge> cutoff_date
      then
        (let se1 = (case target_txn_map (txn_key source_txn) of
                      Some target_txn \<Rightarrow>
                        if preserve_categorization
                        then copy_categorization source_txn target_txn se
                        else se
                    | None \<Rightarrow> se);
             st = se_stats se1
         in se1\<lparr>se_deleted := se_deleted se1 @ [t_id source_txn],
                se_stats := st\<lparr>transactions_removed := Suc (transactions_removed st)\<rparr>\<rparr>)
      else
        (let st = se_stats se
         in se\<lparr>se_moved := se_moved se @ [t_id source_txn],
               se_stats := st\<lparr>transactions_reassigned := Suc (transactions_reassigned st)\<rparr>\<rparr>))"

text \<open>The rows a delete removes, with the rows that cascade.\<close>

definition delete_transactions :: "string list \<Rightarrow> db \<Rightarrow> db" where
  "delete_transactions ids d =
     d\<lparr>transactions := filter (\<lambda>t. t_id t \<notin> set ids) (transactions d),
       splits := filter (\<lambda>s. s_transaction_id s \<notin> set ids) (splits d)\<rparr>"

definition delete_account :: "string \<Rightarrow> db \<Rightarrow> db" where
  "delete_account aid d =
     (let gone = map t_id (filter (\<lambda>t. t_account_id t = aid) (transactions d))
      in d\<lparr>accounts := filter (\<lambda>a. a_id a \<noteq> aid) (accounts d),
           balances := filter (\<lambda>b. b_account_id b \<noteq> aid) (balances d),
           holdings := filter (\<lambda>h. h_account_id h \<noteq> aid) (holdings d),
           transactions := filter (\<lambda>t. t_account_id t \<noteq> aid) (transactions d),
           splits := filter (\<lambda>s. s_transaction_id s \<notin> set gone) (splits d)\<rparr>)"

fun number_new_splits :: "nat \<Rightarrow> (string \<times> nat \<times> rat) list \<Rightarrow> split_row list" where
  "number_new_splits n [] = []"
| "number_new_splits n ((tid, cid, amt) # xs) =
     \<lparr>s_id = n, s_transaction_id = tid, s_category_id = cid, s_amount = amt\<rparr>
       # number_new_splits (Suc n) xs"

definition set_payee :: "transaction_row list \<Rightarrow> string \<times> nat \<Rightarrow> transaction_row list" where
  "set_payee txns u =
     map (\<lambda>t. if t_id t = fst u then t\<lparr>t_payee_id := Some (snd u)\<rparr> else t) txns"

text \<open>
  The commit: the pending inserts and updates, then the deletes of the source
  transactions, the holdings' new account and the delete of the source account.
\<close>

definition merge_commit :: "string \<Rightarrow> string \<Rightarrow> merge_session \<Rightarrow> db" where
  "merge_commit source_account_id target_account_id se =
     (let d = se_db se;
          rows = number_new_splits (next_split_id d) (se_new_splits se);
          moved = map (\<lambda>t. if t_id t \<in> set (se_moved se)
                            then t\<lparr>t_account_id := target_account_id\<rparr> else t)
                    (transactions d);
          d1 = d\<lparr>transactions := foldl set_payee moved (se_payee se),
                 splits := splits d @ rows,
                 next_split_id := next_split_id d + length rows\<rparr>;
          d2 = delete_transactions (se_deleted se) d1;
          d3 = d2\<lparr>holdings := map (\<lambda>h. if h_account_id h = source_account_id
                                        then h\<lparr>h_account_id := target_account_id\<rparr> else h)
                               (holdings d2)\<rparr>
      in delete_account source_account_id d3)"

definition merge_accounts ::
  "time \<Rightarrow> db \<Rightarrow> string \<Rightarrow> string \<Rightarrow> bool \<Rightarrow> int \<Rightarrow> merge_stats outcome" where
  "merge_accounts now d source_account_id target_account_id preserve_categorization
       simplefin_lookback_months =
     (case (get_account d source_account_id, get_account d target_account_id) of
        (Some source_account, Some target_account) \<Rightarrow>
          if a_org_id source_account \<noteq> a_org_id target_account
             \<or> a_name source_account \<noteq> a_name target_account
          then (Inl (ValueError ''Can only merge accounts with matching org_id and name''), d)
          else
            (let stats = \<lparr>transactions_reassigned = 0, transactions_removed = 0,
                          transactions_matched = 0, holdings_reassigned = 0,
                          source_account_deleted = False\<rparr>;
                 cutoff_date = now - timedelta_days (simplefin_lookback_months * 30);
                 source_transactions =
                   filter (\<lambda>t. t_account_id t = source_account_id) (transactions d);
                 target_transactions =
                   filter (\<lambda>t. t_account_id t = target_account_id) (transactions d);
                 target_txn_map = build_txn_map target_transactions;
                 se = foldl (merge_step preserve_categorization cutoff_date target_txn_map)
                        \<lparr>se_db = d, se_new_splits = [], se_payee = [], se_deleted = [],
                         se_moved = [], se_stats = stats\<rparr>
                        source_transactions;
                 n_holdings =
                   length (filter (\<lambda>h. h_account_id h = source_account_id) (holdings d));
                 st = se_stats se
             in (Inr (st\<lparr>holdings_reassigned := n_holdings, source_account_deleted := True\<rparr>),
                 merge_commit source_account_id target_account_id se))
      | _ \<Rightarrow> (Inl (ValueError ''Source or target account not found''), d))"


text \<open>The session after the loop over the source transactions, as \<open>merge_accounts\<close> runs it.\<close>

definition merge_loop_result ::
  "time \<Rightarrow> db \<Rightarrow> string \<Rightarrow> string \<Rightarrow> bool \<Rightarrow> int \<Rightarrow> merge_session" where
  "merge_loop_result now d src tgt pc lb =
     foldl (merge_step pc (now - timedelta_days (lb * 30))
              (build_txn_map (filter (\<lambda>t. t_account_id t = tgt) (transactions d))))
       \<lparr>se_db = d, se_new_splits = [], se_payee = [], se_deleted = [], se_moved = [],
        se_stats = \<lparr>transactions_reassigned = 0, transactions_removed = 0,
                    transactions_matched = 0, holdings_reassigned = 0,
                    source_account_deleted = False\<rparr>\<rparr>
       (filter (\<lambda>t. t_account_id t = src) (transactions d))"

section \<open>The merge route (app/api/routes/account.py)\<close>

text \<open>
  \<open>POST /accounts/merge\<close> calls \<open>merge_accounts\<close> with the default lookback of 12 months.
  The model keeps the HTTP status of the answer: 200 when the call returns, 400 for a
  \<open>ValueError\<close> (\<open>except ValueError\<close>), 500 for any other exception.
\<close>

definition merge_accounts_route :: "time \<Rightarrow> db \<Rightarrow> string \<Rightarrow> string \<Rightarrow> bool \<Rightarrow> nat \<times> db" where
  "merge_accounts_route now d source_account_id target_account_id preserve_categorization =
     (case merge_accounts now d source_account_id target_account_id preserve_categorization 12 of
        (Inr stats, d') \<Rightarrow> (200, d')
      | (Inl (ValueError e), d') \<Rightarrow> (400, d')
      | (Inl e, d') \<Rightarrow> (500, d'))"

section \<open>DuplicateAccountDetector: \<open>find_duplicate_accounts\<close> (app/crud/account.py)\<close>

text \<open>
  The sample size and the minimum ratio are the arguments, or the environment's defaults
  (5 and 0.8). The minimum ratio is a float, given here by the rational it stands for:
  the default 0.8 is \<open>round_finite (4 / 5)\<close>. The ratio \<open>matches / len(older_transactions)\<close>
  is the float nearest to the quotient of the two integers.

  Two orders are left to the database: the order of rows posted at the same time under
  \<open>ORDER BY posted DESC\<close>, and the order of the groups of \<open>GROUP BY\<close>. Both are parameters
  of the model. \<open>row_order\<close> arranges the rows of an account before they are sorted by
  \<open>posted\<close> (the sort is stable, so it decides among equal times), and \<open>group_order\<close>
  arranges the keys of the groups.
\<close>

record engine =
  row_order :: "transaction_row list \<Rightarrow> transaction_row list"
  group_order :: "(string option \<times> string) list \<Rightarrow> (string option \<times> string) list"

record duplicate_group =
  g_org_id :: "string option"
  g_name :: string
  g_accounts :: "account_row list"

text \<open>\<open>GROUP BY org_id, name HAVING count(id) > 1\<close>: the keys that more than one account has.\<close>

definition account_key :: "account_row \<Rightarrow> string option \<times> string" where
  "account_key a = (a_org_id a, a_name a)"

definition duplicate_keys :: "engine \<Rightarrow> db \<Rightarrow> (string option \<times> string) list" where
  "duplicate_keys e d =
     group_order e
       (filter (\<lambda>k. length (filter (\<lambda>a. account_key a = k) (accounts d)) > 1)
          (remdups (map account_key (accounts d))))"

text \<open>
  \<open>ORDER BY created_at ASC NULLS LAST, id\<close>, and the key of the final \<open>sorted\<close>
  (\<open>created_at\<close>, or the largest datetime when it is unset, then \<open>id\<close>).
\<close>

definition account_order :: "account_row \<Rightarrow> (nat \<times> int) \<times> string" where
  "account_order a =
     ((case a_created_at a of None \<Rightarrow> (1, 0) | Some t \<Rightarrow> (0, t)), a_id a)"

definition group_accounts :: "db \<Rightarrow> string option \<Rightarrow> string \<Rightarrow> account_row list" where
  "group_accounts d org_id name =
     sort_key account_order (filter (\<lambda>a. a_org_id a = org_id \<and> a_name a = name) (accounts d))"

text \<open>\<open>ORDER BY posted DESC LIMIT n\<close> over the account's transactions.\<close>

definition account_transactions :: "db \<Rightarrow> string \<Rightarrow> transaction_row list" where
  "account_transactions d aid = filter (\<lambda>t. t_account_id t = aid) (transactions d)"

definition recent_transactions :: "engine \<Rightarrow> db \<Rightarrow> string \<Rightarrow> nat \<Rightarrow> transaction_row list" where
  "recent_transactions e d aid n =
     take n (sort_key (\<lambda>t. - t_posted t) (row_order e (account_transactions d aid)))"

text \<open>The number of sampled transactions whose key is a key of \<open>newer_txn_map\<close>.\<close>

definition count_matches :: "transaction_row list \<Rightarrow> transaction_row list \<Rightarrow> nat" where
  "count_matches older_transactions newer_transactions =
     length (filter (\<lambda>old_txn. txn_key old_txn \<in> set (map txn_key newer_transactions))
               older_transactions)"

text \<open>The test of a group of two accounts.\<close>

definition pair_matches ::
  "engine \<Rightarrow> db \<Rightarrow> nat \<Rightarrow> rat \<Rightarrow> account_row \<Rightarrow> account_row \<Rightarrow> bool" where
  "pair_matches e d sample_size min_match_ratio older_account newer_account =
     (let older_transactions = recent_transactions e d (a_id older_account) sample_size
      in if older_transactions = [] then False
         else
           (let newer_transactions = account_transactions d (a_id newer_account);
                matches = count_matches older_transactions newer_transactions;
                match_ratio = round_finite (of_nat matches / of_nat (length older_transactions))
            in match_ratio \<ge> min_match_ratio))"

text \<open>
  The test of a pair in a group of three or more: also skipped when the newer account has
  no transactions.
\<close>

definition pair_matches_in_group ::
  "engine \<Rightarrow> db \<Rightarrow> nat \<Rightarrow> rat \<Rightarrow> account_row \<Rightarrow> account_row \<Rightarrow> bool" where
  "pair_matches_in_group e d sample_size min_match_ratio older newer =
     (let older_txns = recent_transactions e d (a_id older) sample_size
      in if older_txns = [] then False
         else
           (let newer_txns = account_transactions d (a_id newer)
            in if newer_txns = [] then False
               else
                 (let matches = count_matches older_txns newer_txns;
                      match_ratio = round_finite (of_nat matches / of_nat (length older_txns))
                  in match_ratio \<ge> min_match_ratio)))"

text \<open>
  \<open>for i in range(len(accounts)): for j in range(i + 1, len(accounts))\<close>, and the pairs
  that pass, in this order.
\<close>

fun all_pairs :: "'a list \<Rightarrow> ('a \<times> 'a) list" where
  "all_pairs [] = []"
| "all_pairs (x # xs) = map (Pair x) xs @ all_pairs xs"

definition duplicate_pairs ::
  "engine \<Rightarrow> db \<Rightarrow> nat \<Rightarrow> rat \<Rightarrow> account_row list \<Rightarrow> (account_row \<times> account_row) list" where
  "duplicate_pairs e d sample_size min_match_ratio accts =
     filter (\<lambda>p. pair_matches_in_group e d sample_size min_match_ratio (fst p) (snd p))
       (all_pairs accts)"

text \<open>
  The sets of accounts are lists without repetition. A pair joins the first set that
  holds one of its accounts, or starts a set of its own.
\<close>

fun add_pair :: "'a list list \<Rightarrow> 'a \<times> 'a \<Rightarrow> 'a list list" where
  "add_pair [] (older, newer) = [List.insert newer [older]]"
| "add_pair (acc_set # rest) (older, newer) =
     (if older \<in> set acc_set \<or> newer \<in> set acc_set
      then List.insert newer (List.insert older acc_set) # rest
      else acc_set # add_pair rest (older, newer))"

text \<open>
  The merge of overlapping sets. The inner loop runs over the sets after set \<open>i\<close>: a set
  that overlaps set \<open>i\<close> is united into it and removed, the others stay. It is one pass:
  a set that was passed over is not looked at again when set \<open>i\<close> has grown.
\<close>

definition overlaps :: "'a list \<Rightarrow> 'a list \<Rightarrow> bool" where
  "overlaps s t = (filter (\<lambda>x. x \<in> set t) s \<noteq> [])"

fun absorb :: "'a list \<Rightarrow> 'a list list \<Rightarrow> 'a list \<times> 'a list list" where
  "absorb s [] = (s, [])"
| "absorb s (t # ts) =
     (if overlaps s t then absorb (List.union s t) ts
      else (case absorb s ts of (s', ts') \<Rightarrow> (s', t # ts')))"

lemma absorb_length [termination_simp]: "length (snd (absorb s ts)) \<le> length ts"
proof (induction ts arbitrary: s)
  case Nil
  show ?case by simp
next
  case (Cons t ts)
  show ?case
    using Cons [of s] Cons [of "List.union s t"] by (auto split: prod.splits)
qed

function merge_sets :: "'a list list \<Rightarrow> 'a list list" where
  "merge_sets [] = []"
| "merge_sets (s # rest) = fst (absorb s rest) # merge_sets (snd (absorb s rest))"
  by pat_completeness auto
termination
  by (relation "measure length") (auto simp: absorb_length le_imp_less_Suc)

definition group_result ::
  "engine \<Rightarrow> db \<Rightarrow> nat \<Rightarrow> rat \<Rightarrow> string option \<times> string \<Rightarrow> duplicate_group list" where
  "group_result e d sample_size min_match_ratio k =
     (let org_id = fst k; name = snd k;
          accts = group_accounts d org_id name
      in if length accts = 2
         then
           (let older_account = accts ! 0; newer_account = accts ! 1
            in if pair_matches e d sample_size min_match_ratio older_account newer_account
               then [\<lparr>g_org_id = org_id, g_name = name, g_accounts = accts\<rparr>]
               else [])
         else
           (let pairs = duplicate_pairs e d sample_size min_match_ratio accts
            in if pairs = [] then []
               else map (\<lambda>acc_set. \<lparr>g_org_id = org_id, g_name = name,
                                      g_accounts = sort_key account_order acc_set\<rparr>)
                      (merge_sets (foldl add_pair [] pairs))))"

definition find_duplicate_accounts ::
  "engine \<Rightarrow> db \<Rightarrow> nat \<Rightarrow> rat \<Rightarrow> duplicate_group list" where
  "find_duplicate_accounts e d transaction_sample_size min_match_ratio =
     concat (map (group_result e d transaction_sample_size min_match_ratio) (duplicate_keys e d))"

text \<open>
  What the theorems ask of an engine: it returns the rows, or the keys, it was given, in
  some order. And a list of accounts is joined by a relation when the relation holds
  between any two of its accounts.
\<close>

definition rearranges :: "('a list \<Rightarrow> 'a list) \<Rightarrow> bool" where
  "rearranges f = (\<forall>xs. mset (f xs) = mset xs)"

definition joined :: "('a \<times> 'a) set \<Rightarrow> 'a list \<Rightarrow> bool" where
  "joined E s = (\<forall>x \<in> set s. \<forall>y \<in> set s. (x, y) \<in> E)"

section \<open>Accounts (app/crud/account.py, app/schemas.py)\<close>

text \<open>
  \<open>AccountCreate(**acct)\<close> and \<open>AccountUpdate(**acct)\<close> read the entries of the record that
  are fields of the schema and ignore the others. A field of the wrong type fails the
  validation; pydantic's coercion of other values to \<open>bool\<close> is not modelled. In an
  \<open>AccountUpdate\<close> each field is unset (\<open>None\<close>) or set to a value, which may itself be
  \<open>None\<close>; \<open>dict(exclude_unset=True)\<close> holds the fields that are set.
\<close>

record account_create =
  ac_id :: string
  ac_name :: string
  ac_alt_name :: "string option"
  ac_currency :: string
  ac_org_id :: string
  ac_account_type :: "account_type option"
  ac_is_hidden :: "bool option"

record account_update =
  au_name :: "string option option"
  au_alt_name :: "string option option"
  au_currency :: "string option option"
  au_org_id :: "string option option"
  au_account_type :: "account_type option option"
  au_is_hidden :: "bool option option"

fun str_field :: "jval option \<Rightarrow> string option" where
  "str_field (Some (JStr s)) = Some s"
| "str_field _ = None"

text \<open>An optional field: unset, or set to a valid value; \<open>None\<close> of the result is a validation error.\<close>

fun opt_str_field :: "jval option \<Rightarrow> string option option option" where
  "opt_str_field None = Some None"
| "opt_str_field (Some JNull) = Some (Some None)"
| "opt_str_field (Some (JStr s)) = Some (Some (Some s))"
| "opt_str_field (Some _) = None"

definition account_type_of_str :: "string \<Rightarrow> account_type option" where
  "account_type_of_str s =
     (if s = ''bank'' then Some bank
      else if s = ''credit_card'' then Some credit_card
      else if s = ''investment'' then Some investment
      else if s = ''loan'' then Some loan
      else None)"

fun opt_type_field :: "jval option \<Rightarrow> account_type option option option" where
  "opt_type_field None = Some None"
| "opt_type_field (Some JNull) = Some (Some None)"
| "opt_type_field (Some (JStr s)) =
     (case account_type_of_str s of Some t \<Rightarrow> Some (Some (Some t)) | None \<Rightarrow> None)"
| "opt_type_field (Some _) = None"

fun opt_bool_field :: "jval option \<Rightarrow> bool option option option" where
  "opt_bool_field None = Some None"
| "opt_bool_field (Some JNull) = Some (Some None)"
| "opt_bool_field (Some (JBool b)) = Some (Some (Some b))"
| "opt_bool_field (Some _) = None"

definition validate_account_create :: "pydict \<Rightarrow> py_error + account_create" where
  "validate_account_create acct =
     (case (str_field (acct ''id''), str_field (acct ''name''), opt_str_field (acct ''alt_name''),
            str_field (acct ''currency''), str_field (acct ''org_id''),
            opt_type_field (acct ''account_type''), opt_bool_field (acct ''is_hidden'')) of
        (Some i, Some n, Some alt, Some cur, Some org, Some ty, Some hid) \<Rightarrow>
          Inr \<lparr>ac_id = i, ac_name = n,
               ac_alt_name = (case alt of None \<Rightarrow> None | Some v \<Rightarrow> v),
               ac_currency = cur, ac_org_id = org,
               ac_account_type = (case ty of None \<Rightarrow> None | Some v \<Rightarrow> v),
               ac_is_hidden = (case hid of None \<Rightarrow> Some False | Some v \<Rightarrow> v)\<rparr>
      | _ \<Rightarrow> Inl (ValidationError ''AccountCreate''))"

definition validate_account_update :: "pydict \<Rightarrow> py_error + account_update" where
  "validate_account_update acct =
     (case (opt_str_field (acct ''name''), opt_str_field (acct ''alt_name''),
            opt_str_field (acct ''currency''), opt_str_field (acct ''org_id''),
            opt_type_field (acct ''account_type''), opt_bool_field (acct ''is_hidden'')) of
        (Some n, Some alt, Some cur, Some org, Some ty, Some hid) \<Rightarrow>
          Inr \<lparr>au_name = n, au_alt_name = alt, au_currency = cur, au_org_id = org,
               au_account_type = ty, au_is_hidden = hid\<rparr>
      | _ \<Rightarrow> Inl (ValidationError ''AccountUpdate''))"

text \<open>
  \<open>get_accounts(db, account_id=..., is_hidden=True)\<close>: no filter on hidden accounts, the
  filter on the id only for a non-empty id, ordered by name.
\<close>

definition get_accounts :: "db \<Rightarrow> string \<Rightarrow> account_row list" where
  "get_accounts d account_id =
     sort_key a_name
       (if account_id \<noteq> [] then filter (\<lambda>a. a_id a = account_id) (accounts d) else accounts d)"

text \<open>\<open>create_account\<close>: the row of the schema's fields, with \<open>created_at\<close> the current time.\<close>

definition create_account :: "time \<Rightarrow> db \<Rightarrow> account_create \<Rightarrow> account_row outcome" where
  "create_account now d data =
     (if get_account d (ac_id data) \<noteq> None then (Inl (IntegrityError ''accounts.id''), d)
      else
        (let account = \<lparr>a_id = ac_id data, a_name = ac_name data, a_alt_name = ac_alt_name data,
                        a_currency = ac_currency data, a_org_id = Some (ac_org_id data),
                        a_is_hidden = ac_is_hidden data,
                        a_account_type = ac_account_type data, a_created_at = Some now\<rparr>
         in (Inr account, d\<lparr>accounts := accounts d @ [account]\<rparr>)))"

text \<open>
  \<open>_recategorize_payees_for_loan_account\<close>: every payee of the account's transactions that
  is still uncategorized gets the category suggested for the first of its transactions,
  if there is one. The state of the loop is the payees and the ids already processed.
\<close>

definition set_payee_category :: "nat \<Rightarrow> nat \<Rightarrow> payee_row list \<Rightarrow> payee_row list" where
  "set_payee_category pid cid ps =
     map (\<lambda>p. if p_id p = pid then p\<lparr>p_category_id := cid\<rparr> else p) ps"

definition recategorize_step ::
  "db \<Rightarrow> account_row \<Rightarrow> payee_row list \<times> nat list \<Rightarrow> transaction_row \<Rightarrow> payee_row list \<times> nat list" where
  "recategorize_step d account st txn =
     (let (ps, processed_payee_ids) = st
      in if \<not> truthy_id (t_payee_id txn) \<or> the (t_payee_id txn) \<in> set processed_payee_ids
         then st
         else
           (let pid = the (t_payee_id txn)
            in case find (\<lambda>p. p_id p = pid) ps of
                 None \<Rightarrow> (ps, pid # processed_payee_ids)
               | Some payee \<Rightarrow>
                   if p_category_id payee \<noteq> 0 then (ps, pid # processed_payee_ids)
                   else
                     (let suggested =
                            suggest_category_for_loan_transaction d
                              (case t_description txn of Some x \<Rightarrow> x | None \<Rightarrow> [])
                              (account_type_str (a_account_type account))
                      in if truthy_id suggested
                         then (set_payee_category pid (the suggested) ps, pid # processed_payee_ids)
                         else (ps, pid # processed_payee_ids))))"

definition recategorize_payees_for_loan_account :: "db \<Rightarrow> account_row \<Rightarrow> db" where
  "recategorize_payees_for_loan_account d account =
     (let txns = filter (\<lambda>t. t_account_id t = a_id account) (transactions d)
      in d\<lparr>payees := fst (foldl (recategorize_step d account) (payees d, []) txns)\<rparr>)"

text \<open>
  \<open>update_account\<close>: the fields that are set are assigned to the account with the id, in
  the order of the schema. \<open>name\<close> and \<open>currency\<close> are not nullable: the commit fails when
  one is set to \<open>None\<close>. \<open>value in ["loan", "mortgage"]\<close> holds for \<open>AccountType.loan\<close> only.
\<close>

definition apply_account_update :: "account_update \<Rightarrow> account_row \<Rightarrow> account_row" where
  "apply_account_update data a =
     (let a1 = (case au_name data of Some (Some v) \<Rightarrow> a\<lparr>a_name := v\<rparr> | _ \<Rightarrow> a);
          a2 = (case au_alt_name data of Some v \<Rightarrow> a1\<lparr>a_alt_name := v\<rparr> | None \<Rightarrow> a1);
          a3 = (case au_currency data of Some (Some v) \<Rightarrow> a2\<lparr>a_currency := v\<rparr> | _ \<Rightarrow> a2);
          a4 = (case au_org_id data of Some v \<Rightarrow> a3\<lparr>a_org_id := v\<rparr> | None \<Rightarrow> a3);
          a5 = (case au_account_type data of Some v \<Rightarrow> a4\<lparr>a_account_type := v\<rparr> | None \<Rightarrow> a4)
      in (case au_is_hidden data of Some v \<Rightarrow> a5\<lparr>a_is_hidden := v\<rparr> | None \<Rightarrow> a5))"

definition update_account :: "db \<Rightarrow> string \<Rightarrow> account_update \<Rightarrow> account_row option outcome" where
  "update_account d aid data =
     (case get_account d aid of
        None \<Rightarrow> (Inr None, d)
      | Some account \<Rightarrow>
          if au_name data = Some None then (Inl (IntegrityError ''accounts.name''), d)
          else if au_currency data = Some None then (Inl (IntegrityError ''accounts.currency''), d)
          else
            (let old_account_type = a_account_type account;
                 account_type_changed_to_loan =
                   (au_account_type data = Some (Some loan) \<and> old_account_type \<noteq> Some loan);
                 updated = apply_account_update data account;
                 d1 = d\<lparr>accounts := map (\<lambda>a. if a_id a = aid then apply_account_update data a else a)
                                        (accounts d)\<rparr>;
                 d2 = (if account_type_changed_to_loan
                       then recategorize_payees_for_loan_account d1 updated else d1)
             in (Inr (Some updated), d2)))"

section \<open>IngestionWriter: \<open>process_accounts\<close> (app/sync/simplefin.py)\<close>

text \<open>
  One remote account record. The classifier's result is assigned to \<open>data.account_type\<close>;
  the update is then built from the record (\<open>AccountUpdate(**acct)\<close>), and for a new
  account \<open>data\<close> is built again from the record (\<open>data = AccountCreate(**acct)\<close>), so
  \<open>classified\<close>, the schema object that holds the classification, is used by neither.
\<close>

definition process_account :: "time \<Rightarrow> db \<Rightarrow> pydict \<Rightarrow> string \<Rightarrow> unit outcome" where
  "process_account now d acct0 org_id =
     (let acct = acct0(''org_id'' \<mapsto> JStr org_id)
      in case acct ''id'' of
           None \<Rightarrow> (Inl (KeyError ''id''), d)
         | Some account_id_value \<Rightarrow>
             (case validate_account_create acct of
                Inl e \<Rightarrow> (Inl e, d)
              | Inr data \<Rightarrow>
                  (let account_id = ac_id data;
                       existing = get_accounts d account_id;
                       classification =
                         (if existing = [] \<or> a_account_type (hd existing) = None
                          then classify_account acct else Inr None)
                   in case classification of
                        Inl e \<Rightarrow> (Inl e, d)
                      | Inr acct_type \<Rightarrow>
                          (let classified =
                                 (case acct_type of
                                    Some t \<Rightarrow> data\<lparr>ac_account_type := Some t\<rparr>
                                  | None \<Rightarrow> data)
                           in if existing \<noteq> []
                              then
                                (case validate_account_update acct of
                                   Inl e \<Rightarrow> (Inl e, d)
                                 | Inr upd \<Rightarrow>
                                     (case update_account d account_id upd of
                                        (Inl e, d') \<Rightarrow> (Inl e, d')
                                      | (Inr updated, d') \<Rightarrow> (Inr (), d')))
                              else
                                (case validate_account_create (acct(''created_at'' \<mapsto> JNum (of_int now))) of
                                   Inl e \<Rightarrow> (Inl e, d)
                                 | Inr data2 \<Rightarrow>
                                     (case create_account now d data2 of
                                        (Inl e, d') \<Rightarrow> (Inl e, d')
                                      | (Inr created, d') \<Rightarrow> (Inr (), d')))))))"

fun process_accounts :: "time \<Rightarrow> db \<Rightarrow> pydict list \<Rightarrow> string \<Rightarrow> unit outcome" where
  "process_accounts now d [] org_id = (Inr (), d)"
| "process_accounts now d (acct # rest) org_id =
     (case process_account now d acct org_id of
        (Inl e, d') \<Rightarrow> (Inl e, d')
      | (Inr u, d') \<Rightarrow> process_accounts now d' rest org_id)"


section \<open>SyncOrchestrator: \<open>process_initial_sync\<close> (app/sync/simplefin.py)\<close>

text \<open>
  The walk-back moves by calendar months. Its \<open>end\<close> is always the first day of a month
  (\<open>datetime.now(UTC).replace(day=1)\<close> at the start, then the previous \<open>start\<close>), and
  \<open>(end - timedelta(days=1)).replace(day=1)\<close> is the first day of the month before: a month is
  its number, and \<open>start = end - 1\<close>.

  \<open>process_sync_range\<close> fetches one range from the remote and writes what it finds; it
  returns the number of transactions processed or raises. It is the parameter
  \<open>sync_range\<close>: a function of the range and of the state of the world (the remote and the
  database) that gives the result and the new state. \<open>INITIAL_SYNC_MAX_MONTHS\<close> is the
  parameter \<open>max_months\<close>; \<open>if INITIAL_SYNC_MAX_MONTHS and months_synced >= ...\<close> holds for a
  maximum that is set and is not 0. The loop may not terminate, so it is a partial
  function: \<open>None\<close> stands for a walk that never ends. The model returns the number of
  months synced, which the code logs.
\<close>

type_synonym month = int

definition max_reached :: "int option \<Rightarrow> nat \<Rightarrow> bool" where
  "max_reached max_months months_synced =
     (case max_months of None \<Rightarrow> False | Some m \<Rightarrow> m \<noteq> 0 \<and> int months_synced \<ge> m)"

partial_function (option) initial_sync_loop ::
  "(month \<Rightarrow> month \<Rightarrow> 's \<Rightarrow> (py_error + nat) \<times> 's) \<Rightarrow> int option \<Rightarrow>
   month \<Rightarrow> nat \<Rightarrow> nat \<Rightarrow> 's \<Rightarrow> ((py_error + nat) \<times> 's) option" where
  "initial_sync_loop sync_range max_months end_month empty_months months_synced s =
     (if empty_months < 2
      then
        (if max_reached max_months months_synced then Some (Inr months_synced, s)
         else
           (let start = end_month - 1
            in case sync_range start end_month s of
                 (Inl e, s') \<Rightarrow> Some (Inl e, s')
               | (Inr processed, s') \<Rightarrow>
                   initial_sync_loop sync_range max_months start
                     (if processed = 0 then empty_months + 1 else 0) (months_synced + 1) s'))
      else Some (Inr months_synced, s))"

definition process_initial_sync ::
  "(month \<Rightarrow> month \<Rightarrow> 's \<Rightarrow> (py_error + nat) \<times> 's) \<Rightarrow> int option \<Rightarrow> month \<Rightarrow> 's \<Rightarrow>
   ((py_error + nat) \<times> 's) option" where
  "process_initial_sync sync_range max_months now_month s =
     initial_sync_loop sync_range max_months now_month 0 0 s"

text \<open>
  The walk without its stopping rule: the state after \<open>k\<close> monthly steps and the result of
  step \<open>k\<close> (steps count from 0; step \<open>k\<close> fetches the month that ends \<open>k\<close> months before
  the first \<open>end\<close>). \<open>two_empty n\<close>: the two steps before step \<open>n\<close> both processed nothing.
  \<open>stops_at n\<close>: the loop, arrived at step \<open>n\<close>, does not run it. \<open>stopped limit m r\<close>: the
  walk ended at step \<open>m\<close>, at most \<open>limit\<close>, with outcome \<open>r\<close>: no earlier step was a
  stopping point or raised, and either step \<open>m\<close> is a stopping point and \<open>r\<close> is \<open>m\<close> months
  with the state after them, or step \<open>m\<close> raised and \<open>r\<close> is its error.
\<close>

fun state_after ::
  "(month \<Rightarrow> month \<Rightarrow> 's \<Rightarrow> (py_error + nat) \<times> 's) \<Rightarrow> month \<Rightarrow> 's \<Rightarrow> nat \<Rightarrow> 's" where
  "state_after sync_range now_month s 0 = s"
| "state_after sync_range now_month s (Suc k) =
     snd (sync_range (now_month - int k - 1) (now_month - int k)
            (state_after sync_range now_month s k))"

definition step_result ::
  "(month \<Rightarrow> month \<Rightarrow> 's \<Rightarrow> (py_error + nat) \<times> 's) \<Rightarrow> month \<Rightarrow> 's \<Rightarrow> nat \<Rightarrow> py_error + nat" where
  "step_result sync_range now_month s k =
     fst (sync_range (now_month - int k - 1) (now_month - int k)
            (state_after sync_range now_month s k))"

definition two_empty ::
  "(month \<Rightarrow> month \<Rightarrow> 's \<Rightarrow> (py_error + nat) \<times> 's) \<Rightarrow> month \<Rightarrow> 's \<Rightarrow> nat \<Rightarrow> bool" where
  "two_empty sync_range now_month s n =
     (n \<ge> 2 \<and> step_result sync_range now_month s (n - 1) = Inr 0
            \<and> step_result sync_range now_month s (n - 2) = Inr 0)"

definition stops_at ::
  "(month \<Rightarrow> month \<Rightarrow> 's \<Rightarrow> (py_error + nat) \<times> 's) \<Rightarrow> int option \<Rightarrow> month \<Rightarrow> 's \<Rightarrow> nat \<Rightarrow> bool" where
  "stops_at sync_range max_months now_month s n =
     (two_empty sync_range now_month s n \<or> max_reached max_months n)"

definition empties ::
  "(month \<Rightarrow> month \<Rightarrow> 's \<Rightarrow> (py_error + nat) \<times> 's) \<Rightarrow> month \<Rightarrow> 's \<Rightarrow> nat \<Rightarrow> nat" where
  "empties f e s n =
     (if n \<ge> 1 \<and> step_result f e s (n - 1) = Inr 0
      then (if n \<ge> 2 \<and> step_result f e s (n - 2) = Inr 0 then 2 else 1)
      else 0)"

definition stopped ::
  "(month \<Rightarrow> month \<Rightarrow> 's \<Rightarrow> (py_error + nat) \<times> 's) \<Rightarrow> int option \<Rightarrow> month \<Rightarrow> 's \<Rightarrow>
   nat \<Rightarrow> nat \<Rightarrow> (py_error + nat) \<times> 's \<Rightarrow> bool" where
  "stopped f mx e s limit m r =
     (m \<le> limit
      \<and> (\<forall>k<m. \<not> stops_at f mx e s k \<and> (\<exists>c. step_result f e s k = Inr c))
      \<and> (r = (Inr m, state_after f e s m) \<and> stops_at f mx e s m
         \<or> (\<exists>err. step_result f e s m = Inl err \<and> \<not> stops_at f mx e s m
               \<and> r = (Inl err, state_after f e s (Suc m)))))"

section \<open>Stored and delivered transactions\<close>

text \<open>
  What the two lookups of \<open>process_transactions\<close> find, and the conditions under which a
  delivery is known by content: \<open>id_hits_carry_hash\<close> says that every stored transaction
  with the id of a delivered record belongs to the account and carries the record's
  content hash; \<open>same_id_same_hash\<close> says that records of one delivery with the same id
  have the same content hash; \<open>same_content\<close> relates a record and its re-delivery.
\<close>

definition id_stored :: "db \<Rightarrow> string \<Rightarrow> bool" where
  "id_stored d tid = (get_transaction d tid \<noteq> None)"

definition hash_stored :: "db \<Rightarrow> string \<Rightarrow> string \<Rightarrow> bool" where
  "hash_stored d account_id h = (existing_by_hash d account_id h \<noteq> None)"

definition same_content :: "txn_in \<Rightarrow> txn_in \<Rightarrow> bool" where
  "same_content r r' =
     (i_posted r = i_posted r' \<and> i_amount r = i_amount r' \<and> i_description r = i_description r')"

definition id_hits_carry_hash :: "pylib \<Rightarrow> string \<Rightarrow> db \<Rightarrow> txn_in list \<Rightarrow> bool" where
  "id_hits_carry_hash lib account_id d txns =
     (\<forall>r \<in> set txns. \<forall>t \<in> set (transactions d).
        t_id t = i_id r \<longrightarrow>
          t_account_id t = account_id \<and> t_content_hash t = Some (record_hash lib account_id r))"

definition same_id_same_hash :: "pylib \<Rightarrow> string \<Rightarrow> txn_in list \<Rightarrow> bool" where
  "same_id_same_hash lib account_id txns =
     (\<forall>r \<in> set txns. \<forall>r' \<in> set txns.
        i_id r = i_id r' \<longrightarrow> record_hash lib account_id r = record_hash lib account_id r')"

section \<open>Example states\<close>

text \<open>
  Concrete databases for the witnesses and counterexamples below. In \<open>merge_db\<close> the
  accounts \<open>acc-old\<close> and \<open>acc-new\<close> share organisation and name; \<open>t-old\<close> is older than a
  cutoff of 360 days before 1710000000 and \<open>t-recent\<close> is not, and \<open>t-recent\<close> and \<open>t-new\<close>
  have the same natural key.
\<close>

definition example_db :: db where
  "example_db =
     \<lparr>accounts = [\<lparr>a_id = ''acc-1'', a_name = ''Checking'', a_alt_name = None,
                   a_currency = ''USD'', a_org_id = Some ''org-1'', a_is_hidden = Some False,
                   a_account_type = Some bank, a_created_at = Some 1700000000\<rparr>],
      transactions = [], splits = [], holdings = [], balances = [], payees = [],
      categories = [\<lparr>c_id = 0, c_name = ''Uncategorized''\<rparr>, \<lparr>c_id = 5, c_name = ''Groceries''\<rparr>],
      next_split_id = 1, next_payee_id = 1\<rparr>"

definition acc_old :: account_row where
  "acc_old = \<lparr>a_id = ''acc-old'', a_name = ''Checking'', a_alt_name = None, a_currency = ''USD'',
              a_org_id = Some ''org-1'', a_is_hidden = Some False, a_account_type = Some bank,
              a_created_at = Some 1600000000\<rparr>"

definition acc_new :: account_row where
  "acc_new = \<lparr>a_id = ''acc-new'', a_name = ''Checking'', a_alt_name = None, a_currency = ''USD'',
              a_org_id = Some ''org-1'', a_is_hidden = Some False, a_account_type = None,
              a_created_at = Some 1709000000\<rparr>"

definition acc_savings :: account_row where
  "acc_savings = \<lparr>a_id = ''acc-sav'', a_name = ''Savings'', a_alt_name = None, a_currency = ''USD'',
              a_org_id = Some ''org-1'', a_is_hidden = Some False, a_account_type = Some bank,
              a_created_at = Some 1600000000\<rparr>"

definition t_old :: transaction_row where
  "t_old = \<lparr>t_id = ''t-old'', t_account_id = ''acc-old'', t_amount = -1200, t_posted = 1600000000,
            t_transacted_at = None, t_payee_id = Some 1, t_is_pending = Some False,
            t_description = Some ''Rent'', t_memo = None, t_content_hash = None\<rparr>"

definition t_recent :: transaction_row where
  "t_recent = \<lparr>t_id = ''t-recent'', t_account_id = ''acc-old'', t_amount = -5, t_posted = 1700000000,
            t_transacted_at = None, t_payee_id = Some 2, t_is_pending = Some False,
            t_description = Some ''Coffee'', t_memo = None, t_content_hash = None\<rparr>"

definition t_new :: transaction_row where
  "t_new = \<lparr>t_id = ''t-new'', t_account_id = ''acc-new'', t_amount = -5, t_posted = 1700000000,
            t_transacted_at = None, t_payee_id = None, t_is_pending = Some False,
            t_description = Some ''Coffee'', t_memo = None, t_content_hash = None\<rparr>"

definition merge_db :: db where
  "merge_db =
     \<lparr>accounts = [acc_old, acc_new, acc_savings],
      transactions = [t_old, t_recent, t_new],
      splits = [\<lparr>s_id = 1, s_transaction_id = ''t-old'', s_category_id = 7, s_amount = -1200\<rparr>,
                \<lparr>s_id = 2, s_transaction_id = ''t-recent'', s_category_id = 5, s_amount = -5\<rparr>,
                \<lparr>s_id = 3, s_transaction_id = ''t-new'', s_category_id = 0, s_amount = -5\<rparr>],
      holdings = [], balances = [], payees = [],
      categories = [\<lparr>c_id = 0, c_name = ''Uncategorized''\<rparr>, \<lparr>c_id = 5, c_name = ''Groceries''\<rparr>,
                    \<lparr>c_id = 7, c_name = ''Housing''\<rparr>],
      next_split_id = 4, next_payee_id = 3\<rparr>"

definition example_lib :: pylib where
  "example_lib =
     \<lparr>float_repr = (\<lambda>x. if x = Finite False (25 / 2) then ''12.5''
                         else if x = Finite True 0 then ''-0.0'' else ''0.0''),
      isoformat = (\<lambda>t. ''2023-11-14T22:13:20+00:00'')\<rparr>"

definition keep_payee :: "string \<Rightarrow> string \<Rightarrow> string" where
  "keep_payee payee_name description = payee_name"

definition coffee :: "string \<Rightarrow> txn_in" where
  "coffee tid =
     \<lparr>i_id = tid, i_account_id = [], i_amount = \<lparr>dec_sign = False, dec_coeff = 1250, dec_exp = -2\<rparr>,
      i_posted = Some 1700000000, i_transacted_at = None, i_payee = None, i_payee_id = None,
      i_is_pending = None, i_description = Some ''Coffee'', i_memo = None,
      i_content_hash = None, i_splits = None\<rparr>"

definition coffee_row :: "string \<Rightarrow> string option \<Rightarrow> transaction_row" where
  "coffee_row tid h =
     \<lparr>t_id = tid, t_account_id = ''acc-1'', t_amount = 25 / 2, t_posted = 1700000000,
      t_transacted_at = None, t_payee_id = None, t_is_pending = Some False,
      t_description = Some ''Coffee'', t_memo = None, t_content_hash = h\<rparr>"

definition manual_db :: db where
  "manual_db =
     example_db\<lparr>transactions := [coffee_row ''tx-1'' None],
                splits := [\<lparr>s_id = 1, s_transaction_id = ''tx-1'', s_category_id = 0,
                            s_amount = 25 / 2\<rparr>],
                next_split_id := 2\<rparr>"

definition synced_db :: db where
  "synced_db =
     example_db\<lparr>transactions :=
                  [coffee_row ''tx-1'' (Some (record_hash example_lib ''acc-1'' (coffee ''tx-1'')))],
                splits := [\<lparr>s_id = 1, s_transaction_id = ''tx-1'', s_category_id = 0,
                            s_amount = 25 / 2\<rparr>],
                next_split_id := 2\<rparr>"

text \<open>
  A remote with transactions in the three months before month 24303 only; the state
  counts the transactions stored.
\<close>

definition three_months :: "month \<Rightarrow> month \<Rightarrow> nat \<Rightarrow> (py_error + nat) \<times> nat" where
  "three_months start end_month stored =
     (let n = (if 24300 \<le> start then 5 else 0) in (Inr n, stored + n))"

text \<open>
  Two remote account records: one of an account not yet stored, one of the stored account
  \<open>acc-new\<close> of \<open>merge_db\<close>, whose type is unset. The classifier gives \<open>bank\<close> for both.
\<close>

definition new_checking_record :: pydict where
  "new_checking_record =
     map_of [(''id'', JStr ''acc-7''), (''name'', JStr ''Everyday Checking''),
             (''currency'', JStr ''USD''), (''balance'', JStr ''100.00''),
             (''balance-date'', JNum 1700000000)]"

definition acc_new_record :: pydict where
  "acc_new_record =
     map_of [(''id'', JStr ''acc-new''), (''name'', JStr ''Checking''),
             (''currency'', JStr ''USD''), (''balance'', JStr ''250.00''),
             (''balance-date'', JNum 1700000000)]"

text \<open>The engine that returns rows and groups in table order, and the one that reverses both.\<close>

definition table_order :: engine where
  "table_order = \<lparr>row_order = (\<lambda>rows. rows), group_order = (\<lambda>ks. ks)\<rparr>"

definition reverse_order :: engine where
  "reverse_order = \<lparr>row_order = rev, group_order = rev\<rparr>"

text \<open>
  Databases for the duplicate detector. \<open>acc-old\<close>, \<open>acc-mid\<close> and \<open>acc-new\<close> share
  organisation and name. The rows differ in their posting time only, so a row's key is
  its posting time. \<open>acc-old\<close> has six transactions, the five most recent posted at
  1700000001 to 1700000005.
\<close>

definition acc_mid :: account_row where
  "acc_mid = \<lparr>a_id = ''acc-mid'', a_name = ''Checking'', a_alt_name = None, a_currency = ''USD'',
              a_org_id = Some ''org-1'', a_is_hidden = Some False, a_account_type = Some bank,
              a_created_at = Some 1650000000\<rparr>"

definition posted_row :: "string \<Rightarrow> string \<Rightarrow> time \<Rightarrow> transaction_row" where
  "posted_row tid aid posted =
     \<lparr>t_id = tid, t_account_id = aid, t_amount = -5, t_posted = posted,
      t_transacted_at = None, t_payee_id = None, t_is_pending = Some False,
      t_description = Some ''Coffee'', t_memo = None, t_content_hash = None\<rparr>"

definition older_rows :: "transaction_row list" where
  "older_rows =
     [posted_row ''o0'' ''acc-old'' 1600000000, posted_row ''o1'' ''acc-old'' 1700000001,
      posted_row ''o2'' ''acc-old'' 1700000002, posted_row ''o3'' ''acc-old'' 1700000003,
      posted_row ''o4'' ''acc-old'' 1700000004, posted_row ''o5'' ''acc-old'' 1700000005]"

definition pair_db :: "transaction_row list \<Rightarrow> db" where
  "pair_db rows = merge_db\<lparr>transactions := rows, splits := []\<rparr>"

definition four_of_five_db :: db where
  "four_of_five_db =
     pair_db (older_rows @
       [posted_row ''n2'' ''acc-new'' 1700000002, posted_row ''n3'' ''acc-new'' 1700000003,
        posted_row ''n4'' ''acc-new'' 1700000004, posted_row ''n5'' ''acc-new'' 1700000005])"

definition three_of_five_db :: db where
  "three_of_five_db =
     pair_db (older_rows @
       [posted_row ''n3'' ''acc-new'' 1700000003, posted_row ''n4'' ''acc-new'' 1700000004,
        posted_row ''n5'' ''acc-new'' 1700000005])"

definition empty_older_db :: db where
  "empty_older_db =
     pair_db [posted_row ''n3'' ''acc-new'' 1700000003, posted_row ''n4'' ''acc-new'' 1700000004,
              posted_row ''n5'' ''acc-new'' 1700000005]"

text \<open>
  Three accounts with overlapping windows of transactions: \<open>acc-old\<close> has the times 1 to 5,
  \<open>acc-mid\<close> 2 to 6 and \<open>acc-new\<close> 3 to 7 (after 1700000000).
\<close>

definition chain_db :: db where
  "chain_db =
     merge_db\<lparr>accounts := [acc_old, acc_mid, acc_new], splits := [],
       transactions :=
         [posted_row ''o1'' ''acc-old'' 1700000001, posted_row ''o2'' ''acc-old'' 1700000002,
          posted_row ''o3'' ''acc-old'' 1700000003, posted_row ''o4'' ''acc-old'' 1700000004,
          posted_row ''o5'' ''acc-old'' 1700000005,
          posted_row ''m2'' ''acc-mid'' 1700000002, posted_row ''m3'' ''acc-mid'' 1700000003,
          posted_row ''m4'' ''acc-mid'' 1700000004, posted_row ''m5'' ''acc-mid'' 1700000005,
          posted_row ''m6'' ''acc-mid'' 1700000006,
          posted_row ''n3'' ''acc-new'' 1700000003, posted_row ''n4'' ''acc-new'' 1700000004,
          posted_row ''n5'' ''acc-new'' 1700000005, posted_row ''n6'' ''acc-new'' 1700000006,
          posted_row ''n7'' ''acc-new'' 1700000007]\<rparr>"


text \<open>
  \<open>acc-old\<close> with six transactions, the two oldest posted at the same time, one of them
  with another description; \<open>acc-new\<close> has four of the six.
\<close>

definition tie_db :: db where
  "tie_db =
     pair_db
       [posted_row ''o5'' ''acc-old'' 1700000001,
        (posted_row ''o6'' ''acc-old'' 1700000001)\<lparr>t_description := Some ''Tea''\<rparr>,
        posted_row ''o1'' ''acc-old'' 1700000005, posted_row ''o2'' ''acc-old'' 1700000004,
        posted_row ''o3'' ''acc-old'' 1700000003, posted_row ''o4'' ''acc-old'' 1700000002,
        posted_row ''n1'' ''acc-new'' 1700000005, posted_row ''n2'' ''acc-new'' 1700000004,
        posted_row ''n3'' ''acc-new'' 1700000003, posted_row ''n5'' ''acc-new'' 1700000001]"


chapter \<open>Theorems\<close>

section \<open>AccountClassifier\<close>

lemmas classify_defs =
  classify_account_def lower_def lower_char_def investment_keywords_def credit_keywords_def
  bank_keywords_def float_or_none_def classify_by_balance_def parse_float_def
  unsigned_decimal_def digit_val_def

text \<open>
  The cascade of \<open>classify_account\<close>, for a record whose name is a string or missing:
  holdings first, then the three keyword lists in order, then the balance rules. The
  available balance of the rules is the entry \<open>available_balance\<close> of the record.
\<close>

lemma classify_account_cascade:
  assumes "acct ''name'' = None \<and> raw = [] \<or> acct ''name'' = Some (JStr raw)"
  shows "classify_account acct =
           Inr (if nonempty_collection (acct ''holdings'') then Some investment
                else if any_keyword investment_keywords (lower raw) then Some investment
                else if any_keyword credit_keywords (lower raw) then Some credit_card
                else if any_keyword bank_keywords (lower raw) then Some bank
                else classify_by_balance (float_or_none (acct ''balance''))
                       (float_or_none (acct ''available_balance'')))"
  using assms by (auto simp: classify_account_def Let_def)

lemma classify_by_balance_credit_card:
  "classify_by_balance balance avail = Some credit_card \<longleftrightarrow>
     (\<exists>b. balance = Some b \<and> b \<le> 0) \<and> avail = None"
  by (auto simp: classify_by_balance_def split: option.splits)

lemma classify_by_balance_bank:
  "classify_by_balance balance avail = Some bank \<longleftrightarrow>
     (\<exists>b. balance = Some b \<and> b \<ge> 0 \<and> \<not> (avail = None \<and> b \<le> 0)
          \<and> (avail = None \<or> (\<exists>a. avail = Some a \<and> a \<ge> 0)))"
  by (auto simp: classify_by_balance_def split: option.splits)

lemma classify_holdings_precede_name:
  "classify_account (map_of [(''name'', JStr ''My Checking''), (''holdings'', JArr [JObj []])])
     = Inr (Some investment)"
  by (simp add: classify_account_def)

text \<open>
  C4 (classifier cascade). The aggregator's record carries the available balance under
  the key \<open>available-balance\<close>, which \<open>process_account_balance\<close> reads; \<open>classify_account\<close>
  reads \<open>available_balance\<close> and so finds none. A record with a negative balance and an
  available balance is classified \<open>credit_card\<close>, and one with a positive balance and a
  negative available balance is classified \<open>bank\<close>, where the cascade of the claim gives
  no classification to either.
\<close>

theorem classify_account_ignores_available_balance:
  "classify_account
     (map_of [(''id'', JStr ''ACT-1''), (''name'', JStr ''Rewards''),
              (''balance'', JStr ''-250.00''), (''available-balance'', JStr ''4750.00'')])
     = Inr (Some credit_card)
   \<and> classify_account
     (map_of [(''id'', JStr ''ACT-2''), (''name'', JStr ''Everyday''),
              (''balance'', JStr ''100.00''), (''available-balance'', JStr ''-50.00'')])
     = Inr (Some bank)"
  by (simp add: classify_defs)

section \<open>Transactions\<close>

text \<open>\<open>create_transaction\<close> never raises \<open>SplitMismatchError\<close>, whatever the splits.\<close>

lemma create_transaction_never_split_mismatch:
  "fst (create_transaction normalize_payee d inp suggested) \<noteq> Inl (SplitMismatchError tid x y)"
  by (auto simp: create_transaction_def validate_splits_def Let_def
           split: prod.splits option.splits)

text \<open>
  C3 (split invariant at creation). A transaction of amount 100.00 with one split of
  30.00 is created: the call returns the transaction, and the transaction and its split
  of 30.00 are stored. The claim says the call fails with a split-mismatch error and
  stores nothing.
\<close>

theorem create_transaction_accepts_mismatched_splits:
  "create_transaction normalize_payee example_db
     \<lparr>i_id = ''t1'', i_account_id = ''acc-1'', i_amount = \<lparr>dec_sign = False, dec_coeff = 10000, dec_exp = -2\<rparr>,
      i_posted = Some 1700000000, i_transacted_at = Some 1700000000, i_payee = None,
      i_payee_id = None, i_is_pending = Some False, i_description = Some ''Market'',
      i_memo = None, i_content_hash = None,
      i_splits = Some [\<lparr>si_category_id = 5, si_amount = \<lparr>dec_sign = False, dec_coeff = 3000, dec_exp = -2\<rparr>\<rparr>]\<rparr>
     None
   = (Inr \<lparr>t_id = ''t1'', t_account_id = ''acc-1'', t_amount = 100, t_posted = 1700000000,
           t_transacted_at = Some 1700000000, t_payee_id = None, t_is_pending = Some False,
           t_description = Some ''Market'', t_memo = None, t_content_hash = None\<rparr>,
      example_db
        \<lparr>transactions :=
           [\<lparr>t_id = ''t1'', t_account_id = ''acc-1'', t_amount = 100, t_posted = 1700000000,
             t_transacted_at = Some 1700000000, t_payee_id = None, t_is_pending = Some False,
             t_description = Some ''Market'', t_memo = None, t_content_hash = None\<rparr>],
         splits := [\<lparr>s_id = 1, s_transaction_id = ''t1'', s_category_id = 5, s_amount = 30\<rparr>],
         next_split_id := 2\<rparr>)"
  by (simp add: create_transaction_def resolve_payee_def validate_splits_def get_transaction_def
        example_db_def new_splits_def dec_value_def dec_abs_def Let_def)


section \<open>AccountMerger\<close>

subsection \<open>The lookup of the target transactions\<close>

lemma build_txn_map_aux:
  "foldl (\<lambda>m t. m(txn_key t \<mapsto> t)) m0 txns k = Some t \<Longrightarrow> t \<in> set txns \<and> txn_key t = k \<or> m0 k = Some t"
proof (induction txns arbitrary: m0)
  case Nil
  then show ?case by simp
next
  case (Cons a txns)
  from Cons.prems have "foldl (\<lambda>m t. m(txn_key t \<mapsto> t)) (m0(txn_key a \<mapsto> a)) txns k = Some t"
    by (simp only: foldl_Cons)
  from Cons.IH[OF this] show ?case
    by (auto split: if_splits)
qed

lemma build_txn_map_Some: "build_txn_map txns k = Some t \<Longrightarrow> t \<in> set txns \<and> txn_key t = k"
  using build_txn_map_aux[of Map.empty txns k t] by (simp add: build_txn_map_def)

lemma build_txn_map_dom_aux:
  "dom (foldl (\<lambda>m t. m(txn_key t \<mapsto> t)) m0 txns) = dom m0 \<union> txn_key ` set txns"
  by (induction txns arbitrary: m0) auto

lemma build_txn_map_dom: "dom (build_txn_map txns) = txn_key ` set txns"
  by (simp add: build_txn_map_def build_txn_map_dom_aux)

lemma merge_step_deleted:
  "se_deleted (merge_step pc cutoff tmap se x) =
     se_deleted se @ (if t_posted x \<ge> cutoff then [t_id x] else [])"
  by (auto simp: merge_step_def copy_categorization_def Let_def split: option.splits)

lemma merge_step_moved:
  "se_moved (merge_step pc cutoff tmap se x) =
     se_moved se @ (if t_posted x \<ge> cutoff then [] else [t_id x])"
  by (auto simp: merge_step_def copy_categorization_def Let_def split: option.splits)

lemma merge_step_transactions:
  "transactions (se_db (merge_step pc cutoff tmap se x)) = transactions (se_db se)"
  by (auto simp: merge_step_def copy_categorization_def Let_def split: option.splits)

lemma merge_step_removed:
  "transactions_removed (se_stats (merge_step pc cutoff tmap se x)) =
     transactions_removed (se_stats se) + (if t_posted x \<ge> cutoff then 1 else 0)"
  by (auto simp: merge_step_def copy_categorization_def Let_def split: option.splits)

lemma merge_step_reassigned:
  "transactions_reassigned (se_stats (merge_step pc cutoff tmap se x)) =
     transactions_reassigned (se_stats se) + (if t_posted x \<ge> cutoff then 0 else 1)"
  by (auto simp: merge_step_def copy_categorization_def Let_def split: option.splits)

lemma merge_step_matched:
  "transactions_matched (se_stats (merge_step pc cutoff tmap se x)) =
     transactions_matched (se_stats se) +
       (if pc \<and> t_posted x \<ge> cutoff \<and> tmap (txn_key x) \<noteq> None then 1 else 0)"
  by (auto simp: merge_step_def copy_categorization_def Let_def split: option.splits)

lemma merge_step_payee:
  "fst ` set (se_payee (merge_step pc cutoff tmap se x)) \<subseteq>
     fst ` set (se_payee se) \<union> t_id ` ran tmap"
  by (auto simp: merge_step_def copy_categorization_def Let_def split: option.splits intro: ranI)

lemma merge_loop_deleted:
  "se_deleted (foldl (merge_step pc cutoff tmap) se xs) =
     se_deleted se @ map t_id (filter (\<lambda>t. t_posted t \<ge> cutoff) xs)"
  by (induction xs arbitrary: se) (simp_all add: merge_step_deleted)

lemma merge_loop_moved:
  "se_moved (foldl (merge_step pc cutoff tmap) se xs) =
     se_moved se @ map t_id (filter (\<lambda>t. \<not> t_posted t \<ge> cutoff) xs)"
  by (induction xs arbitrary: se) (simp_all add: merge_step_moved)

lemma merge_loop_transactions:
  "transactions (se_db (foldl (merge_step pc cutoff tmap) se xs)) = transactions (se_db se)"
  by (induction xs arbitrary: se) (simp_all add: merge_step_transactions)

lemma merge_loop_removed:
  "transactions_removed (se_stats (foldl (merge_step pc cutoff tmap) se xs)) =
     transactions_removed (se_stats se) + length (filter (\<lambda>t. t_posted t \<ge> cutoff) xs)"
  by (induction xs arbitrary: se) (simp_all add: merge_step_removed)

lemma merge_loop_reassigned:
  "transactions_reassigned (se_stats (foldl (merge_step pc cutoff tmap) se xs)) =
     transactions_reassigned (se_stats se) + length (filter (\<lambda>t. \<not> t_posted t \<ge> cutoff) xs)"
  by (induction xs arbitrary: se) (simp_all add: merge_step_reassigned)

lemma merge_loop_matched:
  "transactions_matched (se_stats (foldl (merge_step pc cutoff tmap) se xs)) =
     transactions_matched (se_stats se) +
       (if pc then length (filter (\<lambda>t. t_posted t \<ge> cutoff \<and> tmap (txn_key t) \<noteq> None) xs) else 0)"
  by (induction xs arbitrary: se) (auto simp: merge_step_matched)

lemma merge_loop_payee:
  "fst ` set (se_payee (foldl (merge_step pc cutoff tmap) se xs)) \<subseteq>
     fst ` set (se_payee se) \<union> t_id ` ran tmap"
proof (induction xs arbitrary: se)
  case Nil
  then show ?case by simp
next
  case (Cons x xs)
  show ?case
    using Cons.IH[of "merge_step pc cutoff tmap se x"] merge_step_payee[of pc cutoff tmap se x]
    by auto
qed

lemma set_payee_other:
  "t \<in> set txns \<Longrightarrow> t_id t \<notin> fst ` set us \<Longrightarrow> t \<in> set (foldl set_payee txns us)"
  by (induction us arbitrary: txns) (auto simp: set_payee_def)

lemma set_payee_ids: "map t_id (foldl set_payee txns us) = map t_id txns"
  by (induction us arbitrary: txns) (auto simp: set_payee_def)

lemma set_payee_accounts: "map t_account_id (foldl set_payee txns us) = map t_account_id txns"
  by (induction us arbitrary: txns) (auto simp: set_payee_def)

subsection \<open>The merge as a whole\<close>

lemma distinct_ids_eq:
  "distinct (map f xs) \<Longrightarrow> x \<in> set xs \<Longrightarrow> y \<in> set xs \<Longrightarrow> f x = f y \<Longrightarrow> x = y"
  by (meson distinct_map inj_on_def)

lemma merge_accounts_valid:
  assumes "get_account d src = Some s" "get_account d tgt = Some t"
    "a_org_id s = a_org_id t" "a_name s = a_name t"
  shows "merge_accounts now d src tgt pc lb =
    (Inr ((se_stats (merge_loop_result now d src tgt pc lb))
            \<lparr>holdings_reassigned := length (filter (\<lambda>h. h_account_id h = src) (holdings d)),
             source_account_deleted := True\<rparr>),
     merge_commit src tgt (merge_loop_result now d src tgt pc lb))"
  using assms by (simp add: merge_accounts_def merge_loop_result_def Let_def)

lemma merge_commit_transactions:
  "transactions (merge_commit src tgt se) =
     filter (\<lambda>t. t_account_id t \<noteq> src)
       (filter (\<lambda>t. t_id t \<notin> set (se_deleted se))
          (foldl set_payee
             (map (\<lambda>t. if t_id t \<in> set (se_moved se) then t\<lparr>t_account_id := tgt\<rparr> else t)
                (transactions (se_db se)))
             (se_payee se)))"
  by (simp add: merge_commit_def delete_account_def delete_transactions_def Let_def)

lemma merge_kept:
  assumes valid: "src \<noteq> tgt" "distinct (map t_id (transactions d))"
    and x: "x \<in> set (transactions d)" "t_account_id x = src"
           "t_posted x < now - timedelta_days (lb * 30)"
  shows "x\<lparr>t_account_id := tgt\<rparr> \<in> set (transactions (merge_commit src tgt (merge_loop_result now d src tgt pc lb)))"
proof -
  let ?cut = "now - timedelta_days (lb * 30)"
  let ?S = "filter (\<lambda>t. t_account_id t = src) (transactions d)"
  let ?T = "filter (\<lambda>t. t_account_id t = tgt) (transactions d)"
  let ?se = "merge_loop_result now d src tgt pc lb"
  let ?x' = "x\<lparr>t_account_id := tgt\<rparr>"
  have tr: "transactions (se_db ?se) = transactions d"
    by (simp add: merge_loop_result_def merge_loop_transactions)
  have mv: "se_moved ?se = map t_id (filter (\<lambda>t. \<not> t_posted t \<ge> ?cut) ?S)"
    by (simp add: merge_loop_result_def merge_loop_moved)
  have dl: "se_deleted ?se = map t_id (filter (\<lambda>t. t_posted t \<ge> ?cut) ?S)"
    by (simp add: merge_loop_result_def merge_loop_deleted)
  have py: "fst ` set (se_payee ?se) \<subseteq> t_id ` set ?T"
  proof -
    have "fst ` set (se_payee ?se) \<subseteq> t_id ` ran (build_txn_map ?T)"
      unfolding merge_loop_result_def
      by (rule subset_trans[OF merge_loop_payee]) simp
    moreover have "ran (build_txn_map ?T) \<subseteq> set ?T"
      by (auto simp: ran_def dest: build_txn_map_Some)
    ultimately show ?thesis by blast
  qed
  have in_moved: "t_id x \<in> set (se_moved ?se)"
    using x by (auto simp: mv)
  then have 1: "?x' \<in> set (map (\<lambda>t. if t_id t \<in> set (se_moved ?se) then t\<lparr>t_account_id := tgt\<rparr> else t)
                (transactions (se_db ?se)))"
    using x(1) by (auto simp: tr intro!: image_eqI[where x = x])
  have not_target: "t_id ?x' \<notin> fst ` set (se_payee ?se)"
  proof
    assume "t_id ?x' \<in> fst ` set (se_payee ?se)"
    then obtain y where y: "y \<in> set (transactions d)" "t_account_id y = tgt" "t_id y = t_id x"
      using py by auto
    then have "y = x" using distinct_ids_eq[OF valid(2) y(1) x(1)] by simp
    with y x valid(1) show False by simp
  qed
  have 2: "?x' \<in> set (foldl set_payee
             (map (\<lambda>t. if t_id t \<in> set (se_moved ?se) then t\<lparr>t_account_id := tgt\<rparr> else t)
                (transactions (se_db ?se)))
             (se_payee ?se))"
    by (rule set_payee_other[OF 1 not_target])
  have not_deleted: "t_id ?x' \<notin> set (se_deleted ?se)"
  proof
    assume "t_id ?x' \<in> set (se_deleted ?se)"
    then obtain z where z: "z \<in> set (transactions d)" "t_posted z \<ge> ?cut" "t_id z = t_id x"
      by (auto simp: dl)
    then have "z = x" using distinct_ids_eq[OF valid(2) z(1) x(1)] by simp
    with z x show False by simp
  qed
  show ?thesis
    unfolding merge_commit_transactions using 2 not_deleted valid(1) by simp
qed

lemma merge_commit_ids:
  "map t_id (transactions (merge_commit src tgt se)) =
     map t_id (filter (\<lambda>t. t_account_id t \<noteq> src)
       (filter (\<lambda>t. t_id t \<notin> set (se_deleted se))
          (foldl set_payee
             (map (\<lambda>t. if t_id t \<in> set (se_moved se) then t\<lparr>t_account_id := tgt\<rparr> else t)
                (transactions (se_db se)))
             (se_payee se))))"
  by (simp add: merge_commit_transactions)

lemma merge_removed:
  assumes x: "x \<in> set (transactions d)" "t_account_id x = src"
           "t_posted x \<ge> now - timedelta_days (lb * 30)"
  shows "t_id x \<notin> t_id ` set (transactions (merge_commit src tgt (merge_loop_result now d src tgt pc lb)))"
proof -
  let ?se = "merge_loop_result now d src tgt pc lb"
  have "t_id x \<in> set (se_deleted ?se)"
    using x by (auto simp: merge_loop_result_def merge_loop_deleted)
  then show ?thesis
    unfolding merge_commit_transactions by auto
qed

lemma merge_distinct:
  assumes "distinct (map t_id (transactions d))"
  shows "distinct (map t_id (transactions (merge_commit src tgt (merge_loop_result now d src tgt pc lb))))"
proof -
  let ?se = "merge_loop_result now d src tgt pc lb"
  have tr: "transactions (se_db ?se) = transactions d"
    by (simp add: merge_loop_result_def merge_loop_transactions)
  let ?m = "map (\<lambda>t. if t_id t \<in> set (se_moved ?se) then t\<lparr>t_account_id := tgt\<rparr> else t)
                (transactions (se_db ?se))"
  have "map t_id ?m = map t_id (transactions d)"
    by (simp add: tr comp_def if_distrib cong: if_cong)
  then have "distinct (map t_id (foldl set_payee ?m (se_payee ?se)))"
    using assms by (simp add: set_payee_ids)
  then show ?thesis
    unfolding merge_commit_transactions by (simp add: distinct_map_filter)
qed

lemma merge_counters:
  "transactions_reassigned (se_stats (merge_loop_result now d src tgt pc lb)) =
     length (filter (\<lambda>t. t_account_id t = src \<and> t_posted t < now - timedelta_days (lb * 30)) (transactions d))"
  "transactions_removed (se_stats (merge_loop_result now d src tgt pc lb)) =
     length (filter (\<lambda>t. t_account_id t = src \<and> t_posted t \<ge> now - timedelta_days (lb * 30)) (transactions d))"
  by (simp_all add: merge_loop_result_def merge_loop_reassigned merge_loop_removed not_le conj_commute)

lemma merge_matched_count:
  "transactions_matched (se_stats (merge_loop_result now d src tgt pc lb)) =
     (if pc then
        length (filter (\<lambda>x. t_account_id x = src \<and> t_posted x \<ge> now - timedelta_days (lb * 30)
                   \<and> txn_key x \<in> txn_key ` set (filter (\<lambda>t. t_account_id t = tgt) (transactions d)))
                 (transactions d))
      else 0)"
proof -
  have "\<And>k T. (build_txn_map T k \<noteq> None) = (k \<in> txn_key ` set T)"
    using build_txn_map_dom by (metis domIff)
  then show ?thesis
    by (simp add: merge_loop_result_def merge_loop_matched conj_commute conj_left_commute)
qed

lemmas merge_example_defs =
  merge_db_def acc_old_def acc_new_def acc_savings_def t_old_def t_recent_def t_new_def

text \<open>
  C8 (merge preconditions), with the kinds of error the code has. \<open>merge_accounts\<close> raises
  before its first write, and the database is the one it was given. Both failures are of
  one kind, \<open>ValueError\<close>, told apart by the message only: "Source or target account not
  found" when either account is missing, "Can only merge accounts with matching org_id
  and name" when both exist and differ in \<open>org_id\<close> or \<open>name\<close>. The route answers both with
  status 400. Accounts, transactions, splits and holdings are tables of the database
  returned, so all are unchanged.
\<close>

theorem merge_accounts_preconditions:
  "(get_account d src = None \<or> get_account d tgt = None \<longrightarrow>
      merge_accounts now d src tgt pc lb =
        (Inl (ValueError ''Source or target account not found''), d)
      \<and> merge_accounts_route now d src tgt pc = (400, d))
   \<and> (\<forall>s t. get_account d src = Some s \<and> get_account d tgt = Some t
          \<and> (a_org_id s \<noteq> a_org_id t \<or> a_name s \<noteq> a_name t) \<longrightarrow>
      merge_accounts now d src tgt pc lb =
        (Inl (ValueError ''Can only merge accounts with matching org_id and name''), d)
      \<and> merge_accounts_route now d src tgt pc = (400, d))"
  by (auto simp: merge_accounts_route_def merge_accounts_def split: option.splits)

theorem merge_accounts_preconditions_witness:
  "get_account merge_db ''nope'' = None
   \<and> merge_accounts 1710000000 merge_db ''acc-old'' ''nope'' True 12 =
        (Inl (ValueError ''Source or target account not found''), merge_db)
   \<and> get_account merge_db ''acc-old'' = Some acc_old
   \<and> get_account merge_db ''acc-sav'' = Some acc_savings
   \<and> a_name acc_old \<noteq> a_name acc_savings
   \<and> merge_accounts 1710000000 merge_db ''acc-old'' ''acc-sav'' True 12 =
        (Inl (ValueError ''Can only merge accounts with matching org_id and name''), merge_db)
   \<and> merge_accounts_route 1710000000 merge_db ''acc-old'' ''nope'' True = (400, merge_db)
   \<and> merge_accounts_route 1710000000 merge_db ''acc-old'' ''acc-sav'' True = (400, merge_db)"
proof -
  have a: "get_account merge_db ''nope'' = None"
    by (simp add: get_account_def merge_example_defs)
  have b: "get_account merge_db ''acc-old'' = Some acc_old"
    by (simp add: get_account_def merge_example_defs)
  have c: "get_account merge_db ''acc-sav'' = Some acc_savings"
    by (simp add: get_account_def merge_example_defs)
  have d: "a_name acc_old \<noteq> a_name acc_savings"
    by (simp add: merge_example_defs)
  from merge_accounts_preconditions[of merge_db "''acc-old''" "''nope''" 1710000000 True 12] a
  have 1: "merge_accounts 1710000000 merge_db ''acc-old'' ''nope'' True 12 =
        (Inl (ValueError ''Source or target account not found''), merge_db)"
    and 3: "merge_accounts_route 1710000000 merge_db ''acc-old'' ''nope'' True = (400, merge_db)"
    by blast+
  from merge_accounts_preconditions[of merge_db "''acc-old''" "''acc-sav''" 1710000000 True 12] b c d
  have 2: "merge_accounts 1710000000 merge_db ''acc-old'' ''acc-sav'' True 12 =
        (Inl (ValueError ''Can only merge accounts with matching org_id and name''), merge_db)"
    and 4: "merge_accounts_route 1710000000 merge_db ''acc-old'' ''acc-sav'' True = (400, merge_db)"
    by blast+
  show ?thesis using a b c d 1 2 3 4 by blast
qed

text \<open>
  The claim names two kinds of error, a ValidationError for accounts that do not match
  and a NotFoundError, answered like a 404, for a missing account. The code raises a
  \<open>ValueError\<close> in both cases: for the missing account \<open>nope\<close> and for the accounts \<open>acc-old\<close>
  and \<open>acc-sav\<close>, whose names differ, the error is a \<open>ValueError\<close>, no \<open>ValidationError\<close>, and
  the status of the route is 400 both times.
\<close>

theorem merge_accounts_failures_are_value_errors:
  "get_account merge_db ''nope'' = None
   \<and> fst (merge_accounts 1710000000 merge_db ''acc-old'' ''nope'' True 12) =
       Inl (ValueError ''Source or target account not found'')
   \<and> fst (merge_accounts_route 1710000000 merge_db ''acc-old'' ''nope'' True) = 400
   \<and> (400 :: nat) \<noteq> 404
   \<and> get_account merge_db ''acc-old'' = Some acc_old
   \<and> get_account merge_db ''acc-sav'' = Some acc_savings
   \<and> a_name acc_old \<noteq> a_name acc_savings
   \<and> fst (merge_accounts 1710000000 merge_db ''acc-old'' ''acc-sav'' True 12) =
       Inl (ValueError ''Can only merge accounts with matching org_id and name'')
   \<and> (\<nexists>m. fst (merge_accounts 1710000000 merge_db ''acc-old'' ''acc-sav'' True 12) =
             Inl (ValidationError m))
   \<and> fst (merge_accounts_route 1710000000 merge_db ''acc-old'' ''acc-sav'' True) = 400"
  by (simp add: merge_accounts_route_def merge_accounts_def get_account_def merge_example_defs)

text \<open>
  Conservation for a merge of two different accounts. When source and target exist,
  share \<open>org_id\<close> and \<open>name\<close> and are different accounts, and transaction ids are unique
  (they are the primary key), the merge returns, and with
  \<open>cutoff = now - lookback_months * 30 days\<close>: every source transaction posted before the
  cutoff is stored afterwards under the target account, otherwise unchanged; no
  transaction stored afterwards has the id of a source transaction posted at or after
  the cutoff; ids are still unique; \<open>transactions_reassigned\<close> is the number of source
  transactions before the cutoff and \<open>transactions_removed\<close> the number of those at or
  after it. Every transaction has a posted time: the column is not nullable.
\<close>

theorem merge_accounts_conservation:
  assumes "get_account d src = Some s" and "get_account d tgt = Some t"
    and "a_org_id s = a_org_id t" and "a_name s = a_name t"
    and "src \<noteq> tgt"
    and "distinct (map t_id (transactions d))"
  shows "\<exists>stats d'.
     merge_accounts now d src tgt pc lb = (Inr stats, d')
     \<and> (\<forall>x \<in> set (transactions d). t_account_id x = src \<longrightarrow>
          (if t_posted x < now - timedelta_days (lb * 30)
           then x\<lparr>t_account_id := tgt\<rparr> \<in> set (transactions d')
           else t_id x \<notin> t_id ` set (transactions d')))
     \<and> distinct (map t_id (transactions d'))
     \<and> transactions_reassigned stats =
         length (filter (\<lambda>x. t_account_id x = src \<and> t_posted x < now - timedelta_days (lb * 30))
                   (transactions d))
     \<and> transactions_removed stats =
         length (filter (\<lambda>x. t_account_id x = src \<and> t_posted x \<ge> now - timedelta_days (lb * 30))
                   (transactions d))"
proof -
  let ?se = "merge_loop_result now d src tgt pc lb"
  let ?d' = "merge_commit src tgt ?se"
  have run: "merge_accounts now d src tgt pc lb =
    (Inr ((se_stats ?se)
            \<lparr>holdings_reassigned := length (filter (\<lambda>h. h_account_id h = src) (holdings d)),
             source_account_deleted := True\<rparr>), ?d')"
    using assms(1-4) by (rule merge_accounts_valid)
  have rows: "\<forall>x \<in> set (transactions d). t_account_id x = src \<longrightarrow>
          (if t_posted x < now - timedelta_days (lb * 30)
           then x\<lparr>t_account_id := tgt\<rparr> \<in> set (transactions ?d')
           else t_id x \<notin> t_id ` set (transactions ?d'))"
  proof (intro ballI impI)
    fix x assume x: "x \<in> set (transactions d)" "t_account_id x = src"
    show "if t_posted x < now - timedelta_days (lb * 30)
           then x\<lparr>t_account_id := tgt\<rparr> \<in> set (transactions ?d')
           else t_id x \<notin> t_id ` set (transactions ?d')"
    proof (cases "t_posted x < now - timedelta_days (lb * 30)")
      case True
      then show ?thesis
        using merge_kept[OF assms(5,6) x True] by simp
    next
      case False
      then have "t_posted x \<ge> now - timedelta_days (lb * 30)" by simp
      from merge_removed[OF x this] False show ?thesis by simp
    qed
  qed
  show ?thesis
    using run rows merge_distinct[OF assms(6)] merge_counters
    by (intro exI[of _ "(se_stats ?se)
            \<lparr>holdings_reassigned := length (filter (\<lambda>h. h_account_id h = src) (holdings d)),
             source_account_deleted := True\<rparr>"] exI[of _ ?d']) simp
qed

theorem merge_accounts_conservation_witness:
  "get_account merge_db ''acc-old'' = Some acc_old
   \<and> get_account merge_db ''acc-new'' = Some acc_new
   \<and> a_org_id acc_old = a_org_id acc_new \<and> a_name acc_old = a_name acc_new
   \<and> ''acc-old'' \<noteq> ''acc-new''
   \<and> distinct (map t_id (transactions merge_db))
   \<and> (\<exists>stats d'.
        merge_accounts 1710000000 merge_db ''acc-old'' ''acc-new'' True 12 = (Inr stats, d')
        \<and> t_old\<lparr>t_account_id := ''acc-new''\<rparr> \<in> set (transactions d')
        \<and> t_id t_recent \<notin> t_id ` set (transactions d')
        \<and> transactions_reassigned stats = 1
        \<and> transactions_removed stats = 1)"
proof -
  have h1: "get_account merge_db ''acc-old'' = Some acc_old"
    and h2: "get_account merge_db ''acc-new'' = Some acc_new"
    by (simp_all add: get_account_def merge_example_defs)
  have h3: "a_org_id acc_old = a_org_id acc_new" and h4: "a_name acc_old = a_name acc_new"
    by (simp_all add: merge_example_defs)
  have h5: "''acc-old'' \<noteq> ''acc-new''" by simp
  have h6: "distinct (map t_id (transactions merge_db))"
    by (simp add: merge_example_defs)
  from merge_accounts_conservation[OF h1 h2 h3 h4 h5 h6, of 1710000000 True 12]
  obtain stats d' where r:
    "merge_accounts 1710000000 merge_db ''acc-old'' ''acc-new'' True 12 = (Inr stats, d')"
    "\<forall>x \<in> set (transactions merge_db). t_account_id x = ''acc-old'' \<longrightarrow>
          (if t_posted x < 1710000000 - timedelta_days (12 * 30)
           then x\<lparr>t_account_id := ''acc-new''\<rparr> \<in> set (transactions d')
           else t_id x \<notin> t_id ` set (transactions d'))"
    "transactions_reassigned stats =
         length (filter (\<lambda>x. t_account_id x = ''acc-old'' \<and> t_posted x < 1710000000 - timedelta_days (12 * 30))
                   (transactions merge_db))"
    "transactions_removed stats =
         length (filter (\<lambda>x. t_account_id x = ''acc-old'' \<and> t_posted x \<ge> 1710000000 - timedelta_days (12 * 30))
                   (transactions merge_db))"
    by blast
  have a: "t_old\<lparr>t_account_id := ''acc-new''\<rparr> \<in> set (transactions d')"
    using r(2)[rule_format, of t_old] by (simp add: merge_example_defs timedelta_days_def)
  have b: "t_id t_recent \<notin> t_id ` set (transactions d')"
    using r(2)[rule_format, of t_recent] by (simp add: merge_example_defs timedelta_days_def)
  have c: "transactions_reassigned stats = 1" "transactions_removed stats = 1"
    using r(3,4) by (simp_all add: merge_example_defs timedelta_days_def)
  show ?thesis using h1 h2 h3 h4 h5 h6 r(1) a b c by blast
qed

text \<open>
  C1 (merge conservation) fails in the code for a merge of an account into itself. The
  source and target of the claim exist and match in \<open>org_id\<close> and \<open>name\<close>, and neither
  \<open>merge_accounts\<close> nor the route asks that they differ. Merging \<open>acc-old\<close> into itself
  passes both precondition checks and returns its counters (status 200); the transaction
  \<open>t-old\<close>, posted before the cutoff, is counted as reassigned, and is then deleted with
  the account it was reassigned to: the target, which was to be kept, is gone, and no
  transaction of it is left.
\<close>

theorem merge_accounts_self_merge_loses_history:
  "get_account merge_db ''acc-old'' = Some acc_old
   \<and> distinct (map t_id (transactions merge_db))
   \<and> t_old \<in> set (transactions merge_db)
   \<and> t_account_id t_old = ''acc-old''
   \<and> t_posted t_old < 1710000000 - timedelta_days (12 * 30)
   \<and> fst (merge_accounts 1710000000 merge_db ''acc-old'' ''acc-old'' True 12) =
       Inr \<lparr>transactions_reassigned = 1, transactions_removed = 1, transactions_matched = 1,
            holdings_reassigned = 0, source_account_deleted = True\<rparr>
   \<and> fst (merge_accounts_route 1710000000 merge_db ''acc-old'' ''acc-old'' True) = 200
   \<and> transactions (snd (merge_accounts 1710000000 merge_db ''acc-old'' ''acc-old'' True 12)) = [t_new]
   \<and> t_old\<lparr>t_account_id := ''acc-old''\<rparr> \<notin> set [t_new]
   \<and> get_account (snd (merge_accounts 1710000000 merge_db ''acc-old'' ''acc-old'' True 12))
        ''acc-old'' = None"
  by code_simp

theorem merge_accounts_self_merge_loses_history_witness:
  "transactions_reassigned
     (projr (fst (merge_accounts 1710000000 merge_db ''acc-old'' ''acc-old'' True 12))) = 1
   \<and> t_id t_old \<notin>
       t_id ` set (transactions
                    (snd (merge_accounts 1710000000 merge_db ''acc-old'' ''acc-old'' True 12)))"
  using merge_accounts_self_merge_loses_history by (simp add: t_old_def t_new_def)

text \<open>
  C5 (merge matched count), as the code counts. For every valid merge,
  \<open>transactions_matched\<close> is the number of source transactions posted at or after the
  cutoff whose key \<open>(posted, amount, description)\<close> is the key of a target transaction when
  \<open>preserve_categorization\<close> is true, and 0 when it is false: the counter is incremented
  inside the branch that copies the categorization.
\<close>

theorem merge_accounts_matched_count:
  assumes "get_account d src = Some s" and "get_account d tgt = Some t"
    and "a_org_id s = a_org_id t" and "a_name s = a_name t"
  shows "\<exists>stats d'.
     merge_accounts now d src tgt pc lb = (Inr stats, d')
     \<and> transactions_matched stats =
         (if pc
          then length (filter (\<lambda>x. t_account_id x = src
                                 \<and> t_posted x \<ge> now - timedelta_days (lb * 30)
                                 \<and> txn_key x \<in> txn_key ` set (filter (\<lambda>y. t_account_id y = tgt) (transactions d)))
                        (transactions d))
          else 0)"
  using merge_accounts_valid[OF assms, of now pc lb] merge_matched_count[of now d src tgt pc lb]
  by simp

theorem merge_accounts_matched_count_witness:
  "get_account merge_db ''acc-old'' = Some acc_old
   \<and> get_account merge_db ''acc-new'' = Some acc_new
   \<and> a_org_id acc_old = a_org_id acc_new \<and> a_name acc_old = a_name acc_new
   \<and> (\<exists>stats d'.
        merge_accounts 1710000000 merge_db ''acc-old'' ''acc-new'' True 12 = (Inr stats, d')
        \<and> transactions_matched stats = 1)
   \<and> (\<exists>stats d'.
        merge_accounts 1710000000 merge_db ''acc-old'' ''acc-new'' False 12 = (Inr stats, d')
        \<and> transactions_matched stats = 0)"
proof -
  have h1: "get_account merge_db ''acc-old'' = Some acc_old"
    and h2: "get_account merge_db ''acc-new'' = Some acc_new"
    by (simp_all add: get_account_def merge_example_defs)
  have h3: "a_org_id acc_old = a_org_id acc_new" and h4: "a_name acc_old = a_name acc_new"
    by (simp_all add: merge_example_defs)
  have k: "length (filter (\<lambda>x. t_account_id x = ''acc-old''
                 \<and> t_posted x \<ge> 1710000000 - timedelta_days (12 * 30)
                 \<and> txn_key x \<in> txn_key ` set (filter (\<lambda>y. t_account_id y = ''acc-new'') (transactions merge_db)))
               (transactions merge_db)) = 1"
    by (simp add: merge_example_defs timedelta_days_def txn_key_def)
  from merge_accounts_matched_count[OF h1 h2 h3 h4, of 1710000000 True 12] k
  have a: "\<exists>stats d'.
        merge_accounts 1710000000 merge_db ''acc-old'' ''acc-new'' True 12 = (Inr stats, d')
        \<and> transactions_matched stats = 1"
    by simp
  from merge_accounts_matched_count[OF h1 h2 h3 h4, of 1710000000 False 12]
  have b: "\<exists>stats d'.
        merge_accounts 1710000000 merge_db ''acc-old'' ''acc-new'' False 12 = (Inr stats, d')
        \<and> transactions_matched stats = 0"
    by simp
  show ?thesis using h1 h2 h3 h4 a b by blast
qed

text \<open>
  With \<open>preserve_categorization\<close> false the source transaction \<open>t-recent\<close> has the key of the
  target transaction \<open>t-new\<close>, and the merge reports no match.
\<close>

theorem merge_accounts_matched_needs_preserve:
  "get_account merge_db ''acc-old'' = Some acc_old
   \<and> get_account merge_db ''acc-new'' = Some acc_new
   \<and> a_org_id acc_old = a_org_id acc_new \<and> a_name acc_old = a_name acc_new
   \<and> t_recent \<in> set (transactions merge_db) \<and> t_account_id t_recent = ''acc-old''
   \<and> t_posted t_recent \<ge> 1710000000 - timedelta_days (12 * 30)
   \<and> t_new \<in> set (transactions merge_db) \<and> t_account_id t_new = ''acc-new''
   \<and> txn_key t_recent = txn_key t_new
   \<and> transactions_matched
        (projr (fst (merge_accounts 1710000000 merge_db ''acc-old'' ''acc-new'' False 12))) = 0
   \<and> fst (merge_accounts 1710000000 merge_db ''acc-old'' ''acc-new'' False 12) =
       Inr \<lparr>transactions_reassigned = 1, transactions_removed = 1, transactions_matched = 0,
            holdings_reassigned = 0, source_account_deleted = True\<rparr>"
  by code_simp

section \<open>IngestionWriter\<close>

lemma resolve_payee_transactions:
  "transactions (snd (resolve_payee np d inp s)) = transactions d"
  by (auto simp: resolve_payee_def Let_def split: option.splits)

lemma create_transaction_Inr:
  assumes "create_transaction np d inp s = (Inr row, d')"
  shows "transactions d' = transactions d @ [row] \<and> t_id row = i_id inp
         \<and> t_account_id row = i_account_id inp \<and> t_content_hash row = i_content_hash inp"
proof -
  obtain pid d1 where rp: "resolve_payee np d inp s = (pid, d1)" by (cases "resolve_payee np d inp s")
  then have "transactions d1 = transactions d"
    using resolve_payee_transactions[of np d inp s] by simp
  with assms rp show ?thesis
    by (auto simp: create_transaction_def Let_def validate_splits_def split: option.splits if_splits)
qed

lemma create_transaction_Inl:
  "create_transaction np d inp s = (Inl e, d') \<Longrightarrow> d' = d"
  by (auto simp: create_transaction_def Let_def split: option.splits if_splits prod.splits)

lemma find_append_Some: "find P xs \<noteq> None \<Longrightarrow> find P (xs @ ys) \<noteq> None"
  by (induction xs) auto

lemma id_stored_iff: "id_stored d tid \<longleftrightarrow> tid \<in> t_id ` set (transactions d)"
  by (auto simp: id_stored_def get_transaction_def find_None_iff)

lemma hash_stored_iff:
  "hash_stored d a h \<longleftrightarrow> (\<exists>t \<in> set (transactions d). t_account_id t = a \<and> t_content_hash t = Some h)"
  by (auto simp: hash_stored_def existing_by_hash_def find_None_iff)

lemma loop_Cons_skip:
  "id_stored d (i_id r) \<or> hash_stored d a (record_hash lib a r) \<Longrightarrow>
   process_transactions_loop lib np a aty (r # rest) cnt d =
     process_transactions_loop lib np a aty rest cnt d"
  by (auto simp: id_stored_def hash_stored_def Let_def)

lemma loop_Cons_create:
  "\<not> id_stored d (i_id r) \<Longrightarrow> \<not> hash_stored d a (record_hash lib a r) \<Longrightarrow>
   process_transactions_loop lib np a aty (r # rest) cnt d =
     (case create_transaction np d
             (r\<lparr>i_account_id := a, i_content_hash := Some (record_hash lib a r)\<rparr>)
             (loop_suggestion d aty r) of
        (Inl e, d') \<Rightarrow> (Inl e, d')
      | (Inr created, d') \<Rightarrow> process_transactions_loop lib np a aty rest (Suc cnt) d')"
  by (simp add: id_stored_def hash_stored_def Let_def)

lemma loop_skip_all:
  "(\<And>r. r \<in> set txns \<Longrightarrow> id_stored d (i_id r) \<or> hash_stored d a (record_hash lib a r)) \<Longrightarrow>
   process_transactions_loop lib np a aty txns cnt d = (Inr cnt, d)"
proof (induction txns)
  case Nil
  then show ?case by simp
next
  case (Cons r txns)
  have "process_transactions_loop lib np a aty (r # txns) cnt d =
          process_transactions_loop lib np a aty txns cnt d"
    by (rule loop_Cons_skip) (simp add: Cons.prems)
  then show ?case using Cons by simp
qed

lemma id_stored_grows:
  "transactions d1 = transactions d @ new \<Longrightarrow> id_stored d tid \<Longrightarrow> id_stored d1 tid"
  by (auto simp: id_stored_iff)

lemma hash_stored_grows:
  "transactions d1 = transactions d @ new \<Longrightarrow> hash_stored d a h \<Longrightarrow> hash_stored d1 a h"
  by (auto simp: hash_stored_iff)

lemma loop_grows:
  assumes "process_transactions_loop lib np a aty txns cnt d = (res, d1)"
  shows "\<exists>new. transactions d1 = transactions d @ new"
  using assms
proof (induction txns arbitrary: cnt d)
  case Nil
  then show ?case by simp
next
  case (Cons r txns)
  show ?case
  proof (cases "id_stored d (i_id r) \<or> hash_stored d a (record_hash lib a r)")
    case True
    with Cons.prems have "process_transactions_loop lib np a aty txns cnt d = (res, d1)"
      by (simp only: loop_Cons_skip)
    from Cons.IH[OF this] show ?thesis .
  next
    case False
    let ?inp = "r\<lparr>i_account_id := a, i_content_hash := Some (record_hash lib a r)\<rparr>"
    obtain cr d' where c: "create_transaction np d ?inp (loop_suggestion d aty r) = (cr, d')"
      by (cases "create_transaction np d ?inp (loop_suggestion d aty r)")
    from False have "process_transactions_loop lib np a aty (r # txns) cnt d =
        (case create_transaction np d ?inp (loop_suggestion d aty r) of
           (Inl e, d') \<Rightarrow> (Inl e, d')
         | (Inr created, d') \<Rightarrow> process_transactions_loop lib np a aty txns (Suc cnt) d')"
      by (intro loop_Cons_create) simp_all
    with Cons.prems c
    have step: "(case cr of Inl e \<Rightarrow> (Inl e, d')
                 | Inr created \<Rightarrow> process_transactions_loop lib np a aty txns (Suc cnt) d') = (res, d1)"
      by (simp del: process_transactions_loop.simps)
    show ?thesis
    proof (cases cr)
      case (Inl e)
      with c have "d' = d" by (auto dest: create_transaction_Inl)
      moreover from step Inl have "d1 = d'" by simp
      ultimately show ?thesis by simp
    next
      case (Inr row)
      with c have tr: "transactions d' = transactions d @ [row]"
        by (auto dest: create_transaction_Inr)
      from step Inr
      have "process_transactions_loop lib np a aty txns (Suc cnt) d' = (res, d1)"
        by simp
      from Cons.IH[OF this] tr show ?thesis by auto
    qed
  qed
qed

lemma loop_known:
  assumes "process_transactions_loop lib np a aty txns cnt d = (Inr n, d1)"
  shows "\<forall>r \<in> set txns. id_stored d1 (i_id r) \<or> hash_stored d1 a (record_hash lib a r)"
  using assms
proof (induction txns arbitrary: cnt d)
  case Nil
  then show ?case by simp
next
  case (Cons r txns)
  show ?case
  proof (cases "id_stored d (i_id r) \<or> hash_stored d a (record_hash lib a r)")
    case True
    with Cons.prems have run: "process_transactions_loop lib np a aty txns cnt d = (Inr n, d1)"
      by (simp only: loop_Cons_skip)
    from loop_grows[OF run] obtain new where g: "transactions d1 = transactions d @ new" by blast
    from True have "id_stored d1 (i_id r) \<or> hash_stored d1 a (record_hash lib a r)"
      using id_stored_grows[OF g] hash_stored_grows[OF g] by blast
    with Cons.IH[OF run] show ?thesis by simp
  next
    case False
    let ?inp = "r\<lparr>i_account_id := a, i_content_hash := Some (record_hash lib a r)\<rparr>"
    obtain cr d' where c: "create_transaction np d ?inp (loop_suggestion d aty r) = (cr, d')"
      by (cases "create_transaction np d ?inp (loop_suggestion d aty r)")
    from False have "process_transactions_loop lib np a aty (r # txns) cnt d =
        (case create_transaction np d ?inp (loop_suggestion d aty r) of
           (Inl e, d') \<Rightarrow> (Inl e, d')
         | (Inr created, d') \<Rightarrow> process_transactions_loop lib np a aty txns (Suc cnt) d')"
      by (intro loop_Cons_create) simp_all
    with Cons.prems c
    have step: "(case cr of Inl e \<Rightarrow> (Inl e, d')
                 | Inr created \<Rightarrow> process_transactions_loop lib np a aty txns (Suc cnt) d') = (Inr n, d1)"
      by (simp del: process_transactions_loop.simps)
    show ?thesis
    proof (cases cr)
      case (Inl e)
      with step show ?thesis by simp
    next
      case (Inr row)
      with c have tr: "transactions d' = transactions d @ [row]" "t_id row = i_id r"
        by (auto dest: create_transaction_Inr)
      from step Inr
      have run: "process_transactions_loop lib np a aty txns (Suc cnt) d' = (Inr n, d1)"
        by simp
      from loop_grows[OF run] obtain new where g: "transactions d1 = transactions d' @ new" by blast
      have "id_stored d1 (i_id r)"
        using g tr by (auto simp: id_stored_iff)
      with Cons.IH[OF run] show ?thesis by simp
    qed
  qed
qed

lemma record_hash_same_content:
  "same_content r r' \<Longrightarrow> record_hash lib a r = record_hash lib a r'"
  by (simp add: same_content_def record_hash_def hash_posted_def)

lemma list_all2_right:
  "list_all2 P xs ys \<Longrightarrow> y \<in> set ys \<Longrightarrow> \<exists>x \<in> set xs. P x y"
  by (induction rule: list_all2_induct) auto

lemma id_hits_carry_hashD:
  "id_hits_carry_hash lib a d every \<Longrightarrow> r \<in> set every \<Longrightarrow> t \<in> set (transactions d) \<Longrightarrow>
   t_id t = i_id r \<Longrightarrow> t_account_id t = a \<and> t_content_hash t = Some (record_hash lib a r)"
  unfolding id_hits_carry_hash_def by blast

lemma same_id_same_hashD:
  "same_id_same_hash lib a every \<Longrightarrow> r \<in> set every \<Longrightarrow> r' \<in> set every \<Longrightarrow>
   i_id r = i_id r' \<Longrightarrow> record_hash lib a r = record_hash lib a r'"
  unfolding same_id_same_hash_def by blast

lemma loop_hash_covered:
  assumes "id_hits_carry_hash lib a d every" and "same_id_same_hash lib a every"
    and "set txns \<subseteq> set every"
    and "process_transactions_loop lib np a aty txns cnt d = (Inr n, d1)"
  shows "\<forall>r \<in> set txns. hash_stored d1 a (record_hash lib a r)"
  using assms(1,3,4)
proof (induction txns arbitrary: cnt d)
  case Nil
  then show ?case by simp
next
  case (Cons r txns)
  from Cons.prems(2) have r_in: "r \<in> set every" and sub: "set txns \<subseteq> set every" by auto
  show ?case
  proof (cases "id_stored d (i_id r) \<or> hash_stored d a (record_hash lib a r)")
    case True
    with Cons.prems(3) have run: "process_transactions_loop lib np a aty txns cnt d = (Inr n, d1)"
      by (simp only: loop_Cons_skip)
    from loop_grows[OF run] obtain new where g: "transactions d1 = transactions d @ new" by blast
    have "hash_stored d a (record_hash lib a r)"
    proof (cases "hash_stored d a (record_hash lib a r)")
      case True then show ?thesis .
    next
      case False
      with True have "id_stored d (i_id r)" by simp
      then obtain t where t: "t \<in> set (transactions d)" "t_id t = i_id r"
        by (auto simp: id_stored_iff)
      have "t_account_id t = a \<and> t_content_hash t = Some (record_hash lib a r)"
        by (rule id_hits_carry_hashD[OF Cons.prems(1) r_in t])
      with t show ?thesis by (auto simp: hash_stored_iff)
    qed
    then have "hash_stored d1 a (record_hash lib a r)"
      by (rule hash_stored_grows[OF g])
    with Cons.IH[OF Cons.prems(1) sub run] show ?thesis by simp
  next
    case False
    let ?inp = "r\<lparr>i_account_id := a, i_content_hash := Some (record_hash lib a r)\<rparr>"
    obtain cr d' where c: "create_transaction np d ?inp (loop_suggestion d aty r) = (cr, d')"
      by (cases "create_transaction np d ?inp (loop_suggestion d aty r)")
    from False have "process_transactions_loop lib np a aty (r # txns) cnt d =
        (case create_transaction np d ?inp (loop_suggestion d aty r) of
           (Inl e, d') \<Rightarrow> (Inl e, d')
         | (Inr created, d') \<Rightarrow> process_transactions_loop lib np a aty txns (Suc cnt) d')"
      by (intro loop_Cons_create) simp_all
    with Cons.prems(3) c
    have step: "(case cr of Inl e \<Rightarrow> (Inl e, d')
                 | Inr created \<Rightarrow> process_transactions_loop lib np a aty txns (Suc cnt) d') = (Inr n, d1)"
      by (simp del: process_transactions_loop.simps)
    show ?thesis
    proof (cases cr)
      case (Inl e)
      with step show ?thesis by simp
    next
      case (Inr row)
      with c have row: "transactions d' = transactions d @ [row]" "t_id row = i_id r"
        "t_account_id row = a" "t_content_hash row = Some (record_hash lib a r)"
        by (auto dest: create_transaction_Inr)
      from step Inr
      have run: "process_transactions_loop lib np a aty txns (Suc cnt) d' = (Inr n, d1)"
        by simp
      have inv': "id_hits_carry_hash lib a d' every"
        unfolding id_hits_carry_hash_def
      proof (intro ballI impI)
        fix r' t assume a: "r' \<in> set every" "t \<in> set (transactions d')" "t_id t = i_id r'"
        show "t_account_id t = a \<and> t_content_hash t = Some (record_hash lib a r')"
        proof (cases "t \<in> set (transactions d)")
          case True
          show ?thesis by (rule id_hits_carry_hashD[OF Cons.prems(1) a(1) True a(3)])
        next
          case False
          with a row have "t = row" by simp
          moreover from this a row have "i_id r' = i_id r" by simp
          then have "record_hash lib a r' = record_hash lib a r"
            by (rule same_id_same_hashD[OF assms(2) a(1) r_in])
          ultimately show ?thesis using row by simp
        qed
      qed
      from loop_grows[OF run] obtain new where g: "transactions d1 = transactions d' @ new" by blast
      have "hash_stored d' a (record_hash lib a r)"
        using row by (auto simp: hash_stored_iff)
      then have "hash_stored d1 a (record_hash lib a r)"
        by (rule hash_stored_grows[OF g])
      with Cons.IH[OF inv' sub run] show ?thesis by simp
    qed
  qed
qed

lemmas ingest_eval_defs =
  process_transactions_def get_account_def get_transaction_def existing_by_hash_def
  create_transaction_def resolve_payee_def validate_splits_def new_splits_def dec_value_def dec_abs_def
  Let_def

text \<open>
  C2 (idempotent re-ingestion), with the condition the changed-id case needs. After a
  run of \<open>process_transactions\<close> that returned, a second run on the same list creates
  nothing, returns 0 and leaves the database as the first run left it. A second
  delivery of the same records (same account, posted, amount and description) under
  other ids also creates nothing and returns 0, provided that before the first run
  every stored transaction with the id of a delivered record belonged to the account
  and carried the record's content hash, and that records of the delivery with the same
  id have the same content hash.
\<close>

theorem process_transactions_idempotent:
  assumes "process_transactions lib np d txns a = (Inr n, d1)"
  shows "process_transactions lib np d1 txns a = (Inr 0, d1)
     \<and> (id_hits_carry_hash lib a d txns \<and> same_id_same_hash lib a txns
          \<and> list_all2 same_content txns txns'
        \<longrightarrow> process_transactions lib np d1 txns' a = (Inr 0, d1))"
proof (intro conjI impI)
  let ?aty = "case get_account d a of Some acc \<Rightarrow> a_account_type acc | None \<Rightarrow> None"
  from assms have run: "process_transactions_loop lib np a ?aty txns 0 d = (Inr n, d1)"
    by (simp add: process_transactions_def)
  from loop_known[OF run]
  show "process_transactions lib np d1 txns a = (Inr 0, d1)"
    by (simp add: process_transactions_def loop_skip_all)
  assume h: "id_hits_carry_hash lib a d txns \<and> same_id_same_hash lib a txns
          \<and> list_all2 same_content txns txns'"
  then have h1: "id_hits_carry_hash lib a d txns" and h2: "same_id_same_hash lib a txns"
    and h3: "list_all2 same_content txns txns'"
    by simp_all
  have cov: "\<forall>r \<in> set txns. hash_stored d1 a (record_hash lib a r)"
    by (rule loop_hash_covered[OF h1 h2 subset_refl run])
  have "\<And>r'. r' \<in> set txns' \<Longrightarrow> hash_stored d1 a (record_hash lib a r')"
  proof -
    fix r' assume "r' \<in> set txns'"
    with list_all2_right[OF h3] obtain r where r: "r \<in> set txns" "same_content r r'"
      by blast
    from cov r(1) have "hash_stored d1 a (record_hash lib a r)" by simp
    with record_hash_same_content[OF r(2), of lib a]
    show "hash_stored d1 a (record_hash lib a r')" by simp
  qed
  then show "process_transactions lib np d1 txns' a = (Inr 0, d1)"
    by (simp add: process_transactions_def loop_skip_all)
qed

theorem process_transactions_idempotent_witness:
  "process_transactions example_lib keep_payee example_db [coffee ''tx-1''] ''acc-1''
     = (Inr 1, synced_db)
   \<and> process_transactions example_lib keep_payee synced_db [coffee ''tx-1''] ''acc-1''
     = (Inr 0, synced_db)
   \<and> id_hits_carry_hash example_lib ''acc-1'' synced_db [coffee ''tx-1'']
   \<and> same_id_same_hash example_lib ''acc-1'' [coffee ''tx-1'']
   \<and> list_all2 same_content [coffee ''tx-1''] [coffee ''tx-9'']
   \<and> process_transactions example_lib keep_payee synced_db [coffee ''tx-9''] ''acc-1''
     = (Inr 0, synced_db)"
proof -
  have first: "process_transactions example_lib keep_payee example_db [coffee ''tx-1''] ''acc-1''
     = (Inr 1, synced_db)"
    by (simp add: ingest_eval_defs synced_db_def example_db_def coffee_def coffee_row_def)
  have again: "process_transactions example_lib keep_payee synced_db [coffee ''tx-1''] ''acc-1''
     = (Inr 0, synced_db)"
    using process_transactions_idempotent[OF first] by simp
  have h1: "id_hits_carry_hash example_lib ''acc-1'' synced_db [coffee ''tx-1'']"
    by (simp add: id_hits_carry_hash_def synced_db_def example_db_def coffee_row_def)
  have h2: "same_id_same_hash example_lib ''acc-1'' [coffee ''tx-1'']"
    by (simp add: same_id_same_hash_def)
  have h3: "list_all2 same_content [coffee ''tx-1''] [coffee ''tx-9'']"
    by (simp add: same_content_def coffee_def)
  from process_transactions_idempotent[OF again, of "[coffee ''tx-9'']"] h1 h2 h3
  have "process_transactions example_lib keep_payee synced_db [coffee ''tx-9''] ''acc-1''
     = (Inr 0, synced_db)"
    by simp
  with first again h1 h2 h3 show ?thesis by simp
qed

text \<open>
  Without the condition the changed-id case fails. In \<open>manual_db\<close> the transaction
  \<open>tx-1\<close> is stored without a content hash (as \<open>create_transaction\<close> stores a transaction
  entered through the API). The delivery of \<open>tx-1\<close> is skipped by its id and creates
  nothing; the same record delivered as \<open>tx-9\<close> is found neither by id nor by hash and is
  stored a second time.
\<close>

theorem process_transactions_changed_id_counterexample:
  "process_transactions example_lib keep_payee manual_db [coffee ''tx-1''] ''acc-1''
     = (Inr 0, manual_db)
   \<and> same_content (coffee ''tx-1'') (coffee ''tx-9'')
   \<and> fst (process_transactions example_lib keep_payee manual_db [coffee ''tx-9''] ''acc-1'') = Inr 1
   \<and> map t_id (transactions
        (snd (process_transactions example_lib keep_payee manual_db [coffee ''tx-9''] ''acc-1'')))
      = [''tx-1'', ''tx-9'']"
  by (simp add: ingest_eval_defs manual_db_def example_db_def coffee_def coffee_row_def
        same_content_def)

section \<open>ContentHasher\<close>

text \<open>
  The digest has 64 characters, each a lowercase hexadecimal digit, whatever the message;
  and the model of SHA-256 gives the digests \<open>hashlib\<close> gives.
\<close>

lemma hex_digit_in: "hex_digit n \<in> set ''0123456789abcdef''"
proof -
  have "n mod 16 < length ''0123456789abcdef''" by simp
  then show ?thesis unfolding hex_digit_def by (rule nth_mem)
qed

lemma length_hex8: "length (hex8 x) = 8"
  by (simp add: hex8_def)

lemma set_hex8: "set (hex8 x) \<subseteq> set ''0123456789abcdef''"
  unfolding hex8_def set_map using hex_digit_in by blast

lemma length_hex_state: "length (hex_state st) = 64"
  by (induction st rule: hex_state.induct) (simp add: length_hex8)

lemma set_hex_state: "set (hex_state st) \<subseteq> set ''0123456789abcdef''"
proof (induction st rule: hex_state.induct)
  case (1 a b c d e f g h)
  show ?case
    using set_hex8[of a] set_hex8[of b] set_hex8[of c] set_hex8[of d]
      set_hex8[of e] set_hex8[of f] set_hex8[of g] set_hex8[of h]
    by (simp only: hex_state.simps set_append Un_subset_iff)
qed

lemma sha256_hexdigest_shape:
  "length (sha256_hexdigest s) = 64 \<and> set (sha256_hexdigest s) \<subseteq> set ''0123456789abcdef''"
  by (simp only: sha256_hexdigest_def length_hex_state set_hex_state simp_thms)

lemma sha256_hexdigest_abc:
  "sha256_hexdigest ''abc'' = ''ba7816bf8f01cfea414140de5dae2223b00361a396177a9cb410ff61f20015ad''"
  by code_simp

text \<open>
  The conversion to \<open>float\<close> on examples: \<open>float(Decimal("0.1"))\<close> is the binary64 number
  \<open>3602879701896397 / 2^55\<close>, a decimal of twenty digits close to it gives the same number,
  \<open>12.50\<close> and \<open>12.5\<close> give \<open>12.5\<close>, and the zeros keep their sign.
\<close>

lemma round_finite_examples:
  "round_finite (1 / 10) = 3602879701896397 / 36028797018963968
   \<and> round_finite (2000000000000000011 / 20000000000000000000)
       = 3602879701896397 / 36028797018963968
   \<and> round_finite (25 / 2) = 25 / 2
   \<and> round_finite (4 / 5) = 3602879701896397 / 4503599627370496
   \<and> round_finite (3 / 5) = 5404319552844595 / 9007199254740992"
  by code_simp

lemma float_of_decimal_examples:
  "float_of_decimal \<lparr>dec_sign = False, dec_coeff = 1, dec_exp = -1\<rparr>
     = Finite False (3602879701896397 / 36028797018963968)
   \<and> float_of_decimal \<lparr>dec_sign = False, dec_coeff = 10000000000000000055, dec_exp = -20\<rparr>
     = Finite False (3602879701896397 / 36028797018963968)
   \<and> float_of_decimal \<lparr>dec_sign = False, dec_coeff = 1250, dec_exp = -2\<rparr> = Finite False (25 / 2)
   \<and> float_of_decimal \<lparr>dec_sign = False, dec_coeff = 125, dec_exp = -1\<rparr> = Finite False (25 / 2)
   \<and> float_of_decimal \<lparr>dec_sign = True, dec_coeff = 0, dec_exp = -2\<rparr> = Finite True 0
   \<and> float_of_decimal \<lparr>dec_sign = False, dec_coeff = 0, dec_exp = -2\<rparr> = Finite False 0"
  using round_finite_examples
  by (simp add: float_of_decimal_def dec_abs_def pow2_def round_finite_def)

lemma float_of_decimal_formatting:
  "dec_sign amt = dec_sign amt' \<Longrightarrow> dec_value amt = dec_value amt' \<Longrightarrow>
   float_of_decimal amt = float_of_decimal amt'"
proof -
  assume s: "dec_sign amt = dec_sign amt'" and v: "dec_value amt = dec_value amt'"
  then have "dec_abs amt = dec_abs amt'"
    by (simp add: dec_value_def split: if_splits)
  with s show ?thesis by (simp add: float_of_decimal_def Let_def)
qed

lemma example_sig:
  "transaction_sig example_lib ''acc-1'' (Some 1700000000)
     \<lparr>dec_sign = False, dec_coeff = 1250, dec_exp = -2\<rparr> (Some ''Coffee'')
     = ''acc-1:2023-11-14T22:13:20+00:00:12.5:Coffee''"
  using float_of_decimal_examples by (simp add: transaction_sig_def example_lib_def)

lemma example_digest:
  "sha256_hexdigest ''acc-1:2023-11-14T22:13:20+00:00:12.5:Coffee''
     = ''d63a6fa7fe7de45b983c6d1976787c1915dd136160d4aa44fffc007ea807aac8''"
  by code_simp

text \<open>
  C10 (hash stability), for amounts of one sign. \<open>compute_transaction_hash\<close> reads no state:
  it is a function of its arguments, and the digest is 64 hexadecimal characters. Two
  calls whose amounts have the same sign and the same numeric value (they differ in the
  trailing zeros of the decimal only, as \<open>12.50\<close> and \<open>12.5\<close>), and whose descriptions are
  equal or missing and empty, give the same digest: the signature string holds
  \<open>float(amount)\<close>, a binary floating-point number, and \<open>description or ''\<close>.
\<close>

theorem compute_transaction_hash_stable:
  "length (compute_transaction_hash lib a p amt d) = 64
   \<and> set (compute_transaction_hash lib a p amt d) \<subseteq> set ''0123456789abcdef''
   \<and> (dec_sign amt = dec_sign amt' \<and> dec_value amt = dec_value amt'
        \<and> (case d of Some x \<Rightarrow> x | None \<Rightarrow> []) = (case d' of Some x \<Rightarrow> x | None \<Rightarrow> [])
      \<longrightarrow> compute_transaction_hash lib a p amt d = compute_transaction_hash lib a p amt' d')"
  using sha256_hexdigest_shape float_of_decimal_formatting [of amt amt']
  by (simp add: compute_transaction_hash_def transaction_sig_def)

theorem compute_transaction_hash_stable_witness:
  "dec_sign \<lparr>dec_sign = False, dec_coeff = 1250, dec_exp = -2\<rparr>
     = dec_sign \<lparr>dec_sign = False, dec_coeff = 125, dec_exp = -1\<rparr>
   \<and> dec_value \<lparr>dec_sign = False, dec_coeff = 1250, dec_exp = -2\<rparr>
     = dec_value \<lparr>dec_sign = False, dec_coeff = 125, dec_exp = -1\<rparr>
   \<and> compute_transaction_hash example_lib ''acc-1'' (Some 1700000000)
        \<lparr>dec_sign = False, dec_coeff = 1250, dec_exp = -2\<rparr> (Some ''Coffee'')
     = ''d63a6fa7fe7de45b983c6d1976787c1915dd136160d4aa44fffc007ea807aac8''
   \<and> compute_transaction_hash example_lib ''acc-1'' (Some 1700000000)
        \<lparr>dec_sign = False, dec_coeff = 125, dec_exp = -1\<rparr> (Some ''Coffee'')
     = ''d63a6fa7fe7de45b983c6d1976787c1915dd136160d4aa44fffc007ea807aac8''"
proof -
  have v: "dec_value \<lparr>dec_sign = False, dec_coeff = 1250, dec_exp = -2\<rparr>
             = dec_value \<lparr>dec_sign = False, dec_coeff = 125, dec_exp = -1\<rparr>"
    by (simp add: dec_value_def dec_abs_def)
  have h: "compute_transaction_hash example_lib ''acc-1'' (Some 1700000000)
        \<lparr>dec_sign = False, dec_coeff = 1250, dec_exp = -2\<rparr> (Some ''Coffee'')
     = ''d63a6fa7fe7de45b983c6d1976787c1915dd136160d4aa44fffc007ea807aac8''"
    by (simp only: compute_transaction_hash_def example_sig example_digest)
  from compute_transaction_hash_stable[of example_lib "''acc-1''" "Some 1700000000"
         "\<lparr>dec_sign = False, dec_coeff = 1250, dec_exp = -2\<rparr>" "Some ''Coffee''"
         "\<lparr>dec_sign = False, dec_coeff = 125, dec_exp = -1\<rparr>" "Some ''Coffee''"] v
  have "compute_transaction_hash example_lib ''acc-1'' (Some 1700000000)
        \<lparr>dec_sign = False, dec_coeff = 1250, dec_exp = -2\<rparr> (Some ''Coffee'')
     = compute_transaction_hash example_lib ''acc-1'' (Some 1700000000)
        \<lparr>dec_sign = False, dec_coeff = 125, dec_exp = -1\<rparr> (Some ''Coffee'')"
    by simp
  with v h show ?thesis by simp
qed

text \<open>
  The claim as stated covers every difference of decimal formatting that leaves the
  amount the same. \<open>Decimal("-0.00")\<close> and \<open>Decimal("0.00")\<close> have the same numeric value,
  and \<open>float\<close> keeps the sign of the zero: the signature strings hold \<open>-0.0\<close> and \<open>0.0\<close>, and
  the digests differ.
\<close>

lemma zero_sigs:
  "transaction_sig example_lib ''acc-1'' (Some 1700000000)
     \<lparr>dec_sign = True, dec_coeff = 0, dec_exp = -2\<rparr> (Some ''Coffee'')
     = ''acc-1:2023-11-14T22:13:20+00:00:-0.0:Coffee''
   \<and> transaction_sig example_lib ''acc-1'' (Some 1700000000)
     \<lparr>dec_sign = False, dec_coeff = 0, dec_exp = -2\<rparr> (Some ''Coffee'')
     = ''acc-1:2023-11-14T22:13:20+00:00:0.0:Coffee''"
  using float_of_decimal_examples by (simp add: transaction_sig_def example_lib_def)

lemma zero_digests:
  "sha256_hexdigest ''acc-1:2023-11-14T22:13:20+00:00:-0.0:Coffee''
     = ''6046bea635505fa6c7ed9ea5a20fb2662c1c95a8f4e494239d599ed4c7d79bab''
   \<and> sha256_hexdigest ''acc-1:2023-11-14T22:13:20+00:00:0.0:Coffee''
     = ''eb51a0e87f019f0dd0ba3dc4976a0fb1371dcf22adf2db8250dca9416a56d688''"
  by code_simp

theorem compute_transaction_hash_signed_zero:
  "dec_value \<lparr>dec_sign = True, dec_coeff = 0, dec_exp = -2\<rparr>
     = dec_value \<lparr>dec_sign = False, dec_coeff = 0, dec_exp = -2\<rparr>
   \<and> compute_transaction_hash example_lib ''acc-1'' (Some 1700000000)
        \<lparr>dec_sign = True, dec_coeff = 0, dec_exp = -2\<rparr> (Some ''Coffee'')
     = ''6046bea635505fa6c7ed9ea5a20fb2662c1c95a8f4e494239d599ed4c7d79bab''
   \<and> compute_transaction_hash example_lib ''acc-1'' (Some 1700000000)
        \<lparr>dec_sign = False, dec_coeff = 0, dec_exp = -2\<rparr> (Some ''Coffee'')
     = ''eb51a0e87f019f0dd0ba3dc4976a0fb1371dcf22adf2db8250dca9416a56d688''
   \<and> compute_transaction_hash example_lib ''acc-1'' (Some 1700000000)
        \<lparr>dec_sign = True, dec_coeff = 0, dec_exp = -2\<rparr> (Some ''Coffee'')
     \<noteq> compute_transaction_hash example_lib ''acc-1'' (Some 1700000000)
        \<lparr>dec_sign = False, dec_coeff = 0, dec_exp = -2\<rparr> (Some ''Coffee'')"
  using zero_sigs zero_digests
  by (simp add: compute_transaction_hash_def dec_value_def dec_abs_def)

section \<open>SyncOrchestrator\<close>

lemma empties_two: "empties f e s n < 2 \<longleftrightarrow> \<not> two_empty f e s n"
  by (auto simp: empties_def two_empty_def)

lemma empties_Suc:
  assumes "empties f e s n < 2"
  shows "empties f e s (Suc n) = (if step_result f e s n = Inr 0 then empties f e s n + 1 else 0)"
proof (cases n)
  case 0
  then show ?thesis by (simp add: empties_def)
next
  case (Suc j)
  with assms show ?thesis
    by (auto simp: empties_def numeral_2_eq_2 split: if_splits)
qed

lemma walk_back_from:
  assumes zero: "\<forall>k\<ge>K. step_result f e s k = Inr 0"
    and before: "\<forall>k<n. \<not> stops_at f mx e s k \<and> (\<exists>c. step_result f e s k = Inr c)"
    and fuel: "K + 2 - n \<le> j"
  shows "\<exists>r m. initial_sync_loop f mx (e - int n) (empties f e s n) n (state_after f e s n) = Some r
           \<and> stopped f mx e s (max n (K + 2)) m r"
  using before fuel
proof (induction j arbitrary: n)
  case 0
  then have "K + 2 \<le> n" by simp
  with zero have te: "two_empty f e s n" by (simp add: two_empty_def)
  then have "\<not> empties f e s n < 2" by (simp add: empties_two)
  then have "initial_sync_loop f mx (e - int n) (empties f e s n) n (state_after f e s n)
               = Some (Inr n, state_after f e s n)"
    by (subst initial_sync_loop.simps) simp
  moreover have "stopped f mx e s (max n (K + 2)) n (Inr n, state_after f e s n)"
    using "0.prems"(1) te by (simp add: stopped_def stops_at_def)
  ultimately show ?case by blast
next
  case (Suc j)
  show ?case
  proof (cases "stops_at f mx e s n")
    case True
    have "initial_sync_loop f mx (e - int n) (empties f e s n) n (state_after f e s n)
               = Some (Inr n, state_after f e s n)"
    proof (cases "two_empty f e s n")
      case True
      then have "\<not> empties f e s n < 2" by (simp add: empties_two)
      then show ?thesis by (subst initial_sync_loop.simps) simp
    next
      case False
      with True have "max_reached mx n" by (simp add: stops_at_def)
      then show ?thesis by (subst initial_sync_loop.simps) simp
    qed
    moreover have "stopped f mx e s (max n (K + 2)) n (Inr n, state_after f e s n)"
      using Suc.prems(1) True by (simp add: stopped_def)
    ultimately show ?thesis by blast
  next
    case False
    then have lt: "empties f e s n < 2" and nm: "\<not> max_reached mx n"
      by (simp_all add: stops_at_def empties_two)
    obtain res s' where step: "f (e - int n - 1) (e - int n) (state_after f e s n) = (res, s')"
      by (cases "f (e - int n - 1) (e - int n) (state_after f e s n)")
    then have sr: "step_result f e s n = res" and sa: "state_after f e s (Suc n) = s'"
      by (simp_all add: step_result_def)
    show ?thesis
    proof (cases res)
      case (Inl err)
      have "initial_sync_loop f mx (e - int n) (empties f e s n) n (state_after f e s n)
               = Some (Inl err, s')"
        using lt nm step Inl by (subst initial_sync_loop.simps) simp
      moreover have "stopped f mx e s (max n (K + 2)) n (Inl err, s')"
        using Suc.prems(1) False sr sa Inl by (simp add: stopped_def)
      ultimately show ?thesis by blast
    next
      case (Inr c)
      have unfold: "initial_sync_loop f mx (e - int n) (empties f e s n) n (state_after f e s n)
               = initial_sync_loop f mx (e - int (Suc n)) (empties f e s (Suc n)) (Suc n)
                   (state_after f e s (Suc n))"
        using lt nm step Inr sr sa empties_Suc[OF lt]
        by (subst initial_sync_loop.simps) (simp add: algebra_simps)
      have before': "\<forall>k<Suc n. \<not> stops_at f mx e s k \<and> (\<exists>c. step_result f e s k = Inr c)"
        using Suc.prems(1) False sr Inr by (auto simp: less_Suc_eq)
      have fuel': "K + 2 - Suc n \<le> j" using Suc.prems(2) by simp
      from Suc.IH[OF before' fuel'] obtain r m where
        r: "initial_sync_loop f mx (e - int (Suc n)) (empties f e s (Suc n)) (Suc n)
              (state_after f e s (Suc n)) = Some r"
        and st: "stopped f mx e s (max (Suc n) (K + 2)) m r"
        by blast
      have nK: "n < K + 2"
      proof (rule ccontr)
        assume "\<not> n < K + 2"
        then have "K + 2 \<le> n" by simp
        with zero have "two_empty f e s n" by (simp add: two_empty_def)
        with False show False by (simp add: stops_at_def)
      qed
      then have "max (Suc n) (K + 2) = max n (K + 2)" by simp
      with st unfold r show ?thesis by auto
    qed
  qed
qed

text \<open>
  C7 (initial-sync termination), for a maximum that is not 0. If every fetch of a month
  that starts before some bound processes no transactions, the walk-back terminates, after
  at most two steps more than the months between the bound and the current month. It ends
  at the first step at which the two steps before it both processed nothing or a
  configured non-zero maximum is reached, whichever comes first, unless a fetch raises
  before, which ends it with that error.
\<close>

theorem process_initial_sync_terminates:
  assumes "\<forall>start s. start < bound \<longrightarrow> fst (sync_range start (start + 1) s) = Inr 0"
  shows "\<exists>r m. process_initial_sync sync_range max_months now_month s0 = Some r
           \<and> stopped sync_range max_months now_month s0 (nat (now_month - bound) + 2) m r"
proof -
  let ?K = "nat (now_month - bound)"
  have zero: "\<forall>k\<ge>?K. step_result sync_range now_month s0 k = Inr 0"
  proof (intro allI impI)
    fix k assume "?K \<le> k"
    then have "now_month - int k - 1 < bound" by simp
    with assms have "fst (sync_range (now_month - int k - 1) (now_month - int k - 1 + 1)
                       (state_after sync_range now_month s0 k)) = Inr 0"
      by blast
    then show "step_result sync_range now_month s0 k = Inr 0"
      by (simp add: step_result_def)
  qed
  have e0: "empties sync_range now_month s0 0 = 0" by (simp add: empties_def)
  from walk_back_from[OF zero, of 0 max_months "?K + 2"]
  show ?thesis by (simp add: process_initial_sync_def e0)
qed

theorem process_initial_sync_terminates_witness:
  "\<not> (\<exists>start s. start < 24300 \<and> fst (three_months start (start + 1) s) \<noteq> Inr 0)
   \<and> (\<exists>r m. process_initial_sync three_months None 24303 0 = Some r
          \<and> stopped three_months None 24303 0 5 m r)
   \<and> process_initial_sync three_months None 24303 0 = Some (Inr 5, 15)
   \<and> process_initial_sync three_months (Some 2) 24303 0 = Some (Inr 2, 10)"
proof -
  have h: "\<forall>start s. start < 24300 \<longrightarrow> fst (three_months start (start + 1) s) = Inr 0"
    by (simp add: three_months_def)
  from process_initial_sync_terminates[where bound = 24300 and sync_range = three_months
         and max_months = None and now_month = 24303 and ?s0.0 = "0::nat"] h
  have a: "\<exists>r m. process_initial_sync three_months None 24303 0 = Some r
          \<and> stopped three_months None 24303 0 5 m r"
    by simp
  have b: "process_initial_sync three_months None 24303 0 = Some (Inr 5, 15)"
    by (simp add: process_initial_sync_def initial_sync_loop.simps three_months_def max_reached_def)
  have c: "process_initial_sync three_months (Some 2) 24303 0 = Some (Inr 2, 10)"
    by (simp add: process_initial_sync_def initial_sync_loop.simps three_months_def max_reached_def)
  from h a b c show ?thesis by simp
qed

text \<open>
  A configured maximum of 0 is reached before the first step, and the walk does not stop
  there: \<open>if INITIAL_SYNC_MAX_MONTHS and ...\<close> takes 0 for no maximum, and the walk runs its
  five months.
\<close>

theorem process_initial_sync_zero_maximum:
  "process_initial_sync three_months (Some 0) 24303 0 = Some (Inr 5, 15)
   \<and> int 0 \<ge> 0"
  by (simp add: process_initial_sync_def initial_sync_loop.simps three_months_def max_reached_def)

section \<open>IngestionWriter: accounts\<close>

text \<open>
  A record without an \<open>account_type\<close> entry (the aggregator sends none) never changes a
  stored account type, and the accounts it creates have none: after \<open>process_accounts\<close>
  the account types are those of before, followed by \<open>None\<close> for every new account.
\<close>

lemma validate_account_update_type:
  "validate_account_update acct = Inr upd \<Longrightarrow> acct ''account_type'' = None \<Longrightarrow>
   au_account_type upd = None"
  by (auto simp: validate_account_update_def split: option.splits)

lemma validate_account_create_type:
  "validate_account_create acct = Inr data \<Longrightarrow> acct ''account_type'' = None \<Longrightarrow>
   ac_account_type data = None"
  by (auto simp: validate_account_create_def split: option.splits)

lemma apply_account_update_type:
  "a_account_type (apply_account_update upd a) =
     (case au_account_type upd of Some v \<Rightarrow> v | None \<Rightarrow> a_account_type a)"
  by (simp add: apply_account_update_def Let_def split: option.splits)

lemma recategorize_accounts:
  "accounts (recategorize_payees_for_loan_account d a) = accounts d"
  by (simp add: recategorize_payees_for_loan_account_def Let_def)

lemma update_account_types:
  assumes "au_account_type upd = None" and "update_account d aid upd = (r, d')"
  shows "map a_account_type (accounts d') = map a_account_type (accounts d)"
proof (cases "get_account d aid")
  case None
  with assms show ?thesis by (simp add: update_account_def)
next
  case (Some account)
  have "map a_account_type
          (map (\<lambda>a. if a_id a = aid then apply_account_update upd a else a) (accounts d))
        = map a_account_type (accounts d)"
    using assms(1) by (induction "accounts d") (auto simp: apply_account_update_type)
  with Some assms show ?thesis
    by (auto simp: update_account_def Let_def recategorize_accounts split: if_splits)
qed

lemma create_account_types:
  assumes "ac_account_type data = None" and "create_account now d data = (r, d')"
  shows "\<exists>k. map a_account_type (accounts d') = map a_account_type (accounts d) @ replicate k None"
proof (cases "get_account d (ac_id data) \<noteq> None")
  case True
  with assms have "d' = d" by (auto simp: create_account_def)
  then show ?thesis by (intro exI[of _ 0]) simp
next
  case False
  with assms have "map a_account_type (accounts d') = map a_account_type (accounts d) @ replicate 1 None"
    by (auto simp: create_account_def Let_def)
  then show ?thesis by blast
qed

lemma process_account_types:
  assumes "acct ''account_type'' = None" and "process_account now d acct org = (r, d')"
  shows "\<exists>k. map a_account_type (accounts d') = map a_account_type (accounts d) @ replicate k None"
proof -
  let ?acct = "acct(''org_id'' \<mapsto> JStr org)"
  have no1: "?acct ''account_type'' = None" using assms(1) by simp
  have no2: "(?acct(''created_at'' \<mapsto> JNum (of_int now))) ''account_type'' = None"
    using assms(1) by simp
  have same: "d' = d \<Longrightarrow> ?thesis" by (intro exI[of _ 0]) simp
  show ?thesis
  proof (cases "?acct ''id''")
    case None
    with assms(2) show ?thesis by (intro same) (simp add: process_account_def)
  next
    case (Some idv)
    show ?thesis
    proof (cases "validate_account_create ?acct")
      case (Inl e)
      with Some assms(2) show ?thesis by (intro same) (simp add: process_account_def)
    next
      case (Inr data)
      let ?existing = "get_accounts d (ac_id data)"
      let ?cls = "if ?existing = [] \<or> a_account_type (hd ?existing) = None
                  then classify_account ?acct else Inr None"
      show ?thesis
      proof (cases ?cls)
        case (Inl e)
        with Some Inr assms(2) show ?thesis
          by (intro same) (simp add: process_account_def Let_def)
      next
        case cls: (Inr ty)
        show ?thesis
        proof (cases "?existing \<noteq> []")
          case True
          show ?thesis
          proof (cases "validate_account_update ?acct")
            case (Inl e)
            with Some Inr cls True assms(2) show ?thesis
              by (intro same) (simp add: process_account_def Let_def)
          next
            case upd: (Inr upd)
            obtain r1 d1 where u: "update_account d (ac_id data) upd = (r1, d1)"
              by (cases "update_account d (ac_id data) upd")
            have "d' = d1"
              using Some Inr cls True upd u assms(2)
              by (cases r1) (simp_all add: process_account_def Let_def)
            with update_account_types[OF validate_account_update_type[OF upd no1] u]
            show ?thesis by (intro exI[of _ 0]) simp
          qed
        next
          case False
          show ?thesis
          proof (cases "validate_account_create (?acct(''created_at'' \<mapsto> JNum (of_int now)))")
            case (Inl e)
            with Some Inr cls False assms(2) show ?thesis
              by (intro same) (simp add: process_account_def Let_def)
          next
            case d2: (Inr data2)
            obtain r1 d1 where c: "create_account now d data2 = (r1, d1)"
              by (cases "create_account now d data2")
            have "d' = d1"
              using Some Inr cls False d2 c assms(2)
              by (cases r1) (simp_all add: process_account_def Let_def)
            with create_account_types[OF validate_account_create_type[OF d2 no2] c]
            show ?thesis by simp
          qed
        qed
      qed
    qed
  qed
qed

lemma process_accounts_never_classify:
  assumes "\<forall>acct \<in> set accts. acct ''account_type'' = None"
    and "process_accounts now d accts org = (r, d')"
  shows "\<exists>k. map a_account_type (accounts d') = map a_account_type (accounts d) @ replicate k None"
  using assms
proof (induction accts arbitrary: d)
  case Nil
  then show ?case by (intro exI[of _ 0]) simp
next
  case (Cons acct rest)
  obtain r1 d1 where p: "process_account now d acct org = (r1, d1)"
    by (cases "process_account now d acct org")
  from Cons.prems(1) have "acct ''account_type'' = None" by simp
  from process_account_types[OF this p] obtain k1 where
    k1: "map a_account_type (accounts d1) = map a_account_type (accounts d) @ replicate k1 None"
    by blast
  show ?case
  proof (cases r1)
    case (Inl e)
    with p Cons.prems(2) have "d' = d1" by simp
    with k1 show ?thesis by blast
  next
    case (Inr u)
    with p Cons.prems(2) have "process_accounts now d1 rest org = (r, d')" by simp
    moreover from Cons.prems(1) have "\<forall>acct \<in> set rest. acct ''account_type'' = None" by simp
    ultimately obtain k2 where
      "map a_account_type (accounts d') = map a_account_type (accounts d1) @ replicate k2 None"
      using Cons.IH by blast
    with k1 have "map a_account_type (accounts d') =
        map a_account_type (accounts d) @ replicate (k1 + k2) None"
      by (simp add: replicate_add)
    then show ?thesis by blast
  qed
qed

text \<open>
  C9 (classification-application invariant). A stored account type is kept (the lemma
  above), but an unset one does not receive the classifier's result. For the new account
  \<open>acc-7\<close> and for the stored account \<open>acc-new\<close>, whose type is unset, the classifier gives
  \<open>bank\<close>; after \<open>process_accounts\<close> both have no account type.
\<close>

theorem process_accounts_drops_classification:
  "classify_account (new_checking_record(''org_id'' \<mapsto> JStr ''org-1'')) = Inr (Some bank)
   \<and> get_account example_db ''acc-7'' = None
   \<and> fst (process_accounts 1710000000 example_db [new_checking_record] ''org-1'') = Inr ()
   \<and> map (\<lambda>a. (a_id a, a_account_type a))
        (accounts (snd (process_accounts 1710000000 example_db [new_checking_record] ''org-1'')))
      = [(''acc-1'', Some bank), (''acc-7'', None)]
   \<and> classify_account (acc_new_record(''org_id'' \<mapsto> JStr ''org-1'')) = Inr (Some bank)
   \<and> map_option a_account_type (get_account merge_db ''acc-new'') = Some None
   \<and> fst (process_accounts 1710000000 merge_db [acc_new_record] ''org-1'') = Inr ()
   \<and> map (\<lambda>a. (a_id a, a_account_type a))
        (accounts (snd (process_accounts 1710000000 merge_db [acc_new_record] ''org-1'')))
      = [(''acc-old'', Some bank), (''acc-new'', None), (''acc-sav'', Some bank)]"
  by code_simp

section \<open>DuplicateAccountDetector\<close>

text \<open>The groups: every key that two or more accounts share is visited once.\<close>

lemma rearranges_set: "rearranges f \<Longrightarrow> set (f xs) = set xs"
  unfolding rearranges_def by (metis mset_eq_setD)

lemma rearranges_distinct: "rearranges f \<Longrightarrow> distinct (f xs) = distinct xs"
  unfolding rearranges_def by (metis mset_eq_imp_distinct_iff)

lemma rearranges_Nil: "rearranges f \<Longrightarrow> f [] = []"
  unfolding rearranges_def by (metis mset_zero_iff)

lemma duplicate_keys_distinct: "rearranges (group_order e) \<Longrightarrow> distinct (duplicate_keys e d)"
  unfolding duplicate_keys_def by (simp add: rearranges_distinct)

lemma duplicate_keys_iff:
  assumes "rearranges (group_order e)"
  shows "k \<in> set (duplicate_keys e d) \<longleftrightarrow>
           1 < length (filter (\<lambda>a. account_key a = k) (accounts d))"
proof -
  have "k \<in> account_key ` set (accounts d)"
    if "1 < length (filter (\<lambda>a. account_key a = k) (accounts d))"
  proof -
    from that have "filter (\<lambda>a. account_key a = k) (accounts d) \<noteq> []" by auto
    then obtain a where "a \<in> set (filter (\<lambda>a. account_key a = k) (accounts d))"
      by (cases "filter (\<lambda>a. account_key a = k) (accounts d)") auto
    then show ?thesis by auto
  qed
  then show ?thesis
    unfolding duplicate_keys_def by (auto simp: rearranges_set [OF assms])
qed

lemma group_accounts_length:
  "length (group_accounts d org_id name) =
     length (filter (\<lambda>a. account_key a = (org_id, name)) (accounts d))"
  unfolding group_accounts_def account_key_def by simp

lemma group_result_key:
  "g \<in> set (group_result e d n r k) \<Longrightarrow> (g_org_id g, g_name g) = k"
  unfolding group_result_def Let_def
  by (auto split: if_splits)

lemma filter_concat_key:
  assumes "distinct ks" and "k0 \<in> set ks"
    and "\<And>k g. g \<in> set (f k) \<Longrightarrow> key g = k"
  shows "filter (\<lambda>g. key g = k0) (concat (map f ks)) = f k0"
  using assms(1,2)
proof (induction ks)
  case Nil
  then show ?case by simp
next
  case (Cons k ks)
  have all: "filter (\<lambda>g. key g = k0) (f k0) = f k0"
    using assms(3) by (simp add: filter_id_conv)
  have none: "filter (\<lambda>g. key g = k0) (f k') = []" if "k' \<noteq> k0" for k'
    using assms(3) that by (auto simp: filter_empty_conv)
  have rest: "filter (\<lambda>g. key g = k0) (concat (map f ks)) = []" if "k0 \<notin> set ks"
    using that assms(3) by (auto simp: filter_empty_conv)
  show ?case
  proof (cases "k = k0")
    case True
    then have "k0 \<notin> set ks" using Cons.prems by simp
    then show ?thesis using True all rest by simp
  next
    case False
    then have "k0 \<in> set ks" using Cons.prems by simp
    then show ?thesis using False none Cons by simp
  qed
qed

lemma find_duplicate_accounts_key:
  assumes "rearranges (group_order e)" and "1 < length (group_accounts d org_id name)"
  shows "filter (\<lambda>g. g_org_id g = org_id \<and> g_name g = name) (find_duplicate_accounts e d n r)
         = group_result e d n r (org_id, name)"
proof -
  have "filter (\<lambda>g. (g_org_id g, g_name g) = (org_id, name))
          (concat (map (group_result e d n r) (duplicate_keys e d)))
        = group_result e d n r (org_id, name)"
  proof (rule filter_concat_key)
    show "distinct (duplicate_keys e d)" by (rule duplicate_keys_distinct [OF assms(1)])
    show "(org_id, name) \<in> set (duplicate_keys e d)"
      using assms(2) by (simp add: duplicate_keys_iff [OF assms(1)] group_accounts_length)
    show "\<And>k g. g \<in> set (group_result e d n r k) \<Longrightarrow> (g_org_id g, g_name g) = k"
      by (rule group_result_key)
  qed
  then show ?thesis unfolding find_duplicate_accounts_def by simp
qed

lemma find_duplicate_accounts_group:
  assumes "g \<in> set (find_duplicate_accounts e d n r)"
  shows "g \<in> set (group_result e d n r (g_org_id g, g_name g))"
proof -
  from assms obtain k where k: "g \<in> set (group_result e d n r k)"
    unfolding find_duplicate_accounts_def by auto
  from group_result_key [OF k] k show ?thesis by simp
qed

text \<open>A group of two accounts.\<close>

lemma pair_matches_iff:
  "pair_matches e d n r older newer \<longleftrightarrow>
     recent_transactions e d (a_id older) n \<noteq> [] \<and>
     r \<le> round_finite
           (of_nat (count_matches (recent_transactions e d (a_id older) n)
                      (account_transactions d (a_id newer)))
            / of_nat (length (recent_transactions e d (a_id older) n)))"
  unfolding pair_matches_def Let_def by auto

lemma find_duplicate_accounts_two:
  assumes "rearranges (group_order e)" and "group_accounts d org_id name = [older, newer]"
  shows "filter (\<lambda>g. g_org_id g = org_id \<and> g_name g = name) (find_duplicate_accounts e d n r)
         = (if pair_matches e d n r older newer
            then [\<lparr>g_org_id = org_id, g_name = name, g_accounts = [older, newer]\<rparr>] else [])"
proof -
  have "1 < length (group_accounts d org_id name)" using assms(2) by simp
  then show ?thesis
    using assms(2) by (simp add: find_duplicate_accounts_key [OF assms(1)] group_result_def)
qed

text \<open>
  The sets of accounts: a pair that was added is held by one set, and every set is kept,
  possibly enlarged, by the later additions and by the merge of overlapping sets.
\<close>

lemma add_pair_holds:
  "\<exists>s \<in> set (add_pair sets (older, newer)). older \<in> set s \<and> newer \<in> set s"
  by (induction sets) auto

lemma add_pair_mono:
  "s \<in> set sets \<Longrightarrow> \<exists>s' \<in> set (add_pair sets p). set s \<subseteq> set s'"
proof (induction sets)
  case Nil
  then show ?case by simp
next
  case (Cons a sets)
  obtain older newer where p: "p = (older, newer)" by (cases p)
  show ?case using Cons unfolding p by auto
qed

lemma foldl_add_pair_mono:
  "s \<in> set sets \<Longrightarrow> \<exists>s' \<in> set (foldl add_pair sets ps). set s \<subseteq> set s'"
proof (induction ps arbitrary: s sets)
  case Nil
  then show ?case by auto
next
  case (Cons p ps)
  from add_pair_mono [OF Cons.prems] obtain s1 where
    s1: "s1 \<in> set (add_pair sets p)" "set s \<subseteq> set s1" by blast
  from Cons.IH [OF s1(1)] obtain s2 where
    "s2 \<in> set (foldl add_pair (add_pair sets p) ps)" "set s1 \<subseteq> set s2" by blast
  then show ?case using s1(2) by auto
qed

lemma foldl_add_pair_holds:
  "(older, newer) \<in> set ps \<Longrightarrow>
     \<exists>s \<in> set (foldl add_pair sets ps). older \<in> set s \<and> newer \<in> set s"
proof (induction ps arbitrary: sets)
  case Nil
  then show ?case by simp
next
  case (Cons p ps)
  show ?case
  proof (cases "p = (older, newer)")
    case True
    from add_pair_holds [where older = older and newer = newer and sets = sets] obtain s1 where
      s1: "s1 \<in> set (add_pair sets (older, newer))" "older \<in> set s1" "newer \<in> set s1" by blast
    from foldl_add_pair_mono [OF s1(1), of ps] obtain s2 where
      "s2 \<in> set (foldl add_pair (add_pair sets (older, newer)) ps)" "set s1 \<subseteq> set s2" by blast
    then show ?thesis using s1 True by auto
  next
    case False
    then have "(older, newer) \<in> set ps" using Cons.prems by simp
    from Cons.IH [OF this, of "add_pair sets p"] show ?thesis by simp
  qed
qed

lemma absorb_fst: "set s \<subseteq> set (fst (absorb s ts))"
proof (induction ts arbitrary: s)
  case Nil
  show ?case by simp
next
  case (Cons t ts)
  show ?case using Cons [of s] Cons [of "List.union s t"]
    by (auto split: prod.splits)
qed

lemma absorb_keeps:
  "t \<in> set ts \<Longrightarrow> t \<in> set (snd (absorb s ts)) \<or> set t \<subseteq> set (fst (absorb s ts))"
proof (induction ts arbitrary: s)
  case Nil
  then show ?case by simp
next
  case (Cons u ts)
  show ?case
  proof (cases "overlaps s u")
    case True
    show ?thesis
    proof (cases "t = u")
      case True
      have "set u \<subseteq> set (List.union s u)" by auto
      also have "\<dots> \<subseteq> set (fst (absorb (List.union s u) ts))" by (rule absorb_fst)
      finally show ?thesis using \<open>overlaps s u\<close> True by simp
    next
      case False
      then have "t \<in> set ts" using Cons.prems by simp
      from Cons.IH [OF this, of "List.union s u"] show ?thesis using True by simp
    qed
  next
    case no: False
    show ?thesis
    proof (cases "t = u")
      case True
      then show ?thesis using no by (simp split: prod.splits)
    next
      case False
      then have "t \<in> set ts" using Cons.prems by simp
      from Cons.IH [OF this, of s] show ?thesis using no by (auto split: prod.splits)
    qed
  qed
qed

lemma merge_sets_mono:
  "s \<in> set sets \<Longrightarrow> \<exists>s' \<in> set (merge_sets sets). set s \<subseteq> set s'"
proof (induction sets arbitrary: s rule: merge_sets.induct)
  case 1
  then show ?case by simp
next
  case (2 a rest)
  show ?case
  proof (cases "s = a")
    case True
    then show ?thesis using absorb_fst [of a rest] by auto
  next
    case False
    then have "s \<in> set rest" using "2.prems" by simp
    from absorb_keeps [OF this, of a]
    show ?thesis
    proof
      assume "s \<in> set (snd (absorb a rest))"
      from "2.IH" [OF this] show ?thesis by auto
    next
      assume "set s \<subseteq> set (fst (absorb a rest))"
      then show ?thesis by auto
    qed
  qed
qed

lemma group_result_sets:
  assumes "length (group_accounts d (fst k) (snd k)) \<noteq> 2"
    and "duplicate_pairs e d n r (group_accounts d (fst k) (snd k)) \<noteq> []"
  shows "group_result e d n r k =
          map (\<lambda>acc_set. \<lparr>g_org_id = fst k, g_name = snd k,
                           g_accounts = sort_key account_order acc_set\<rparr>)
            (merge_sets (foldl add_pair []
               (duplicate_pairs e d n r (group_accounts d (fst k) (snd k)))))"
  using assms unfolding group_result_def Let_def by simp

lemma group_result_many:
  assumes "length (group_accounts d org_id name) \<noteq> 2"
    and "(older, newer) \<in> set (duplicate_pairs e d n r (group_accounts d org_id name))"
  shows "\<exists>g \<in> set (group_result e d n r (org_id, name)).
           older \<in> set (g_accounts g) \<and> newer \<in> set (g_accounts g)"
proof -
  let ?ps = "duplicate_pairs e d n r (group_accounts d org_id name)"
  have ne: "?ps \<noteq> []" using assms(2) by auto
  from foldl_add_pair_holds [OF assms(2), of "[]"] obtain s1 where
    s1: "s1 \<in> set (foldl add_pair [] ?ps)" "older \<in> set s1" "newer \<in> set s1" by blast
  from merge_sets_mono [OF s1(1)] obtain s2 where
    s2: "s2 \<in> set (merge_sets (foldl add_pair [] ?ps))" "set s1 \<subseteq> set s2" by blast
  have res: "group_result e d n r (org_id, name) =
          map (\<lambda>acc_set. \<lparr>g_org_id = org_id, g_name = name,
                           g_accounts = sort_key account_order acc_set\<rparr>)
            (merge_sets (foldl add_pair [] ?ps))"
    using group_result_sets [of d "(org_id, name)" e n r] assms(1) ne by simp
  show ?thesis unfolding res using s1 s2 by auto
qed

text \<open>The accounts of the sets are accounts of the pairs.\<close>

lemma add_pair_elems:
  "s \<in> set (add_pair sets (older, newer)) \<Longrightarrow> x \<in> set s \<Longrightarrow>
     x = older \<or> x = newer \<or> (\<exists>s0 \<in> set sets. x \<in> set s0)"
  by (induction sets) (auto split: if_splits)

lemma foldl_add_pair_elems:
  "s \<in> set (foldl add_pair sets ps) \<Longrightarrow> x \<in> set s \<Longrightarrow>
     (\<exists>p \<in> set ps. x = fst p \<or> x = snd p) \<or> (\<exists>s0 \<in> set sets. x \<in> set s0)"
proof (induction ps arbitrary: sets)
  case Nil
  then show ?case by auto
next
  case (Cons p ps)
  obtain older newer where p: "p = (older, newer)" by (cases p)
  from Cons.IH [of "add_pair sets p"] Cons.prems
  have "(\<exists>q \<in> set ps. x = fst q \<or> x = snd q) \<or> (\<exists>s0 \<in> set (add_pair sets p). x \<in> set s0)"
    by simp
  then show ?case
  proof
    assume "\<exists>q \<in> set ps. x = fst q \<or> x = snd q"
    then show ?thesis by auto
  next
    assume "\<exists>s0 \<in> set (add_pair sets p). x \<in> set s0"
    then obtain s0 where "s0 \<in> set (add_pair sets (older, newer))" "x \<in> set s0"
      unfolding p by blast
    from add_pair_elems [OF this] show ?thesis unfolding p by auto
  qed
qed

lemma absorb_elems:
  "(x \<in> set (fst (absorb s ts)) \<longrightarrow> x \<in> set s \<or> (\<exists>t \<in> set ts. x \<in> set t))
   \<and> set (snd (absorb s ts)) \<subseteq> set ts"
proof (induction ts arbitrary: s)
  case Nil
  show ?case by simp
next
  case (Cons t ts)
  show ?case using Cons [of s] Cons [of "List.union s t"]
    by (auto split: prod.splits)
qed

lemma merge_sets_elems:
  "s' \<in> set (merge_sets sets) \<Longrightarrow> x \<in> set s' \<Longrightarrow> \<exists>s \<in> set sets. x \<in> set s"
proof (induction sets arbitrary: s' rule: merge_sets.induct)
  case 1
  then show ?case by simp
next
  case (2 a rest)
  from "2.prems"(1) have "s' = fst (absorb a rest) \<or> s' \<in> set (merge_sets (snd (absorb a rest)))"
    by simp
  then show ?case
  proof
    assume "s' = fst (absorb a rest)"
    then show ?thesis using absorb_elems [of x a rest] "2.prems"(2) by auto
  next
    assume "s' \<in> set (merge_sets (snd (absorb a rest)))"
    from "2.IH" [OF this "2.prems"(2)] obtain s where "s \<in> set (snd (absorb a rest))" "x \<in> set s"
      by blast
    then show ?thesis using absorb_elems [of x a rest] by auto
  qed
qed

text \<open>
  Every set is joined by the pairs that pass: any two of its accounts are linked by a
  chain of such pairs, read in either direction.
\<close>

lemma joined_insert:
  assumes "equiv UNIV E" and "joined E s" and "z \<in> set s" and "(z, x) \<in> E"
  shows "joined E (List.insert x s)"
proof -
  have sym: "\<And>a b. (a, b) \<in> E \<Longrightarrow> (b, a) \<in> E" using assms(1) by (meson equivE symD)
  have trans: "\<And>a b c. (a, b) \<in> E \<Longrightarrow> (b, c) \<in> E \<Longrightarrow> (a, c) \<in> E"
    using assms(1) by (meson equivE transD)
  have refl: "\<And>a. (a, a) \<in> E" using assms(1) by (meson equivE refl_onD UNIV_I)
  have to_x: "(a, x) \<in> E" if "a \<in> set s" for a
  proof -
    from assms(2) that assms(3) have "(a, z) \<in> E" by (simp add: joined_def)
    from this assms(4) show ?thesis by (rule trans)
  qed
  show ?thesis
    unfolding joined_def
  proof (intro ballI)
    fix a b assume "a \<in> set (List.insert x s)" and "b \<in> set (List.insert x s)"
    then have a: "a = x \<or> a \<in> set s" and b: "b = x \<or> b \<in> set s" by auto
    from a b show "(a, b) \<in> E"
      using to_x sym refl assms(2) unfolding joined_def by blast
  qed
qed

lemma joined_union:
  assumes "equiv UNIV E" and "joined E s" and "joined E t" and "overlaps s t"
  shows "joined E (List.union s t)"
proof -
  have sym: "\<And>a b. (a, b) \<in> E \<Longrightarrow> (b, a) \<in> E" using assms(1) by (meson equivE symD)
  have trans: "\<And>a b c. (a, b) \<in> E \<Longrightarrow> (b, c) \<in> E \<Longrightarrow> (a, c) \<in> E"
    using assms(1) by (meson equivE transD)
  from assms(4) obtain z where z: "z \<in> set s" "z \<in> set t"
    unfolding overlaps_def by (auto simp: filter_empty_conv)
  have st: "(a, b) \<in> E" if "a \<in> set s" "b \<in> set t" for a b
  proof -
    have "(a, z) \<in> E" using assms(2) that(1) z(1) by (simp add: joined_def)
    moreover have "(z, b) \<in> E" using assms(3) that(2) z(2) by (simp add: joined_def)
    ultimately show ?thesis by (rule trans)
  qed
  show ?thesis
    unfolding joined_def
  proof (intro ballI)
    fix a b assume "a \<in> set (List.union s t)" and "b \<in> set (List.union s t)"
    then have a: "a \<in> set s \<or> a \<in> set t" and b: "b \<in> set s \<or> b \<in> set t" by auto
    from a b show "(a, b) \<in> E"
      using st sym assms(2,3) unfolding joined_def by blast
  qed
qed

lemma add_pair_joined:
  assumes "equiv UNIV E" and "(older, newer) \<in> E"
  shows "\<forall>s \<in> set sets. joined E s \<Longrightarrow> \<forall>s \<in> set (add_pair sets (older, newer)). joined E s"
proof (induction sets)
  case Nil
  have refl: "\<And>a. (a, a) \<in> E" using assms(1) by (meson equivE refl_onD UNIV_I)
  have "joined E [older]" by (simp add: joined_def refl)
  from joined_insert [OF assms(1) this _ assms(2)] show ?case by simp
next
  case (Cons a sets)
  have sym: "\<And>a b. (a, b) \<in> E \<Longrightarrow> (b, a) \<in> E" using assms(1) by (meson equivE symD)
  have refl: "\<And>a. (a, a) \<in> E" using assms(1) by (meson equivE refl_onD UNIV_I)
  from Cons.prems have ja: "joined E a" and rest: "\<forall>s \<in> set sets. joined E s" by simp_all
  show ?case
  proof (cases "older \<in> set a \<or> newer \<in> set a")
    case True
    have "joined E (List.insert newer (List.insert older a))"
    proof (cases "older \<in> set a")
      case True
      then have "List.insert older a = a" by (simp add: List.insert_def)
      with joined_insert [OF assms(1) ja True assms(2)] show ?thesis by simp
    next
      case False
      with \<open>older \<in> set a \<or> newer \<in> set a\<close> have n: "newer \<in> set a" by simp
      from joined_insert [OF assms(1) ja n sym [OF assms(2)]]
      have j1: "joined E (List.insert older a)" .
      have "older \<in> set (List.insert older a)" by simp
      from joined_insert [OF assms(1) j1 this assms(2)] show ?thesis .
    qed
    with True rest show ?thesis by simp
  next
    case False
    with Cons.IH [OF rest] ja show ?thesis by simp
  qed
qed

lemma foldl_add_pair_joined:
  assumes "equiv UNIV E"
  shows "set ps \<subseteq> E \<Longrightarrow> \<forall>s \<in> set sets. joined E s \<Longrightarrow>
         \<forall>s \<in> set (foldl add_pair sets ps). joined E s"
proof (induction ps arbitrary: sets)
  case Nil
  then show ?case by simp
next
  case (Cons p ps)
  obtain older newer where p: "p = (older, newer)" by (cases p)
  with Cons.prems(1) have in_E: "(older, newer) \<in> E" and sub: "set ps \<subseteq> E" by simp_all
  from add_pair_joined [OF assms in_E Cons.prems(2)]
  have "\<forall>s \<in> set (add_pair sets p). joined E s" unfolding p .
  from Cons.IH [OF sub this] show ?case by simp
qed

lemma absorb_joined:
  assumes "equiv UNIV E"
  shows "joined E s \<Longrightarrow> \<forall>t \<in> set ts. joined E t \<Longrightarrow>
         joined E (fst (absorb s ts)) \<and> (\<forall>t \<in> set (snd (absorb s ts)). joined E t)"
proof (induction ts arbitrary: s)
  case Nil
  then show ?case by simp
next
  case (Cons t ts)
  from Cons.prems(2) have jt: "joined E t" and rest: "\<forall>u \<in> set ts. joined E u" by simp_all
  show ?case
  proof (cases "overlaps s t")
    case True
    from joined_union [OF assms Cons.prems(1) jt True]
    have "joined E (List.union s t)" .
    from Cons.IH [OF this rest] True show ?thesis by simp
  next
    case False
    from Cons.IH [OF Cons.prems(1) rest] False jt show ?thesis
      by (auto split: prod.splits)
  qed
qed

lemma merge_sets_joined:
  assumes "equiv UNIV E"
  shows "\<forall>s \<in> set sets. joined E s \<Longrightarrow> \<forall>s \<in> set (merge_sets sets). joined E s"
proof (induction sets rule: merge_sets.induct)
  case 1
  then show ?case by simp
next
  case (2 a rest)
  from "2.prems" have ja: "joined E a" and jr: "\<forall>t \<in> set rest. joined E t" by simp_all
  from absorb_joined [OF assms ja jr]
  have j1: "joined E (fst (absorb a rest))"
    and j2: "\<forall>t \<in> set (snd (absorb a rest)). joined E t" by simp_all
  from "2.IH" [OF j2] j1 show ?case by simp
qed

lemma equiv_chain: "equiv UNIV ((R \<union> R\<inverse>)\<^sup>*)"
proof (rule equivI)
  show "(R \<union> R\<inverse>)\<^sup>* \<subseteq> UNIV \<times> UNIV" by simp
  show "refl ((R \<union> R\<inverse>)\<^sup>*)" by (rule refl_rtrancl)
  show "sym ((R \<union> R\<inverse>)\<^sup>*)" by (rule sym_rtrancl) (simp add: sym_Un_converse)
  show "trans ((R \<union> R\<inverse>)\<^sup>*)" by (rule trans_rtrancl)
qed

lemma group_result_joined:
  assumes "length (group_accounts d (fst k) (snd k)) \<noteq> 2"
    and "g \<in> set (group_result e d n r k)"
    and "a \<in> set (g_accounts g)" and "b \<in> set (g_accounts g)"
  shows "(a, b) \<in> (set (duplicate_pairs e d n r (group_accounts d (fst k) (snd k)))
                    \<union> (set (duplicate_pairs e d n r (group_accounts d (fst k) (snd k))))\<inverse>)\<^sup>*"
proof -
  let ?ps = "duplicate_pairs e d n r (group_accounts d (fst k) (snd k))"
  let ?E = "(set ?ps \<union> (set ?ps)\<inverse>)\<^sup>*"
  have eq: "equiv UNIV ?E" by (rule equiv_chain)
  have ne: "?ps \<noteq> []"
    using assms(1,2) unfolding group_result_def Let_def by (auto split: if_splits)
  from assms(2) group_result_sets [OF assms(1) ne] obtain s where
    s: "s \<in> set (merge_sets (foldl add_pair [] ?ps))" "g_accounts g = sort_key account_order s"
    by auto
  have "set ?ps \<subseteq> ?E" by auto
  from foldl_add_pair_joined [OF eq this, of "[]"]
  have "\<forall>s \<in> set (foldl add_pair [] ?ps). joined ?E s" by simp
  from merge_sets_joined [OF eq this] s(1) have "joined ?E s" by simp
  then show ?thesis using assms(3,4) s(2) by (simp add: joined_def)
qed

text \<open>The oldest-first pairs of a reported group: the older account has transactions.\<close>

lemma recent_transactions_empty:
  "rearranges (row_order e) \<Longrightarrow> account_transactions d aid = [] \<Longrightarrow>
   recent_transactions e d aid n = []"
  unfolding recent_transactions_def by (simp add: rearranges_Nil)

lemma pair_matches_in_group_iff:
  "pair_matches_in_group e d n r older newer \<longleftrightarrow>
     pair_matches e d n r older newer \<and> account_transactions d (a_id newer) \<noteq> []"
  unfolding pair_matches_in_group_def pair_matches_def Let_def by auto

lemma pair_matches_older:
  "rearranges (row_order e) \<Longrightarrow> pair_matches e d n r older newer \<Longrightarrow>
   account_transactions d (a_id older) \<noteq> []"
  unfolding pair_matches_def Let_def
  using recent_transactions_empty [of e d "a_id older" n] by (auto split: if_splits)

lemma group_result_older:
  assumes "rearranges (row_order e)"
    and "g \<in> set (group_result e d n r k)" and "a \<in> set (butlast (g_accounts g))"
  shows "account_transactions d (a_id a) \<noteq> []"
proof (cases "length (group_accounts d (fst k) (snd k)) = 2")
  case True
  then obtain x y where xy: "group_accounts d (fst k) (snd k) = [x, y]"
    by (cases "group_accounts d (fst k) (snd k)" rule: list.exhaust;
        cases "tl (group_accounts d (fst k) (snd k))") auto
  from assms(2) have "pair_matches e d n r x y" and "g_accounts g = [x, y]"
    unfolding group_result_def Let_def xy by (auto split: if_splits)
  then show ?thesis using assms(3) pair_matches_older [OF assms(1)] by auto
next
  case False
  let ?ps = "duplicate_pairs e d n r (group_accounts d (fst k) (snd k))"
  have ne: "?ps \<noteq> []"
    using False assms(2) unfolding group_result_def Let_def by (auto split: if_splits)
  from assms(2) group_result_sets [OF False ne] obtain s where
    s: "s \<in> set (merge_sets (foldl add_pair [] ?ps))" "g_accounts g = sort_key account_order s"
    by auto
  from assms(3) have "a \<in> set (g_accounts g)" by (rule in_set_butlastD)
  then have "a \<in> set s" using s(2) by simp
  from merge_sets_elems [OF s(1) this] obtain s1 where
    "s1 \<in> set (foldl add_pair [] ?ps)" "a \<in> set s1" by blast
  from foldl_add_pair_elems [OF this] obtain p where
    p: "p \<in> set ?ps" "a = fst p \<or> a = snd p" by auto
  from p(1) have "pair_matches_in_group e d n r (fst p) (snd p)"
    by (simp add: duplicate_pairs_def)
  then have "pair_matches e d n r (fst p) (snd p)" "account_transactions d (a_id (snd p)) \<noteq> []"
    by (simp_all add: pair_matches_in_group_iff)
  then show ?thesis using p(2) pair_matches_older [OF assms(1)] by auto
qed

lemma find_duplicate_accounts_many:
  assumes "rearranges (group_order e)"
    and "2 < length (group_accounts d org_id name)"
    and "(older, newer) \<in> set (all_pairs (group_accounts d org_id name))"
    and "pair_matches e d n r older newer"
    and "account_transactions d (a_id newer) \<noteq> []"
  shows "\<exists>g \<in> set (find_duplicate_accounts e d n r).
           g_org_id g = org_id \<and> g_name g = name \<and>
           older \<in> set (g_accounts g) \<and> newer \<in> set (g_accounts g)"
proof -
  have ne2: "length (group_accounts d org_id name) \<noteq> 2" using assms(2) by simp
  have "(older, newer) \<in> set (duplicate_pairs e d n r (group_accounts d org_id name))"
    using assms(3,4,5) by (simp add: duplicate_pairs_def pair_matches_in_group_iff)
  from group_result_many [OF ne2 this] obtain g where
    g: "g \<in> set (group_result e d n r (org_id, name))"
       "older \<in> set (g_accounts g)" "newer \<in> set (g_accounts g)"
    by auto
  have "1 < length (group_accounts d org_id name)" using assms(2) by simp
  from find_duplicate_accounts_key [OF assms(1) this, of n r] g(1)
  have "g \<in> set (filter (\<lambda>g. g_org_id g = org_id \<and> g_name g = name)
                    (find_duplicate_accounts e d n r))" by simp
  then show ?thesis using g(2,3) by auto
qed

text \<open>
  The sets are not the classes of the chains: with the passing pairs below, the accounts
  0 and 1 are linked by a chain of pairs and are reported in different groups, and
  account 2 is reported in both.
\<close>

lemma merge_sets_not_transitive:
  "merge_sets (foldl add_pair [] [(0 :: nat, 3), (1, 5), (2, 4), (2, 5), (3, 4)])
     = [[0, 3, 4, 2], [2, 5, 1]]"
  by code_simp

text \<open>
  C6 (duplicate-detection threshold), as the code groups the accounts. The accounts of a
  key \<open>(org_id, name)\<close> are \<open>group_accounts\<close>, ordered by \<open>created_at\<close> (unset last), then
  by \<open>id\<close>; the sample of an account is \<open>recent_transactions\<close>, its \<open>n\<close> transactions posted
  last, as the database returns them; the ratio is the float of matches by sample length.
  For every database engine that returns the rows and groups it finds, in any order:

  \<^item> When exactly two accounts share the key, the detector reports one group for the key,
    holding the two accounts, exactly when the sample of the older account is not empty
    and the ratio of sampled transactions whose key is a key of a transaction of the
    newer account is at least \<open>r\<close>; otherwise it reports no group for the key.
  \<^item> When three or more accounts share the key, a pair of them (older first) that passes
    this test, and whose newer account has a transaction, is reported together in one
    group of the key.
  \<^item> When the key is not shared by exactly two accounts, any two accounts reported in one
    group are linked by a chain of pairs that pass the test (each with a newer account
    that has a transaction), read in either direction.
  \<^item> In every reported group, each account but the last has at least one transaction: a
    pair whose older account has no transactions is not reported.
\<close>

theorem find_duplicate_accounts_threshold:
  assumes "rearranges (group_order e)" and "rearranges (row_order e)"
  shows
  "(group_accounts d org_id name = [older, newer] \<longrightarrow>
      filter (\<lambda>g. g_org_id g = org_id \<and> g_name g = name) (find_duplicate_accounts e d n r) =
        (if recent_transactions e d (a_id older) n \<noteq> [] \<and>
            r \<le> round_finite
                  (of_nat (count_matches (recent_transactions e d (a_id older) n)
                             (account_transactions d (a_id newer)))
                   / of_nat (length (recent_transactions e d (a_id older) n)))
         then [\<lparr>g_org_id = org_id, g_name = name, g_accounts = [older, newer]\<rparr>]
         else []))
   \<and> (2 < length (group_accounts d org_id name) \<and>
        (older, newer) \<in> set (all_pairs (group_accounts d org_id name)) \<and>
        pair_matches e d n r older newer \<and> account_transactions d (a_id newer) \<noteq> [] \<longrightarrow>
        (\<exists>g \<in> set (find_duplicate_accounts e d n r).
           g_org_id g = org_id \<and> g_name g = name \<and>
           older \<in> set (g_accounts g) \<and> newer \<in> set (g_accounts g)))
   \<and> (g \<in> set (find_duplicate_accounts e d n r) \<and>
        length (group_accounts d (g_org_id g) (g_name g)) \<noteq> 2 \<and>
        a \<in> set (g_accounts g) \<and> b \<in> set (g_accounts g) \<longrightarrow>
        (a, b) \<in> (set (duplicate_pairs e d n r (group_accounts d (g_org_id g) (g_name g))) \<union>
                   (set (duplicate_pairs e d n r (group_accounts d (g_org_id g) (g_name g))))\<inverse>)\<^sup>*)
   \<and> (g \<in> set (find_duplicate_accounts e d n r) \<and> a \<in> set (butlast (g_accounts g)) \<longrightarrow>
        account_transactions d (a_id a) \<noteq> [])"
proof (intro conjI impI)
  assume "group_accounts d org_id name = [older, newer]"
  from find_duplicate_accounts_two [OF assms(1) this, of n r]
  show "filter (\<lambda>g. g_org_id g = org_id \<and> g_name g = name) (find_duplicate_accounts e d n r) =
        (if recent_transactions e d (a_id older) n \<noteq> [] \<and>
            r \<le> round_finite
                  (of_nat (count_matches (recent_transactions e d (a_id older) n)
                             (account_transactions d (a_id newer)))
                   / of_nat (length (recent_transactions e d (a_id older) n)))
         then [\<lparr>g_org_id = org_id, g_name = name, g_accounts = [older, newer]\<rparr>]
         else [])"
    by (simp only: pair_matches_iff)
next
  assume "2 < length (group_accounts d org_id name) \<and>
        (older, newer) \<in> set (all_pairs (group_accounts d org_id name)) \<and>
        pair_matches e d n r older newer \<and> account_transactions d (a_id newer) \<noteq> []"
  then show "\<exists>g \<in> set (find_duplicate_accounts e d n r).
           g_org_id g = org_id \<and> g_name g = name \<and>
           older \<in> set (g_accounts g) \<and> newer \<in> set (g_accounts g)"
    using find_duplicate_accounts_many [OF assms(1)] by blast
next
  assume h: "g \<in> set (find_duplicate_accounts e d n r) \<and>
        length (group_accounts d (g_org_id g) (g_name g)) \<noteq> 2 \<and>
        a \<in> set (g_accounts g) \<and> b \<in> set (g_accounts g)"
  then have "g \<in> set (group_result e d n r (g_org_id g, g_name g))"
    by (simp add: find_duplicate_accounts_group)
  from group_result_joined [of d "(g_org_id g, g_name g)" g e n r a b] this h
  show "(a, b) \<in> (set (duplicate_pairs e d n r (group_accounts d (g_org_id g) (g_name g))) \<union>
                   (set (duplicate_pairs e d n r (group_accounts d (g_org_id g) (g_name g))))\<inverse>)\<^sup>*"
    by simp
next
  assume h: "g \<in> set (find_duplicate_accounts e d n r) \<and> a \<in> set (butlast (g_accounts g))"
  then have "g \<in> set (group_result e d n r (g_org_id g, g_name g))"
    by (simp add: find_duplicate_accounts_group)
  from group_result_older [OF assms(2) this] h
  show "account_transactions d (a_id a) \<noteq> []" by simp
qed

theorem find_duplicate_accounts_threshold_witness:
  "rearranges (group_order table_order) \<and> rearranges (row_order table_order)
   \<and> group_accounts four_of_five_db (Some ''org-1'') ''Checking'' = [acc_old, acc_new]
   \<and> length (recent_transactions table_order four_of_five_db ''acc-old'' 5) = 5
   \<and> count_matches (recent_transactions table_order four_of_five_db ''acc-old'' 5)
        (account_transactions four_of_five_db ''acc-new'') = 4
   \<and> filter (\<lambda>g. g_org_id g = Some ''org-1'' \<and> g_name g = ''Checking'')
        (find_duplicate_accounts table_order four_of_five_db 5 (round_finite (4 / 5))) =
      [\<lparr>g_org_id = Some ''org-1'', g_name = ''Checking'', g_accounts = [acc_old, acc_new]\<rparr>]
   \<and> group_accounts three_of_five_db (Some ''org-1'') ''Checking'' = [acc_old, acc_new]
   \<and> length (recent_transactions table_order three_of_five_db ''acc-old'' 5) = 5
   \<and> count_matches (recent_transactions table_order three_of_five_db ''acc-old'' 5)
        (account_transactions three_of_five_db ''acc-new'') = 3
   \<and> filter (\<lambda>g. g_org_id g = Some ''org-1'' \<and> g_name g = ''Checking'')
        (find_duplicate_accounts table_order three_of_five_db 5 (round_finite (4 / 5))) = []
   \<and> group_accounts empty_older_db (Some ''org-1'') ''Checking'' = [acc_old, acc_new]
   \<and> account_transactions empty_older_db ''acc-old'' = []
   \<and> filter (\<lambda>g. g_org_id g = Some ''org-1'' \<and> g_name g = ''Checking'')
        (find_duplicate_accounts table_order empty_older_db 5 (round_finite (4 / 5))) = []
   \<and> 2 < length (group_accounts chain_db (Some ''org-1'') ''Checking'')
   \<and> (acc_old, acc_mid) \<in> set (all_pairs (group_accounts chain_db (Some ''org-1'') ''Checking''))
   \<and> pair_matches table_order chain_db 5 (round_finite (4 / 5)) acc_old acc_mid
   \<and> account_transactions chain_db ''acc-mid'' \<noteq> []
   \<and> (\<exists>g \<in> set (find_duplicate_accounts table_order chain_db 5 (round_finite (4 / 5))).
         g_org_id g = Some ''org-1'' \<and> g_name g = ''Checking'' \<and>
         acc_old \<in> set (g_accounts g) \<and> acc_mid \<in> set (g_accounts g))
   \<and> \<lparr>g_org_id = Some ''org-1'', g_name = ''Checking'',
        g_accounts = [acc_old, acc_mid, acc_new]\<rparr>
        \<in> set (find_duplicate_accounts table_order chain_db 5 (round_finite (4 / 5)))
   \<and> duplicate_pairs table_order chain_db 5 (round_finite (4 / 5))
        (group_accounts chain_db (Some ''org-1'') ''Checking'')
      = [(acc_old, acc_mid), (acc_mid, acc_new)]
   \<and> (acc_old, acc_new) \<in> (set [(acc_old, acc_mid), (acc_mid, acc_new)] \<union>
                             (set [(acc_old, acc_mid), (acc_mid, acc_new)])\<inverse>)\<^sup>*
   \<and> \<lparr>g_org_id = Some ''org-1'', g_name = ''Checking'', g_accounts = [acc_old, acc_new]\<rparr>
        \<in> set (find_duplicate_accounts table_order four_of_five_db 5 (round_finite (4 / 5)))
   \<and> acc_old \<in> set (butlast [acc_old, acc_new])
   \<and> account_transactions four_of_five_db ''acc-old'' \<noteq> []"
proof -
  let ?org = "Some ''org-1''" and ?name = "''Checking''"
  let ?r = "round_finite (4 / 5)"
  let ?e = table_order
  let ?g0 = "\<lparr>g_org_id = Some ''org-1'', g_name = ''Checking'', g_accounts = [acc_old, acc_new]\<rparr>"
  let ?g1 = "\<lparr>g_org_id = Some ''org-1'', g_name = ''Checking'',
              g_accounts = [acc_old, acc_mid, acc_new]\<rparr>"
  have o1: "rearranges (group_order ?e)" and o2: "rearranges (row_order ?e)"
    by (simp_all add: rearranges_def table_order_def)
  note T = find_duplicate_accounts_threshold [OF o1 o2]
  have ids: "a_id acc_old = ''acc-old''" "a_id acc_new = ''acc-new''" "a_id acc_mid = ''acc-mid''"
    by (simp_all add: acc_old_def acc_new_def acc_mid_def)
  have r45: "?r = 3602879701896397 / 4503599627370496"
    and r35: "round_finite (3 / 5) = 5404319552844595 / 9007199254740992"
    by code_simp+
  have g4: "group_accounts four_of_five_db ?org ?name = [acc_old, acc_new]" by code_simp
  have n4: "recent_transactions ?e four_of_five_db ''acc-old'' 5 \<noteq> []" by code_simp
  have l4: "length (recent_transactions ?e four_of_five_db ''acc-old'' 5) = 5" by code_simp
  have c4: "count_matches (recent_transactions ?e four_of_five_db ''acc-old'' 5)
              (account_transactions four_of_five_db ''acc-new'') = 4" by code_simp
  have r4: "filter (\<lambda>g. g_org_id g = ?org \<and> g_name g = ?name)
              (find_duplicate_accounts ?e four_of_five_db 5 ?r) = [?g0]"
    using T [where d = four_of_five_db and org_id = ?org and name = ?name and older = acc_old
               and newer = acc_new and n = 5 and r = ?r, THEN conjunct1, rule_format, OF g4]
    by (simp add: ids n4 l4 c4)
  have g3: "group_accounts three_of_five_db ?org ?name = [acc_old, acc_new]" by code_simp
  have l3: "length (recent_transactions ?e three_of_five_db ''acc-old'' 5) = 5" by code_simp
  have c3: "count_matches (recent_transactions ?e three_of_five_db ''acc-old'' 5)
              (account_transactions three_of_five_db ''acc-new'') = 3" by code_simp
  have r3: "filter (\<lambda>g. g_org_id g = ?org \<and> g_name g = ?name)
              (find_duplicate_accounts ?e three_of_five_db 5 ?r) = []"
    using T [where d = three_of_five_db and org_id = ?org and name = ?name and older = acc_old
               and newer = acc_new and n = 5 and r = ?r, THEN conjunct1, rule_format, OF g3]
    by (simp add: ids l3 c3 r35) (simp add: r45)
  have g0: "group_accounts empty_older_db ?org ?name = [acc_old, acc_new]" by code_simp
  have e0: "account_transactions empty_older_db ''acc-old'' = []" by code_simp
  have n0: "recent_transactions ?e empty_older_db ''acc-old'' 5 = []" by code_simp
  have r0: "filter (\<lambda>g. g_org_id g = ?org \<and> g_name g = ?name)
              (find_duplicate_accounts ?e empty_older_db 5 ?r) = []"
    using T [where d = empty_older_db and org_id = ?org and name = ?name and older = acc_old
               and newer = acc_new and n = 5 and r = ?r, THEN conjunct1, rule_format, OF g0]
    by (simp add: ids n0)
  have k1: "2 < length (group_accounts chain_db ?org ?name)" by code_simp
  have k2: "(acc_old, acc_mid) \<in> set (all_pairs (group_accounts chain_db ?org ?name))"
    by code_simp
  have k3: "pair_matches ?e chain_db 5 ?r acc_old acc_mid" by code_simp
  have k4: "account_transactions chain_db ''acc-mid'' \<noteq> []" by code_simp
  have k5: "\<exists>g \<in> set (find_duplicate_accounts ?e chain_db 5 ?r).
         g_org_id g = ?org \<and> g_name g = ?name \<and>
         acc_old \<in> set (g_accounts g) \<and> acc_mid \<in> set (g_accounts g)"
    using T [where d = chain_db and org_id = ?org and name = ?name and older = acc_old
               and newer = acc_mid and n = 5 and r = ?r,
             THEN conjunct2, THEN conjunct1, rule_format]
          k1 k2 k3 k4
    by (simp add: ids)
  have j1: "?g1 \<in> set (find_duplicate_accounts ?e chain_db 5 ?r)" by code_simp
  have j2: "duplicate_pairs ?e chain_db 5 ?r (group_accounts chain_db ?org ?name)
              = [(acc_old, acc_mid), (acc_mid, acc_new)]" by code_simp
  have j3: "length (group_accounts chain_db ?org ?name) \<noteq> 2" using k1 by simp
  have j4: "(acc_old, acc_new) \<in> (set [(acc_old, acc_mid), (acc_mid, acc_new)] \<union>
                             (set [(acc_old, acc_mid), (acc_mid, acc_new)])\<inverse>)\<^sup>*"
    using T [where d = chain_db and n = 5 and r = ?r and g = ?g1 and a = acc_old and b = acc_new,
             THEN conjunct2, THEN conjunct2, THEN conjunct1, rule_format]
          j1 j3
    by (simp add: j2)
  have m1: "?g0 \<in> set (find_duplicate_accounts ?e four_of_five_db 5 ?r)" by code_simp
  have m2: "acc_old \<in> set (butlast [acc_old, acc_new])" by simp
  have m3: "account_transactions four_of_five_db ''acc-old'' \<noteq> []"
    using T [where d = four_of_five_db and n = 5 and r = ?r and g = ?g0 and a = acc_old,
             THEN conjunct2, THEN conjunct2, THEN conjunct2, rule_format]
          m1 m2
    by (simp add: ids)
  show ?thesis
    using o1 o2 g4 l4 c4 r4 g3 l3 c3 r3 g0 e0 r0 k1 k2 k3 k4 k5 j1 j2 j4 m1 m2 m3 by blast
qed

text \<open>
  The claim as stated covers every pair of accounts that share \<open>(org_id, name)\<close>. With three
  such accounts the code unites the pairs that pass into sets: in \<open>chain_db\<close> the pairs
  \<open>(acc-old, acc-mid)\<close> and \<open>(acc-mid, acc-new)\<close> pass with 4 of 5, the pair
  \<open>(acc-old, acc-new)\<close> has 3 of 5, below the minimum of 0.8, and the three accounts are
  reported as one group of duplicates, whatever the order of the engine.
\<close>

theorem find_duplicate_accounts_reports_chained_pair:
  "group_accounts chain_db (Some ''org-1'') ''Checking'' = [acc_old, acc_mid, acc_new]
   \<and> recent_transactions table_order chain_db (a_id acc_old) 5 =
       [posted_row ''o5'' ''acc-old'' 1700000005, posted_row ''o4'' ''acc-old'' 1700000004,
        posted_row ''o3'' ''acc-old'' 1700000003, posted_row ''o2'' ''acc-old'' 1700000002,
        posted_row ''o1'' ''acc-old'' 1700000001]
   \<and> count_matches (recent_transactions table_order chain_db (a_id acc_old) 5)
        (account_transactions chain_db (a_id acc_new)) = 3
   \<and> round_finite (3 / 5) < round_finite (4 / 5)
   \<and> \<not> pair_matches table_order chain_db 5 (round_finite (4 / 5)) acc_old acc_new
   \<and> find_duplicate_accounts table_order chain_db 5 (round_finite (4 / 5)) =
       [\<lparr>g_org_id = Some ''org-1'', g_name = ''Checking'',
         g_accounts = [acc_old, acc_mid, acc_new]\<rparr>]
   \<and> find_duplicate_accounts reverse_order chain_db 5 (round_finite (4 / 5)) =
       [\<lparr>g_org_id = Some ''org-1'', g_name = ''Checking'',
         g_accounts = [acc_old, acc_mid, acc_new]\<rparr>]"
  by code_simp

text \<open>
  The sample depends on the order in which the database returns transactions posted at
  the same time. In \<open>tie_db\<close> the fifth place of the sample is taken by one of two
  transactions of \<open>acc-old\<close>, of which \<open>acc-new\<close> has one: in table order the pair has 4 of
  5 and is reported, in the reverse order it has 3 of 5 and is not.
\<close>

lemma find_duplicate_accounts_tie_order:
  "find_duplicate_accounts table_order tie_db 5 (round_finite (4 / 5)) =
     [\<lparr>g_org_id = Some ''org-1'', g_name = ''Checking'', g_accounts = [acc_old, acc_new]\<rparr>]
   \<and> find_duplicate_accounts reverse_order tie_db 5 (round_finite (4 / 5)) = []"
  by code_simp


end
